theory Spec2Isabelle
  imports Complex_Main
begin

section \<open>Numbers, time and the random source\<close>

text \<open>
  The simulation of \<^verbatim>\<open>main.go\<close> works on \<^verbatim>\<open>float64\<close> coordinates, on Go's 64-bit
  \<^verbatim>\<open>int\<close>, on \<^verbatim>\<open>time.Time\<close> and on the global \<^verbatim>\<open>math/rand\<close> source.
  \<^item> \<^verbatim>\<open>float64\<close> is modelled by \<^typ>\<open>real\<close>: exact arithmetic, no rounding.
  \<^item> Go's \<^verbatim>\<open>int\<close> is modelled by \<^typ>\<open>int\<close>; the counters that only ever grow
    (\<^verbatim>\<open>x++\<close>, \<^verbatim>\<open>x += 10\<close>) wrap around at 64 bits through \<open>wrap64\<close>.
  \<^item> \<^verbatim>\<open>time.Time\<close> is a number of nanoseconds; the zero time \<^verbatim>\<open>time.Time{}\<close> is 0.
    One tick reads the clock several times; the model hands the tick one reading \<open>now\<close>.
  \<^item> the random source is a stream of draws from \<open>[0, 1)\<close>; \<^verbatim>\<open>rand.Float64()\<close> takes the
    next draw \<open>r\<close>, \<^verbatim>\<open>rand.Intn(n)\<close> takes the next draw and returns \<open>\<lfloor>r * n\<rfloor>\<close>.
\<close>

type_synonym rnd = "nat \<Rightarrow> real"

definition dropRnd :: "nat \<Rightarrow> rnd \<Rightarrow> rnd" where
  "dropRnd k r = (\<lambda>n. r (n + k))"

definition Intn :: "int \<Rightarrow> real \<Rightarrow> int" where
  "Intn n r = \<lfloor>r * real_of_int n\<rfloor>"

definition goInt :: "real \<Rightarrow> int" where
  \<comment> \<open>the conversion \<^verbatim>\<open>int(x)\<close> of a float: truncation towards zero\<close>
  "goInt x = (if 0 \<le> x then \<lfloor>x\<rfloor> else \<lceil>x\<rceil>)"

definition wrap64 :: "int \<Rightarrow> int" where
  "wrap64 n = (n + 2 ^ 63) mod 2 ^ 64 - 2 ^ 63"

definition goRem :: "int \<Rightarrow> int \<Rightarrow> int" where
  \<comment> \<open>Go's \<^verbatim>\<open>%\<close>: the remainder has the sign of the dividend\<close>
  "goRem a b = sgn a * (\<bar>a\<bar> mod \<bar>b\<bar>)"

definition goQuot :: "int \<Rightarrow> int \<Rightarrow> int" where
  \<comment> \<open>Go's \<^verbatim>\<open>/\<close> on integers: the quotient is truncated towards zero\<close>
  "goQuot a b = sgn a * sgn b * (\<bar>a\<bar> div \<bar>b\<bar>)"

definition Millisecond :: int where
  "Millisecond = 1000000"

definition Second :: int where
  "Second = 1000000000"

definition Atan2 :: "real \<Rightarrow> real \<Rightarrow> real" where
  "Atan2 y x =
     (if 0 < x then arctan (y / x)
      else if x < 0 then (if 0 \<le> y then arctan (y / x) + pi else arctan (y / x) - pi)
      else if 0 < y then pi / 2
      else if y < 0 then - (pi / 2)
      else 0)"

definition PlayerWidth :: int where "PlayerWidth = 4"
definition PlayerHeight :: int where "PlayerHeight = 3"
definition EnemyWidth :: int where "EnemyWidth = 4"
definition EnemyHeight :: int where "EnemyHeight = 3"

section \<open>Data model\<close>

text \<open>
  One record per struct of the source. Isabelle needs distinct selector names, so the
  fields of each struct carry a prefix: \<open>P_\<close> player, \<open>Pr_\<close> projectile, \<open>E_\<close> enemy,
  \<open>D_\<close> death particle (fragment), \<open>B_\<close> blood particle, \<open>C_\<close> corpse, \<open>Pl_\<close> platform.
\<close>

record Vec2 =
  X :: real
  Y :: real

record Player =
  P_Pos :: Vec2
  P_Vel :: Vec2
  P_Facing :: int
  P_MoveDir :: int
  P_Width :: int
  P_Height :: int
  P_OnGround :: bool
  P_OnPlatform :: bool
  P_LastOnGroundTime :: int

record Projectile =
  Pr_Pos :: Vec2
  Pr_PrevPos :: Vec2
  Pr_Dir :: int
  Pr_Active :: bool
  Pr_Frame :: int
  Pr_IsEnemy :: bool

record Enemy =
  E_Pos :: Vec2
  E_Vel :: Vec2
  E_Facing :: int
  E_Width :: int
  E_Height :: int
  E_Active :: bool
  E_CanShoot :: bool
  E_LastShot :: int
  E_NextShotDelay :: int
  E_OnGround :: bool
  E_JumpCooldown :: int

record DeathParticle =
  D_Pos :: Vec2
  D_Vel :: Vec2
  D_Char :: char
  D_OnGround :: bool
  D_Bounces :: int
  D_GroundTime :: int
  D_Active :: bool
  D_EnemyID :: int
  D_IsRed :: bool
  D_AngularVel :: real
  D_Angle :: real
  D_FallsThrough :: bool
  D_IsHead :: bool
  D_IsRolling :: bool
  D_RollDistance :: real
  D_RollSpeed :: real
  D_BouncedFromPlatform :: bool
  D_WasOnPlatform :: bool
  D_HasSplattedFromPlatform :: bool
  D_LastBloodEmit :: int
  D_HasHitGround :: bool

record BloodParticle =
  B_Pos :: Vec2
  B_Vel :: Vec2
  B_Char :: char
  B_Active :: bool
  B_Lifetime :: real
  B_EnemyID :: int

record Corpse =
  C_Pos :: Vec2
  C_Vel :: Vec2
  C_Facing :: int
  C_OnGround :: bool
  C_Active :: bool
  C_EnemyID :: int
  C_EndTime :: int
  C_MoveDir :: int
  C_LastDirChange :: int
  C_DirDuration :: int
  C_LastBloodEmit :: int
  C_WasOnPlatform :: bool

record Platform =
  Pl_X :: real
  Pl_Y :: real
  Pl_Width :: real
  Pl_Height :: real

datatype Key = KeyRune char | KeyTab | KeyEscape | KeyEnter | KeyLeft | KeyRight | KeyUp | KeyOther

text \<open>
  The world state. The \<^verbatim>\<open>screen\<close> handle of the source is left out (rendering only);
  \<open>rnd\<close> is the state of the global random source.
\<close>

record Game =
  player :: Player
  projectiles :: "Projectile list"
  enemies :: "Enemy list"
  deathParticles :: "DeathParticle list"
  corpses :: "Corpse list"
  bloodParticles :: "BloodParticle list"
  platforms :: "Platform list"
  score :: int
  enemiesDefeated :: int
  enemySpawnCounter :: int
  gameOver :: bool
  inMenu :: bool
  bloodColorMode :: int
  width :: int
  height :: int
  groundY :: int
  redGroundTiles :: "int \<rightharpoonup> int"
  redPlatformTiles :: "int \<rightharpoonup> int"
  nextEnemyID :: int
  lastFrame :: int
  keys :: "Key \<rightharpoonup> int"
  lastShot :: int
  menuLastShot :: int
  menuLastEnemySpawn :: int
  rnd :: rnd

section \<open>Stain registry\<close>

definition isTileUnderPlatform :: "Game \<Rightarrow> int \<Rightarrow> bool" where
  "isTileUnderPlatform g x =
     (\<exists>pl \<in> set (platforms g). goInt (Pl_X pl) \<le> x \<and> x < goInt (Pl_X pl + Pl_Width pl))"

definition markGroundRed :: "int \<Rightarrow> int \<Rightarrow> bool \<Rightarrow> Game \<Rightarrow> Game" where
  "markGroundRed tileX enemyID wasOnPlatform g =
     (if 0 \<le> tileX \<and> tileX < width g
      then (if \<not> wasOnPlatform \<or> \<not> isTileUnderPlatform g tileX
            then g\<lparr>redGroundTiles := (redGroundTiles g)(tileX \<mapsto> enemyID)\<rparr>
            else g)
      else g)"

definition markPlatformRed :: "int \<Rightarrow> int \<Rightarrow> int \<Rightarrow> Game \<Rightarrow> Game" where
  "markPlatformRed platformIndex tileX enemyID g =
     (let baseKey = platformIndex * 10000;
          key = baseKey + tileX
      in g\<lparr>redPlatformTiles := (redPlatformTiles g)(key \<mapsto> enemyID)\<rparr>)"

definition activeEnemyIDs :: "Game \<Rightarrow> int set" where
  \<comment> \<open>the keys of the \<^verbatim>\<open>map[int]bool\<close> built by the two collecting loops\<close>
  "activeEnemyIDs g =
     D_EnemyID ` set (filter D_Active (deathParticles g)) \<union>
     B_EnemyID ` set (filter B_Active (bloodParticles g))"

definition clearTiles :: "int set \<Rightarrow> (int \<rightharpoonup> int) \<Rightarrow> (int \<rightharpoonup> int)" where
  \<comment> \<open>collect the keys whose source id is not active, then delete them\<close>
  "clearTiles act m =
     (\<lambda>k. case m k of None \<Rightarrow> None | Some e \<Rightarrow> if e \<in> act then Some e else None)"

definition checkAndClearRedTiles :: "Game \<Rightarrow> Game" where
  "checkAndClearRedTiles g =
     (let act = activeEnemyIDs g
      in g\<lparr>redGroundTiles := clearTiles act (redGroundTiles g),
           redPlatformTiles := clearTiles act (redPlatformTiles g)\<rparr>)"

section \<open>Loops over an entity slice\<close>

text \<open>
  \<^verbatim>\<open>for i := range xs { p := &xs[i]; ... }\<close> visits the entries in order, updates the
  entry in place and may change the rest of the world (append blood particles, draw random
  numbers). \<open>forEach\<close> threads the world through the visits. The bodies below never read
  the slice they are iterating over through the world state.
\<close>

fun forEach :: "('a \<Rightarrow> 's \<Rightarrow> 'a \<times> 's) \<Rightarrow> 'a list \<Rightarrow> 's \<Rightarrow> 'a list \<times> 's" where
  "forEach f [] s = ([], s)"
| "forEach f (x # xs) s =
     (case f x s of (x', s1) \<Rightarrow>
        (case forEach f xs s1 of (xs', s2) \<Rightarrow> (x' # xs', s2)))"

section \<open>Blood spray\<close>

definition bloodCount :: "real \<Rightarrow> bool \<Rightarrow> rnd \<Rightarrow> int \<times> rnd" where
  \<comment> \<open>\<^verbatim>\<open>numBlood\<close>: 3-6 scaled by the intensity for an impact, 1-2 for continuous emission\<close>
  "bloodCount intensity impact r =
     (if impact
      then (goInt (real_of_int (3 + Intn 4 (r 0)) * (0.5 + intensity * 0.5)), dropRnd 1 r)
      else if intensity > 0.5 then (1 + Intn 2 (r 1), dropRnd 2 r)
      else (1 + Intn 2 (r 0), dropRnd 1 r))"

definition bloodOne :: "DeathParticle \<Rightarrow> bool \<Rightarrow> rnd \<Rightarrow> BloodParticle" where
  \<comment> \<open>one pass of the emission loop; it takes six draws\<close>
  "bloodOne p impact r =
     (let vx = X (D_Vel p);
          vy = Y (D_Vel p);
          angle = (if impact then Atan2 vy vx + (r 0 - 0.5) * pi * 0.8
                   else if \<bar>vx\<bar> > 0.1 \<or> \<bar>vy\<bar> > 0.1
                        then Atan2 vy vx + pi + (r 0 - 0.5) * pi * 0.6
                        else r 0 * 2 * pi);
          speed = (if impact then 20 + sqrt (vx * vx + vy * vy) * 0.3 + r 1 * 30
                   else 10 + r 1 * 25);
          velX = cos angle * speed;
          velY = sin angle * speed - 5 - r 2 * 10;
          lifetime = (if impact then 0.4 + r 3 * 0.6 else 0.3 + r 3 * 0.5);
          offsetX = (r 4 - 0.5) * 2;
          offsetY = (r 5 - 0.5) * 2
      in \<lparr>B_Pos = \<lparr>X = X (D_Pos p) + offsetX, Y = Y (D_Pos p) + offsetY\<rparr>,
          B_Vel = \<lparr>X = velX, Y = velY\<rparr>,
          B_Char = CHR ''.'',
          B_Active = True,
          B_Lifetime = lifetime,
          B_EnemyID = D_EnemyID p\<rparr>)"

fun emitLoop :: "nat \<Rightarrow> DeathParticle \<Rightarrow> bool \<Rightarrow> Game \<Rightarrow> Game" where
  "emitLoop 0 p impact g = g"
| "emitLoop (Suc n) p impact g =
     emitLoop n p impact
       (g\<lparr>bloodParticles := bloodParticles g @ [bloodOne p impact (rnd g)],
          rnd := dropRnd 6 (rnd g)\<rparr>)"

definition emitBloodFromParticle :: "DeathParticle \<Rightarrow> real \<Rightarrow> bool \<Rightarrow> Game \<Rightarrow> Game" where
  "emitBloodFromParticle p intensity impact g =
     (case bloodCount intensity impact (rnd g) of
        (numBlood, r) \<Rightarrow> emitLoop (nat numBlood) p impact (g\<lparr>rnd := r\<rparr>))"

section \<open>Spawning fragments\<close>

definition rollDraws :: "bool \<Rightarrow> rnd \<Rightarrow> (bool \<times> real \<times> real) \<times> rnd" where
  \<comment> \<open>\<^verbatim>\<open>isRolling, rollDistance, rollSpeed\<close>: only a head piece draws, with a 5% chance to roll\<close>
  "rollDraws isHead r =
     (if isHead then
        (if r 0 < 0.05
         then ((True, 20 + r 1 * 30,
                (let s = 40 + r 2 * 20 in if r 3 < 0.5 then - s else s)), dropRnd 4 r)
         else ((False, 0, 0), dropRnd 1 r))
      else ((False, 0, 0), r))"

definition launchDraws :: "rnd \<Rightarrow> (real \<times> real \<times> real) \<times> rnd" where
  \<comment> \<open>\<^verbatim>\<open>velX, velY, angularVel\<close> of a launched piece\<close>
  "launchDraws r =
     (let angle = r 0 * 2 * 3.14159;
          speed = 20 + r 1 * 30;
          velX = cos angle * speed;
          velY = - 15 - r 2 * 25 + sin angle * speed * 0.5;
          angularVel = (r 3 - 0.5) * 360
      in ((velX, velY, angularVel), dropRnd 4 r))"

definition spawnPiece ::
  "int \<Rightarrow> Vec2 \<Rightarrow> int \<Rightarrow> bool \<Rightarrow> char \<Rightarrow> char \<times> int \<times> int \<Rightarrow> Game \<Rightarrow> Game" where
  \<comment> \<open>the body of the loop over the sprite pieces, the same text in
      \<^verbatim>\<open>createPlayerDeathParticles\<close> (head \<^verbatim>\<open>'0'\<close>, id 0, never from a platform),
      \<^verbatim>\<open>createDeathParticles\<close> and \<^verbatim>\<open>createDeathParticlesAt\<close> (head \<^verbatim>\<open>'O'\<close>)\<close>
  "spawnPiece now pos enemyID wasOnPlatform headChar piece g =
     (case piece of (c, px, py) \<Rightarrow>
      (let r = rnd g;
           isRed = r 0 < 0.2;
           fallsThrough = r 1 < 0.3;
           isHead = (c = headChar)
       in case rollDraws isHead (dropRnd 2 r) of ((isRolling, rollDistance, rollSpeed), r2) \<Rightarrow>
          (case launchDraws r2 of ((velX, velY, angularVel), r3) \<Rightarrow>
           (let particle =
                  \<lparr>D_Pos = \<lparr>X = X pos + real_of_int px, Y = Y pos + real_of_int py\<rparr>,
                   D_Vel = \<lparr>X = velX, Y = velY\<rparr>,
                   D_Char = c,
                   D_OnGround = False,
                   D_Bounces = 0,
                   D_GroundTime = 0,
                   D_Active = True,
                   D_EnemyID = enemyID,
                   D_IsRed = isRed,
                   D_AngularVel = angularVel,
                   D_Angle = 0,
                   D_FallsThrough = fallsThrough,
                   D_IsHead = isHead,
                   D_IsRolling = isRolling,
                   D_RollDistance = rollDistance,
                   D_RollSpeed = rollSpeed,
                   D_BouncedFromPlatform = False,
                   D_WasOnPlatform = wasOnPlatform,
                   D_HasSplattedFromPlatform = False,
                   D_LastBloodEmit = now,
                   D_HasHitGround = False\<rparr>;
                g1 = g\<lparr>deathParticles := deathParticles g @ [particle], rnd := r3\<rparr>;
                initialSpeed = sqrt (velX * velX + velY * velY);
                intensity = min (initialSpeed / 80) 1
            in emitBloodFromParticle particle intensity True g1))))"

definition playerPieces :: "int \<Rightarrow> (char \<times> int \<times> int) list" where
  "playerPieces facing =
     (if facing = 1
      then [(CHR ''~'', 0, 0), (CHR ''0'', 1, 0), (CHR ''('', 0, 1), (CHR ''|'', 1, 1),
            (CHR 0x5C, 2, 1), (CHR ''/'', 0, 2), (CHR '')'', 2, 2)]
      else [(CHR ''0'', 1, 0), (CHR ''~'', 2, 0), (CHR ''/'', 0, 1), (CHR ''|'', 1, 1),
            (CHR '')'', 2, 1), (CHR ''('', 0, 2), (CHR 0x5C, 2, 2)])"

definition enemyPieces :: "int \<Rightarrow> (char \<times> int \<times> int) list" where
  "enemyPieces facing =
     (if facing = 1
      then [(CHR ''O'', 1, 0), (CHR ''('', 0, 1), (CHR ''|'', 1, 1),
            (CHR 0x5C, 2, 1), (CHR ''/'', 0, 2), (CHR '')'', 2, 2)]
      else [(CHR ''O'', 1, 0), (CHR ''/'', 0, 1), (CHR ''|'', 1, 1),
            (CHR '')'', 2, 1), (CHR ''('', 0, 2), (CHR 0x5C, 2, 2)])"

definition createPlayerDeathParticles :: "int \<Rightarrow> Game \<Rightarrow> Game" where
  "createPlayerDeathParticles now g =
     fold (spawnPiece now (P_Pos (player g)) 0 False (CHR ''0''))
          (playerPieces (P_Facing (player g))) g"

definition enemyOnPlatform :: "Enemy \<Rightarrow> Game \<Rightarrow> bool" where
  \<comment> \<open>\<^verbatim>\<open>wasOnPlatform\<close>: the enemy's feet are within 2 pixels of some platform's top\<close>
  "enemyOnPlatform e g =
     (\<exists>pl \<in> set (platforms g).
        X (E_Pos e) < Pl_X pl + Pl_Width pl \<and>
        X (E_Pos e) + real_of_int (E_Width e) > Pl_X pl \<and>
        \<bar>Y (E_Pos e) + real_of_int (E_Height e) - Pl_Y pl\<bar> < 2)"

definition createDeathParticlesAt :: "int \<Rightarrow> Vec2 \<Rightarrow> int \<Rightarrow> int \<Rightarrow> bool \<Rightarrow> Game \<Rightarrow> Game" where
  "createDeathParticlesAt now pos facing enemyID wasOnPlatform g =
     fold (spawnPiece now pos enemyID wasOnPlatform (CHR ''O'')) (enemyPieces facing) g"

definition createDecap :: "int \<Rightarrow> Enemy \<Rightarrow> Game \<Rightarrow> Game" where
  "createDecap now e g =
     (let enemyID = nextEnemyID g;
          wasOnPlatform = enemyOnPlatform e g;
          r = rnd g;
          rollDistance = 20 + r 0 * 30;
          rollSpeed = (let s = 40 + r 1 * 20 in if r 2 < 0.5 then - s else s);
          angle = r 3 * 2 * 3.14159;
          speed = 20 + r 4 * 30;
          velX = cos angle * speed;
          velY = - 15 - r 5 * 25 + sin angle * speed * 0.5;
          angularVel = (r 6 - 0.5) * 360;
          head = \<lparr>D_Pos = \<lparr>X = X (E_Pos e) + 1, Y = Y (E_Pos e) + 0\<rparr>,
                  D_Vel = \<lparr>X = velX, Y = velY\<rparr>,
                  D_Char = CHR ''O'',
                  D_OnGround = False,
                  D_Bounces = 0,
                  D_GroundTime = 0,
                  D_Active = True,
                  D_EnemyID = enemyID,
                  D_IsRed = True,
                  D_AngularVel = angularVel,
                  D_Angle = 0,
                  D_FallsThrough = False,
                  D_IsHead = True,
                  D_IsRolling = True,
                  D_RollDistance = rollDistance,
                  D_RollSpeed = rollSpeed,
                  D_BouncedFromPlatform = False,
                  D_WasOnPlatform = False,
                  D_HasSplattedFromPlatform = False,
                  D_LastBloodEmit = now,
                  D_HasHitGround = False\<rparr>;
          g1 = g\<lparr>nextEnemyID := wrap64 (enemyID + 1),
                 deathParticles := deathParticles g @ [head],
                 rnd := dropRnd 7 r\<rparr>;
          initialSpeed = sqrt (velX * velX + velY * velY);
          intensity = min (initialSpeed / 80) 1;
          g2 = emitBloodFromParticle head intensity True g1;
          r' = rnd g2;
          duration = 2 * Second + Intn 2000 (r' 0) * Millisecond;
          moveDir = (if r' 1 < 0.5 then - 1 else 1);
          corp = \<lparr>C_Pos = \<lparr>X = X (E_Pos e), Y = Y (E_Pos e)\<rparr>,
                  C_Vel = E_Vel e,
                  C_Facing = E_Facing e,
                  C_OnGround = False,
                  C_Active = True,
                  C_EnemyID = enemyID,
                  C_EndTime = now + duration,
                  C_MoveDir = moveDir,
                  C_LastDirChange = now,
                  C_DirDuration = (200 + Intn 600 (r' 2)) * Millisecond,
                  C_LastBloodEmit = now,
                  C_WasOnPlatform = wasOnPlatform\<rparr>
      in g2\<lparr>corpses := corpses g2 @ [corp], rnd := dropRnd 3 r'\<rparr>)"

definition createDeathParticles :: "int \<Rightarrow> Enemy \<Rightarrow> Game \<Rightarrow> Game" where
  "createDeathParticles now e g =
     (let g0 = g\<lparr>rnd := dropRnd 1 (rnd g)\<rparr>
      in if rnd g 0 < 0.1 then createDecap now e g0
         else (let enemyID = nextEnemyID g0;
                   g1 = g0\<lparr>nextEnemyID := wrap64 (enemyID + 1)\<rparr>;
                   wasOnPlatform = enemyOnPlatform e g1
               in fold (spawnPiece now (E_Pos e) enemyID wasOnPlatform (CHR ''O''))
                       (enemyPieces (E_Facing e)) g1))"

section \<open>Mobile corpses\<close>

definition zeroParticle :: DeathParticle where
  \<comment> \<open>the zero value of the struct, for the temporary particle a corpse emits from\<close>
  "zeroParticle =
     \<lparr>D_Pos = \<lparr>X = 0, Y = 0\<rparr>, D_Vel = \<lparr>X = 0, Y = 0\<rparr>, D_Char = CHR 0x00,
      D_OnGround = False, D_Bounces = 0, D_GroundTime = 0, D_Active = False, D_EnemyID = 0,
      D_IsRed = False, D_AngularVel = 0, D_Angle = 0, D_FallsThrough = False,
      D_IsHead = False, D_IsRolling = False, D_RollDistance = 0, D_RollSpeed = 0,
      D_BouncedFromPlatform = False, D_WasOnPlatform = False,
      D_HasSplattedFromPlatform = False, D_LastBloodEmit = 0, D_HasHitGround = False\<rparr>"

definition corpseTouches :: "Corpse \<Rightarrow> Platform \<Rightarrow> bool" where
  "corpseTouches c pl =
     (let particleBottomY = Y (C_Pos c) + real_of_int EnemyHeight
      in X (C_Pos c) < Pl_X pl + Pl_Width pl \<and>
         X (C_Pos c) + real_of_int EnemyWidth > Pl_X pl \<and>
         particleBottomY \<ge> Pl_Y pl \<and>
         particleBottomY \<le> Pl_Y pl + Pl_Height pl + 1)"

definition corpseCollide :: "Game \<Rightarrow> Corpse \<Rightarrow> Corpse" where
  \<comment> \<open>platform collisions (first touching platform wins), then the ground\<close>
  "corpseCollide g c =
     (let groundY = real_of_int (groundY g - EnemyHeight)
      in case find (corpseTouches c) (platforms g) of
           Some pl \<Rightarrow>
             (if Y (C_Vel c) > 0 \<and> Y (C_Pos c) < Pl_Y pl
              then c\<lparr>C_Pos := (C_Pos c)\<lparr>Y := Pl_Y pl - real_of_int EnemyHeight\<rparr>,
                     C_Vel := (C_Vel c)\<lparr>Y := 0\<rparr>,
                     C_OnGround := True,
                     C_WasOnPlatform := True\<rparr>
              else c)
         | None \<Rightarrow>
             (if Y (C_Pos c) \<ge> groundY
              then c\<lparr>C_Pos := (C_Pos c)\<lparr>Y := groundY\<rparr>,
                     C_Vel := (if Y (C_Vel c) > 0 then (C_Vel c)\<lparr>Y := 0\<rparr> else C_Vel c),
                     C_OnGround := True\<rparr>
              else c\<lparr>C_OnGround := False\<rparr>))"

definition corpseBounds :: "Game \<Rightarrow> Corpse \<Rightarrow> Corpse" where
  "corpseBounds g c =
     (let c1 = (if X (C_Pos c) < 0 then c\<lparr>C_Pos := (C_Pos c)\<lparr>X := 0\<rparr>, C_MoveDir := 1\<rparr> else c)
      in if X (C_Pos c1) > real_of_int (width g - EnemyWidth)
         then c1\<lparr>C_Pos := (C_Pos c1)\<lparr>X := real_of_int (width g - EnemyWidth)\<rparr>, C_MoveDir := - 1\<rparr>
         else c1)"

definition corpseMove :: "int \<Rightarrow> real \<Rightarrow> Corpse \<Rightarrow> Game \<Rightarrow> Corpse \<times> Game" where
  \<comment> \<open>direction change, horizontal move, gravity, collisions, screen bounds\<close>
  "corpseMove now dt c g =
     (let r = rnd g;
          (c1, g1) =
            (if now - C_LastDirChange c \<ge> C_DirDuration c
             then (c\<lparr>C_LastDirChange := now,
                      C_DirDuration := (200 + Intn 600 (r 0)) * Millisecond,
                      C_MoveDir := (if r 1 < 0.5 then - C_MoveDir c else C_MoveDir c)\<rparr>,
                   g\<lparr>rnd := dropRnd 2 r\<rparr>)
             else (c, g));
          speed = 25;
          gravity = 300;
          c2 = c1\<lparr>C_Pos := (C_Pos c1)\<lparr>X := X (C_Pos c1) + real_of_int (C_MoveDir c1) * speed * dt\<rparr>\<rparr>;
          c3 = c2\<lparr>C_Vel := (C_Vel c2)\<lparr>Y := Y (C_Vel c2) + gravity * dt\<rparr>\<rparr>;
          c4 = c3\<lparr>C_Pos := (C_Pos c3)\<lparr>Y := Y (C_Pos c3) + Y (C_Vel c3) * dt\<rparr>\<rparr>
      in (corpseBounds g1 (corpseCollide g1 c4), g1))"

definition corpseBleed :: "int \<Rightarrow> Corpse \<Rightarrow> Game \<Rightarrow> Corpse \<times> Game" where
  \<comment> \<open>every 80 ms the corpse emits a continuous spray from a temporary particle\<close>
  "corpseBleed now c g =
     (if now - C_LastBloodEmit c \<ge> 80 * Millisecond
      then (let speed = 25;
                tmp = zeroParticle
                        \<lparr>D_Pos := \<lparr>X = X (C_Pos c) + 1, Y = Y (C_Pos c) + 1\<rparr>,
                         D_Vel := \<lparr>X = real_of_int (C_MoveDir c) * speed, Y = - 10 - rnd g 0 * 20\<rparr>,
                         D_EnemyID := C_EnemyID c\<rparr>;
                intensity = min ((\<bar>real_of_int (C_MoveDir c)\<bar> * speed / 80) * 1.4 + 0.15) 1
            in (c\<lparr>C_LastBloodEmit := now\<rparr>,
                emitBloodFromParticle tmp intensity False (g\<lparr>rnd := dropRnd 1 (rnd g)\<rparr>)))
      else (c, g))"

definition corpseExpire :: "int \<Rightarrow> Corpse \<Rightarrow> Game \<Rightarrow> Corpse \<times> Game" where
  \<comment> \<open>past its end time the corpse breaks apart into regular fragments and is deactivated\<close>
  "corpseExpire now c g =
     (if now > C_EndTime c
      then (c\<lparr>C_Active := False\<rparr>,
            createDeathParticlesAt now (C_Pos c) (C_Facing c) (C_EnemyID c) (C_WasOnPlatform c) g)
      else (c, g))"

definition corpseStep :: "int \<Rightarrow> real \<Rightarrow> Corpse \<Rightarrow> Game \<Rightarrow> Corpse \<times> Game" where
  \<comment> \<open>the body of the loop of \<^verbatim>\<open>updateCorpses\<close>; an inactive corpse is skipped\<close>
  "corpseStep now dt c g =
     (if \<not> C_Active c then (c, g)
      else (case corpseMove now dt c g of (c1, g1) \<Rightarrow>
            (case corpseBleed now c1 g1 of (c2, g2) \<Rightarrow> corpseExpire now c2 g2)))"

definition updateCorpses :: "int \<Rightarrow> real \<Rightarrow> Game \<Rightarrow> Game" where
  "updateCorpses now dt g =
     (if corpses g = [] then g
      else (case forEach (corpseStep now dt) (corpses g) g of
              (cs, g1) \<Rightarrow> g1\<lparr>corpses := cs\<rparr>))"

section \<open>Fragment physics\<close>

definition rollingNow :: "DeathParticle \<Rightarrow> bool" where
  \<comment> \<open>the recurring test \<^verbatim>\<open>p.IsHead && p.IsRolling && p.RollDistance > 0\<close>\<close>
  "rollingNow p = (D_IsHead p \<and> D_IsRolling p \<and> D_RollDistance p > 0)"

definition impactEmit :: "DeathParticle \<Rightarrow> Game \<Rightarrow> Game" where
  \<comment> \<open>the recurring impact burst, its intensity scaled by the vertical speed\<close>
  "impactEmit p g =
     (let impactSpeed = \<bar>Y (D_Vel p)\<bar>;
          intensity = min (impactSpeed / 60) 1
      in emitBloodFromParticle p intensity True g)"

definition airEmit :: "int \<Rightarrow> DeathParticle \<Rightarrow> Game \<Rightarrow> DeathParticle \<times> Game" where
  \<comment> \<open>trailing blood from a piece in the air\<close>
  "airEmit now p g =
     (let vx = X (D_Vel p);
          vy = Y (D_Vel p);
          isInAir = (\<not> D_OnGround p \<and> (\<bar>vx\<bar> > 0.1 \<or> \<bar>vy\<bar> > 0.1))
      in if isInAir
         then (let speed = sqrt (vx * vx + vy * vy);
                   emitInterval0 = 150 * Millisecond - goInt (speed * 0.8) * Millisecond;
                   emitInterval = (if emitInterval0 < 30 * Millisecond then 30 * Millisecond
                                   else emitInterval0)
               in if now - D_LastBloodEmit p \<ge> emitInterval
                  then (p\<lparr>D_LastBloodEmit := now\<rparr>,
                        emitBloodFromParticle p (min (speed / 100) 0.7) False g)
                  else (p, g))
         else (p, g))"

definition gravityMove :: "real \<Rightarrow> DeathParticle \<Rightarrow> DeathParticle" where
  \<comment> \<open>gravity unless settled with no vertical velocity, then the position update\<close>
  "gravityMove dt p =
     (let gravity = 300;
          p1 = (if \<not> (D_OnGround p \<and> Y (D_Vel p) = 0)
                then p\<lparr>D_Vel := (D_Vel p)\<lparr>Y := Y (D_Vel p) + gravity * dt\<rparr>\<rparr>
                else p)
      in p1\<lparr>D_Pos := \<lparr>X = X (D_Pos p1) + X (D_Vel p1) * dt,
                       Y = Y (D_Pos p1) + Y (D_Vel p1) * dt\<rparr>\<rparr>)"

definition isOnPlatform :: "DeathParticle \<Rightarrow> Platform \<Rightarrow> bool" where
  "isOnPlatform p pl =
     (let particleBottomY = Y (D_Pos p) + 1
      in X (D_Pos p) < Pl_X pl + Pl_Width pl \<and>
         X (D_Pos p) + 1 > Pl_X pl \<and>
         particleBottomY \<ge> Pl_Y pl \<and>
         particleBottomY \<le> Pl_Y pl + Pl_Height pl + 1)"

definition platformLand :: "int \<Rightarrow> Platform \<Rightarrow> DeathParticle \<Rightarrow> Game \<Rightarrow> DeathParticle \<times> Game" where
  \<comment> \<open>the piece touches platform \<open>pl\<close>: bounce, settle, or stay settled\<close>
  "platformLand now pl p g =
     (let bounceDamping = 0.4
      in if Y (D_Vel p) > 0 \<and> Y (D_Pos p) < Pl_Y pl
         then (let p1 = p\<lparr>D_Pos := (D_Pos p)\<lparr>Y := Pl_Y pl - 1\<rparr>\<rparr>
               in if D_Bounces p1 < 2 \<and> Y (D_Vel p1) > 20
                  then (let p2 = p1\<lparr>D_Bounces := wrap64 (D_Bounces p1 + 1),
                                     D_Vel := \<lparr>X = X (D_Vel p1) * 0.8,
                                               Y = - Y (D_Vel p1) * bounceDamping\<rparr>,
                                     D_OnGround := False,
                                     D_BouncedFromPlatform := True\<rparr>
                        in (p2, impactEmit p2 g))
                  else (let p2 = p1\<lparr>D_Vel := (D_Vel p1)\<lparr>Y := 0\<rparr>\<rparr>
                        in if \<not> D_OnGround p2
                           then (p2\<lparr>D_OnGround := True,
                                    D_GroundTime := now,
                                    D_Vel := (D_Vel p2)\<lparr>X := 0\<rparr>,
                                    D_WasOnPlatform := True\<rparr>, g)
                           else (p2, g)))
         else if Y (D_Vel p) = 0 \<and> Y (D_Pos p) \<le> Pl_Y pl
         then (let p1 = p\<lparr>D_Pos := (D_Pos p)\<lparr>Y := Pl_Y pl - 1\<rparr>\<rparr>
               in if \<not> D_OnGround p1
                  then (p1\<lparr>D_OnGround := True,
                           D_GroundTime := (if D_GroundTime p1 = 0 then now else D_GroundTime p1),
                           D_WasOnPlatform := True\<rparr>, g)
                  else (p1, g))
         else (p, g))"

definition settledExpire :: "int \<Rightarrow> DeathParticle \<Rightarrow> DeathParticle" where
  \<comment> \<open>a settled piece stops unless it rolls; an opponent's piece disappears after 3 s\<close>
  "settledExpire now p =
     (let p1 = (if \<not> rollingNow p then p\<lparr>D_Vel := (D_Vel p)\<lparr>X := 0\<rparr>\<rparr> else p)
      in if D_EnemyID p1 \<noteq> 0 \<and> \<not> rollingNow p1 \<and> now - D_GroundTime p1 \<ge> 3 * Second
         then p1\<lparr>D_Active := False\<rparr>
         else p1)"

definition platformCollide ::
  "int \<Rightarrow> DeathParticle \<Rightarrow> Game \<Rightarrow> (DeathParticle \<times> bool) \<times> Game" where
  \<comment> \<open>platform collisions come first; the flag is \<^verbatim>\<open>onPlatform\<close>\<close>
  "platformCollide now p g =
     (case find (isOnPlatform p) (platforms g) of
        None \<Rightarrow> ((p, False), g)
      | Some pl \<Rightarrow>
          (case platformLand now pl p g of (p1, g1) \<Rightarrow>
             ((if D_OnGround p1 \<and> Y (D_Vel p1) = 0 then settledExpire now p1 else p1, True), g1)))"

definition groundBounce :: "DeathParticle \<Rightarrow> Game \<Rightarrow> DeathParticle \<times> Game" where
  \<comment> \<open>moving down fast enough with bounces left: reverse and dampen\<close>
  "groundBounce p g =
     (let bounceDamping = 0.4;
          wasBouncing = D_Bounces p > 0;
          p1 = p\<lparr>D_Bounces := wrap64 (D_Bounces p + 1),
                 D_Vel := \<lparr>X = X (D_Vel p) * 0.8, Y = - Y (D_Vel p) * bounceDamping\<rparr>,
                 D_OnGround := False\<rparr>
      in if D_BouncedFromPlatform p1
         then (p1\<lparr>D_BouncedFromPlatform := False\<rparr>, impactEmit p1 g)
         else if wasBouncing \<or> D_Bounces p1 = 1 then (p1, impactEmit p1 g)
         else (p1, g))"

definition groundSettle :: "int \<Rightarrow> DeathParticle \<Rightarrow> Game \<Rightarrow> DeathParticle \<times> Game" where
  \<comment> \<open>too slow or too many bounces: settle and stop\<close>
  "groundSettle now p g =
     (let p1 = p\<lparr>D_Vel := (D_Vel p)\<lparr>Y := 0\<rparr>\<rparr>
      in if \<not> D_OnGround p1
         then (let (p2, g2) = (if D_BouncedFromPlatform p1
                               then (p1\<lparr>D_BouncedFromPlatform := False\<rparr>, impactEmit p1 g)
                               else (p1, g));
                   p3 = p2\<lparr>D_OnGround := True, D_GroundTime := now\<rparr>
               in (p3\<lparr>D_Vel := (D_Vel p3)\<lparr>X := (if rollingNow p3 then D_RollSpeed p3 else 0)\<rparr>\<rparr>, g2))
         else ((if \<not> rollingNow p1 then p1\<lparr>D_Vel := (D_Vel p1)\<lparr>X := 0\<rparr>\<rparr> else p1), g))"

definition groundRest :: "int \<Rightarrow> DeathParticle \<Rightarrow> DeathParticle" where
  \<comment> \<open>no vertical velocity at the ground: already settled\<close>
  "groundRest now p =
     (let p1 = (if \<not> D_OnGround p
                then (let q = p\<lparr>D_OnGround := True, D_GroundTime := now\<rparr>
                      in if rollingNow q then q\<lparr>D_Vel := (D_Vel q)\<lparr>X := D_RollSpeed q\<rparr>\<rparr> else q)
                else p)
      in settledExpire now p1)"

definition groundNormal :: "int \<Rightarrow> real \<Rightarrow> DeathParticle \<Rightarrow> Game \<Rightarrow> DeathParticle \<times> Game" where
  \<comment> \<open>the normal behaviour at the ground: clamp, first-impact burst, bounce or settle\<close>
  "groundNormal now gY p g =
     (let p1 = p\<lparr>D_Pos := (D_Pos p)\<lparr>Y := gY\<rparr>\<rparr>;
          (p2, g2) = (if \<not> D_HasHitGround p1 \<and> Y (D_Vel p1) > 0
                      then (p1\<lparr>D_HasHitGround := True, D_LastBloodEmit := now\<rparr>, impactEmit p1 g)
                      else (p1, g))
      in if Y (D_Vel p2) > 0
         then (if D_Bounces p2 < 2 \<and> Y (D_Vel p2) > 20 then groundBounce p2 g2
               else groundSettle now p2 g2)
         else if Y (D_Vel p2) = 0 then (groundRest now p2, g2)
         else (p2, g2))"

definition groundCollide ::
  "int \<Rightarrow> bool \<Rightarrow> DeathParticle \<Rightarrow> Game \<Rightarrow> DeathParticle \<times> Game" where
  \<comment> \<open>the ground is checked only when no platform was touched\<close>
  "groundCollide now onPlatform p g =
     (let gY = real_of_int (groundY g - 1)
      in if \<not> onPlatform \<and> Y (D_Pos p) \<ge> gY
         then (if D_FallsThrough p \<and> Y (D_Vel p) > 0 \<and> D_Bounces p = 0
               then (p\<lparr>D_Bounces := 999\<rparr>, impactEmit p g)
               else if \<not> D_FallsThrough p \<or> D_Bounces p < 999 then groundNormal now gY p g
               else (p, g))
         else (p, g))"

definition offBottom :: "Game \<Rightarrow> DeathParticle \<Rightarrow> DeathParticle" where
  "offBottom g p = (if Y (D_Pos p) > real_of_int (height g) then p\<lparr>D_Active := False\<rparr> else p)"

definition rollHead :: "int \<Rightarrow> real \<Rightarrow> DeathParticle \<Rightarrow> Game \<Rightarrow> DeathParticle \<times> Game" where
  \<comment> \<open>a rolling head on the ground uses up its roll distance under friction\<close>
  "rollHead now dt p g =
     (if D_OnGround p \<and> Y (D_Vel p) = 0 \<and> rollingNow p
      then (let rollDelta = \<bar>X (D_Vel p)\<bar> * dt;
                p1 = p\<lparr>D_RollDistance := D_RollDistance p - rollDelta\<rparr>;
                currentSpeed = \<bar>X (D_Vel p1)\<bar>;
                (p2, g2) =
                  (if currentSpeed > 0.1
                   then (let emitInterval0 = 200 * Millisecond - goInt (currentSpeed * 1.5) * Millisecond;
                             emitInterval = (if emitInterval0 < 50 * Millisecond then 50 * Millisecond
                                             else emitInterval0)
                         in if now - D_LastBloodEmit p1 \<ge> emitInterval
                            then (p1\<lparr>D_LastBloodEmit := now\<rparr>,
                                  emitBloodFromParticle p1 (min (currentSpeed / 60) 0.6) False g)
                            else (p1, g))
                   else (p1, g));
                p3 = p2\<lparr>D_Vel := (D_Vel p2)\<lparr>X := X (D_Vel p2) * 0.95\<rparr>\<rparr>
            in if D_RollDistance p3 \<le> 0 \<or> \<bar>X (D_Vel p3)\<bar> < 0.5
               then (p3\<lparr>D_Vel := (D_Vel p3)\<lparr>X := 0\<rparr>,
                        D_IsRolling := False,
                        D_RollDistance := 0,
                        D_GroundTime := (if D_EnemyID p3 \<noteq> 0 then now else D_GroundTime p3)\<rparr>, g2)
               else (p3, g2))
      else if D_OnGround p \<and> Y (D_Vel p) = 0 \<and> \<not> rollingNow p
      then (p\<lparr>D_Vel := \<lparr>X = 0, Y = 0\<rparr>\<rparr>, g)
      else (p, g))"

definition offSides :: "Game \<Rightarrow> DeathParticle \<Rightarrow> DeathParticle" where
  "offSides g p =
     (if X (D_Pos p) < - 10 \<or> X (D_Pos p) > real_of_int (width g) + 10
      then p\<lparr>D_Active := False\<rparr> else p)"

definition particleStep :: "int \<Rightarrow> real \<Rightarrow> DeathParticle \<Rightarrow> Game \<Rightarrow> DeathParticle \<times> Game" where
  \<comment> \<open>the body of the main loop of \<^verbatim>\<open>updateDeathParticles\<close>; an inactive piece is skipped\<close>
  "particleStep now dt p g =
     (if \<not> D_Active p then (p, g)
      else (case airEmit now p g of (p1, g1) \<Rightarrow>
            (case platformCollide now (gravityMove dt p1) g1 of ((p2, onPlatform), g2) \<Rightarrow>
             (case groundCollide now onPlatform p2 g2 of (p3, g3) \<Rightarrow>
              (case rollHead now dt (offBottom g3 p3) g3 of (p4, g4) \<Rightarrow>
                 (offSides g4 p4, g4))))))"

definition updateDeathParticles :: "int \<Rightarrow> real \<Rightarrow> Game \<Rightarrow> Game" where
  "updateDeathParticles now dt g =
     (let g1 = updateCorpses now dt g;
          g2 = (if gameOver g1
                then g1\<lparr>deathParticles := filter (\<lambda>p. D_EnemyID p = 0) (deathParticles g1)\<rparr>
                else g1)
      in case forEach (particleStep now dt) (deathParticles g2) g2 of
           (ps, g3) \<Rightarrow> g3\<lparr>deathParticles := filter D_Active ps\<rparr>)"

section \<open>Blood particles\<close>

definition bloodTouches :: "BloodParticle \<Rightarrow> Platform \<Rightarrow> bool" where
  "bloodTouches b pl =
     (X (B_Pos b) < Pl_X pl + Pl_Width pl \<and>
      X (B_Pos b) + 1 > Pl_X pl \<and>
      Y (B_Pos b) < Pl_Y pl + Pl_Height pl \<and>
      Y (B_Pos b) + 1 > Pl_Y pl)"

definition bloodMove :: "real \<Rightarrow> BloodParticle \<Rightarrow> BloodParticle" where
  "bloodMove dt b =
     (let gravity = 300;
          b1 = b\<lparr>B_Vel := (B_Vel b)\<lparr>Y := Y (B_Vel b) + gravity * dt\<rparr>\<rparr>
      in b1\<lparr>B_Pos := \<lparr>X = X (B_Pos b1) + X (B_Vel b1) * dt,
                       Y = Y (B_Pos b1) + Y (B_Vel b1) * dt\<rparr>\<rparr>)"

definition bloodHit :: "BloodParticle \<Rightarrow> Game \<Rightarrow> BloodParticle \<times> Game" where
  \<comment> \<open>a platform blocks the particle (stain, removal); else the ground line takes a stain\<close>
  "bloodHit b g =
     (let tileX = goInt (X (B_Pos b))
      in case find (\<lambda>(i, pl). bloodTouches b pl) (enumerate 0 (platforms g)) of
           Some (platformIndex, pl) \<Rightarrow>
             (b\<lparr>B_Active := False\<rparr>,
              (if 0 \<le> tileX \<and> tileX < width g
               then markPlatformRed (int platformIndex) tileX (B_EnemyID b) g else g))
         | None \<Rightarrow>
             (b, (if Y (B_Pos b) \<ge> real_of_int (groundY g)
                  then (if 0 \<le> tileX \<and> tileX < width g
                        then markGroundRed tileX (B_EnemyID b) False g else g)
                  else g)))"

definition bloodExpire :: "real \<Rightarrow> Game \<Rightarrow> BloodParticle \<Rightarrow> BloodParticle" where
  \<comment> \<open>lifetime, then the viewport test\<close>
  "bloodExpire dt g b =
     (let b1 = b\<lparr>B_Lifetime := B_Lifetime b - dt\<rparr>;
          b2 = (if B_Lifetime b1 \<le> 0 then b1\<lparr>B_Active := False\<rparr> else b1)
      in if X (B_Pos b2) < - 10 \<or> X (B_Pos b2) > real_of_int (width g) + 10 \<or>
            Y (B_Pos b2) > real_of_int (height g)
         then b2\<lparr>B_Active := False\<rparr> else b2)"

definition bloodStep :: "real \<Rightarrow> BloodParticle \<Rightarrow> Game \<Rightarrow> BloodParticle \<times> Game" where
  \<comment> \<open>the body of the main loop of \<^verbatim>\<open>updateBloodParticles\<close>\<close>
  "bloodStep dt b g =
     (if \<not> B_Active b then (b, g)
      else (case bloodHit (bloodMove dt b) g of (b1, g1) \<Rightarrow> (bloodExpire dt g1 b1, g1)))"

definition updateBloodParticles :: "real \<Rightarrow> Game \<Rightarrow> Game" where
  "updateBloodParticles dt g =
     (let g1 = (if gameOver g
                then g\<lparr>bloodParticles := filter (\<lambda>b. B_EnemyID b = 0) (bloodParticles g)\<rparr>
                else g)
      in case forEach (bloodStep dt) (bloodParticles g1) g1 of
           (bs, g2) \<Rightarrow> g2\<lparr>bloodParticles := filter B_Active bs\<rparr>)"

section \<open>Projectiles\<close>

definition projectileStep :: "real \<Rightarrow> Game \<Rightarrow> Projectile \<Rightarrow> Projectile" where
  \<comment> \<open>record the previous position, advance, animate, deactivate off screen\<close>
  "projectileStep dt g pr =
     (if \<not> Pr_Active pr then pr
      else (let playerProjectileSpeed = 200;
                enemyProjectileSpeed = 80;
                speed = (if Pr_IsEnemy pr then enemyProjectileSpeed else playerProjectileSpeed);
                pr1 = pr\<lparr>Pr_PrevPos := Pr_Pos pr\<rparr>;
                pr2 = pr1\<lparr>Pr_Pos := (Pr_Pos pr1)\<lparr>X := X (Pr_Pos pr1) + real_of_int (Pr_Dir pr1) * speed * dt\<rparr>,
                          Pr_Frame := wrap64 (Pr_Frame pr1 + 1)\<rparr>
            in if X (Pr_Pos pr2) < 0 \<or> X (Pr_Pos pr2) > real_of_int (width g)
               then pr2\<lparr>Pr_Active := False\<rparr> else pr2))"

definition updateProjectiles :: "real \<Rightarrow> Game \<Rightarrow> Game" where
  "updateProjectiles dt g =
     (if gameOver g then g\<lparr>projectiles := []\<rparr>
      else g\<lparr>projectiles := filter Pr_Active (map (projectileStep dt g) (projectiles g))\<rparr>)"

section \<open>Player\<close>

definition keyHeld :: "int \<Rightarrow> Game \<Rightarrow> Key \<Rightarrow> bool" where
  \<comment> \<open>a key counts as pressed for 150 ms after its last event\<close>
  "keyHeld now g k =
     (let keyTimeout = 150 * Millisecond
      in case keys g k of None \<Rightarrow> False | Some lastPress \<Rightarrow> now - lastPress < keyTimeout)"

definition playerTouches :: "Player \<Rightarrow> Platform \<Rightarrow> bool" where
  \<comment> \<open>overlapping the platform while falling onto it from above\<close>
  "playerTouches p pl =
     (X (P_Pos p) < Pl_X pl + Pl_Width pl \<and>
      X (P_Pos p) + real_of_int (P_Width p) > Pl_X pl \<and>
      Y (P_Pos p) < Pl_Y pl + Pl_Height pl \<and>
      Y (P_Pos p) + real_of_int (P_Height p) > Pl_Y pl \<and>
      Y (P_Vel p) > 0 \<and> Y (P_Pos p) < Pl_Y pl)"

definition playerSteer :: "int \<Rightarrow> real \<Rightarrow> Game \<Rightarrow> Player \<Rightarrow> Player" where
  \<comment> \<open>facing and horizontal movement from the key states, then the jump\<close>
  "playerSteer now dt g p =
     (let groundSpeed = 50;
          airSpeed = 45;
          jumpSpeed = - 85;
          speed = (if \<not> P_OnGround p then airSpeed else groundSpeed);
          leftPressed = keyHeld now g KeyLeft;
          rightPressed = keyHeld now g KeyRight;
          p1 = (if leftPressed then p\<lparr>P_Facing := - 1\<rparr> else p);
          p2 = (if rightPressed then p1\<lparr>P_Facing := 1\<rparr> else p1);
          p3 = p2\<lparr>P_MoveDir := 0\<rparr>;
          p4 = (if leftPressed
                then p3\<lparr>P_MoveDir := - 1, P_Pos := (P_Pos p3)\<lparr>X := X (P_Pos p3) - speed * dt\<rparr>\<rparr>
                else p3);
          p5 = (if rightPressed
                then p4\<lparr>P_MoveDir := 1, P_Pos := (P_Pos p4)\<lparr>X := X (P_Pos p4) + speed * dt\<rparr>\<rparr>
                else p4);
          coyoteTime = 100 * Millisecond;
          canJump = (P_OnGround p5 \<or> P_OnPlatform p5 \<or>
                     (\<not> P_OnGround p5 \<and> \<not> P_OnPlatform p5 \<and>
                      now - P_LastOnGroundTime p5 < coyoteTime))
      in if keyHeld now g KeyUp \<and> canJump
         then p5\<lparr>P_Vel := (P_Vel p5)\<lparr>Y := jumpSpeed\<rparr>, P_OnGround := False, P_OnPlatform := False\<rparr>
         else p5)"

definition playerFall :: "int \<Rightarrow> real \<Rightarrow> Game \<Rightarrow> Player \<Rightarrow> Player" where
  \<comment> \<open>gravity, vertical move, platforms first, then the ground\<close>
  "playerFall now dt g p =
     (let gravity = 300;
          groundY = real_of_int (groundY g - PlayerHeight);
          p1 = (if \<not> P_OnGround p then p\<lparr>P_Vel := (P_Vel p)\<lparr>Y := Y (P_Vel p) + gravity * dt\<rparr>\<rparr> else p);
          p2 = p1\<lparr>P_Pos := (P_Pos p1)\<lparr>Y := Y (P_Pos p1) + Y (P_Vel p1) * dt\<rparr>\<rparr>
      in case find (playerTouches p2) (platforms g) of
           Some pl \<Rightarrow>
             p2\<lparr>P_Pos := (P_Pos p2)\<lparr>Y := Pl_Y pl - real_of_int (P_Height p2)\<rparr>,
                P_Vel := (P_Vel p2)\<lparr>Y := 0\<rparr>,
                P_OnGround := False,
                P_OnPlatform := True,
                P_LastOnGroundTime := now\<rparr>
         | None \<Rightarrow>
             (if Y (P_Pos p2) \<ge> groundY
              then (let p3 = p2\<lparr>P_Pos := (P_Pos p2)\<lparr>Y := groundY\<rparr>\<rparr>
                    in if Y (P_Vel p3) > 0
                       then p3\<lparr>P_Vel := (P_Vel p3)\<lparr>Y := 0\<rparr>,
                               P_OnGround := True,
                               P_OnPlatform := False,
                               P_LastOnGroundTime := now\<rparr>
                       else p3)
              else (let p3 = (if P_OnGround p2 \<or> P_OnPlatform p2
                              then p2\<lparr>P_LastOnGroundTime := now\<rparr> else p2)
                    in p3\<lparr>P_OnGround := False, P_OnPlatform := False\<rparr>)))"

definition playerBounds :: "Game \<Rightarrow> Player \<Rightarrow> Player" where
  "playerBounds g p =
     (let p1 = (if X (P_Pos p) < 0 then p\<lparr>P_Pos := (P_Pos p)\<lparr>X := 0\<rparr>\<rparr> else p)
      in if X (P_Pos p1) + real_of_int (P_Width p1) > real_of_int (width g)
         then p1\<lparr>P_Pos := (P_Pos p1)\<lparr>X := real_of_int (width g - P_Width p1)\<rparr>\<rparr>
         else p1)"

definition updatePlayer :: "int \<Rightarrow> real \<Rightarrow> Game \<Rightarrow> Game" where
  "updatePlayer now dt g =
     g\<lparr>player := playerBounds g (playerFall now dt g (playerSteer now dt g (player g)))\<rparr>"

section \<open>Opponents\<close>

definition enemyWalk :: "real \<Rightarrow> real \<Rightarrow> bool \<Rightarrow> Enemy \<Rightarrow> Enemy" where
  \<comment> \<open>face right and step right, or face left and step left\<close>
  "enemyWalk speed dt right e =
     (if right
      then e\<lparr>E_Facing := 1, E_Pos := (E_Pos e)\<lparr>X := X (E_Pos e) + speed * dt\<rparr>\<rparr>
      else e\<lparr>E_Facing := - 1, E_Pos := (E_Pos e)\<lparr>X := X (E_Pos e) - speed * dt\<rparr>\<rparr>)"

definition enemyLeave :: "real \<Rightarrow> Game \<Rightarrow> Enemy \<Rightarrow> Enemy" where
  \<comment> \<open>when the game is over an enemy walks off screen, toward the nearest edge\<close>
  "enemyLeave dt g e =
     (let speed = 20;
          screenCenter = real_of_int (width g) / 2;
          dx = X (E_Pos e) - screenCenter
      in enemyWalk speed dt (dx > 0) e)"

definition enemyApproach :: "real \<Rightarrow> Game \<Rightarrow> Enemy \<Rightarrow> Enemy" where
  \<comment> \<open>a shooting enemy keeps its distance band, any other walks toward the player\<close>
  "enemyApproach dt g e =
     (let speed = 20;
          minDistance = 30;
          dx = X (P_Pos (player g)) - X (E_Pos e);
          distance = \<bar>dx\<bar>
      in if E_CanShoot e
         then (if distance < minDistance then enemyWalk speed dt (\<not> dx > 0) e
               else if distance > minDistance + 10 then enemyWalk speed dt (dx > 0) e
               else e)
         else enemyWalk speed dt (dx > 0) e)"

definition enemyShoot :: "int \<Rightarrow> Enemy \<Rightarrow> Game \<Rightarrow> Enemy \<times> Game" where
  "enemyShoot now e g =
     (if E_CanShoot e \<and> \<not> gameOver g
      then (if E_LastShot e = 0
            then (e\<lparr>E_NextShotDelay := goInt (1 + rnd g 0 * 2) * Second, E_LastShot := now\<rparr>,
                  g\<lparr>rnd := dropRnd 1 (rnd g)\<rparr>)
            else if now - E_LastShot e \<ge> E_NextShotDelay e
            then (let c = \<lparr>X = X (E_Pos e) + real_of_int (goQuot (E_Width e) 2),
                           Y = Y (E_Pos e) + real_of_int (goQuot (E_Height e) 2)\<rparr>;
                      pr = \<lparr>Pr_Pos = c, Pr_PrevPos = c, Pr_Dir = E_Facing e, Pr_Active = True,
                            Pr_Frame = 0, Pr_IsEnemy = True\<rparr>
                  in (e\<lparr>E_LastShot := now, E_NextShotDelay := goInt (1 + rnd g 0 * 2) * Second\<rparr>,
                      g\<lparr>projectiles := projectiles g @ [pr], rnd := dropRnd 1 (rnd g)\<rparr>))
            else (e, g))
      else (e, g))"

definition enemyJump :: "int \<Rightarrow> Game \<Rightarrow> Enemy \<Rightarrow> Enemy" where
  \<comment> \<open>one hop toward a higher player, or toward a nearby platform above; 1 s cooldown\<close>
  "enemyJump now g e =
     (let jumpSpeed = - 85;
          dy = Y (P_Pos (player g)) - Y (E_Pos e);
          hop = e\<lparr>E_Vel := (E_Vel e)\<lparr>Y := jumpSpeed\<rparr>, E_OnGround := False, E_JumpCooldown := now\<rparr>
      in if E_OnGround e \<and> dy < - 10 \<and> now - E_JumpCooldown e > 1 * Second then hop
         else if (\<exists>pl \<in> set (platforms g).
                    Pl_Y pl - real_of_int EnemyHeight < Y (E_Pos e) - 5 \<and>
                    \<bar>X (E_Pos e) - (Pl_X pl + Pl_Width pl / 2)\<bar> < 30 \<and>
                    E_OnGround e \<and>
                    now - E_JumpCooldown e > 1 * Second) then hop
         else e)"

definition enemyTouches :: "Enemy \<Rightarrow> Platform \<Rightarrow> bool" where
  \<comment> \<open>overlapping the platform while falling onto it from above\<close>
  "enemyTouches e pl =
     (X (E_Pos e) < Pl_X pl + Pl_Width pl \<and>
      X (E_Pos e) + real_of_int (E_Width e) > Pl_X pl \<and>
      Y (E_Pos e) < Pl_Y pl + Pl_Height pl \<and>
      Y (E_Pos e) + real_of_int (E_Height e) > Pl_Y pl \<and>
      Y (E_Vel e) > 0 \<and> Y (E_Pos e) < Pl_Y pl)"

definition enemyFall :: "real \<Rightarrow> Game \<Rightarrow> Enemy \<Rightarrow> Enemy" where
  \<comment> \<open>gravity, vertical move, platforms, ground, and leaving the screen\<close>
  "enemyFall dt g e =
     (let gravity = 300;
          groundY = real_of_int (groundY g - EnemyHeight);
          e1 = (if \<not> E_OnGround e then e\<lparr>E_Vel := (E_Vel e)\<lparr>Y := Y (E_Vel e) + gravity * dt\<rparr>\<rparr> else e);
          e2 = e1\<lparr>E_Pos := (E_Pos e1)\<lparr>Y := Y (E_Pos e1) + Y (E_Vel e1) * dt\<rparr>\<rparr>;
          e3 = (case find (enemyTouches e2) (platforms g) of
                  Some pl \<Rightarrow>
                    e2\<lparr>E_Pos := (E_Pos e2)\<lparr>Y := Pl_Y pl - real_of_int (E_Height e2)\<rparr>,
                       E_Vel := (E_Vel e2)\<lparr>Y := 0\<rparr>,
                       E_OnGround := True\<rparr>
                | None \<Rightarrow>
                    (if Y (E_Pos e2) \<ge> groundY
                     then (let e' = e2\<lparr>E_Pos := (E_Pos e2)\<lparr>Y := groundY\<rparr>\<rparr>
                           in if Y (E_Vel e') > 0
                              then e'\<lparr>E_Vel := (E_Vel e')\<lparr>Y := 0\<rparr>, E_OnGround := True\<rparr>
                              else e')
                     else e2\<lparr>E_OnGround := False\<rparr>))
      in if X (E_Pos e3) < - real_of_int EnemyWidth \<or> X (E_Pos e3) > real_of_int (width g)
         then e3\<lparr>E_Active := False\<rparr> else e3)"

definition enemyStep :: "int \<Rightarrow> real \<Rightarrow> Enemy \<Rightarrow> Game \<Rightarrow> Enemy \<times> Game" where
  \<comment> \<open>the body of the main loop of \<^verbatim>\<open>updateEnemies\<close>; an inactive enemy is skipped\<close>
  "enemyStep now dt e g =
     (if \<not> E_Active e then (e, g)
      else if gameOver g then (enemyFall dt g (enemyLeave dt g e), g)
      else (case enemyShoot now (enemyApproach dt g e) g of
              (e1, g1) \<Rightarrow> (enemyFall dt g1 (enemyJump now g1 e1), g1)))"

definition spawnEnemy :: "Game \<Rightarrow> Game" where
  \<comment> \<open>a new enemy at the left or right edge; every other enemy can shoot\<close>
  "spawnEnemy g =
     (let canShoot = (goRem (enemySpawnCounter g) 2 = 1);
          g1 = g\<lparr>enemySpawnCounter := wrap64 (enemySpawnCounter g + 1)\<rparr>;
          fromLeft = rnd g1 0 < 0.5;
          e = \<lparr>E_Pos = \<lparr>X = (if fromLeft then - real_of_int EnemyWidth else real_of_int (width g1)),
                        Y = real_of_int (groundY g1 - EnemyHeight)\<rparr>,
               E_Vel = \<lparr>X = 0, Y = 0\<rparr>,
               E_Facing = (if fromLeft then 1 else - 1),
               E_Width = EnemyWidth,
               E_Height = EnemyHeight,
               E_Active = True,
               E_CanShoot = canShoot,
               E_LastShot = 0,
               E_NextShotDelay = 0,
               E_OnGround = True,
               E_JumpCooldown = 0\<rparr>
      in g1\<lparr>enemies := enemies g1 @ [e], rnd := dropRnd 1 (rnd g1)\<rparr>)"

definition spawnRate :: "Game \<Rightarrow> real" where
  \<comment> \<open>0.8% per frame, plus 0.5% for every 5 enemies defeated, at most 5%\<close>
  "spawnRate g =
     (let baseSpawnRate = 0.008;
          spawnRateIncrease = real_of_int (goQuot (enemiesDefeated g) 5) * 0.005;
          rate = baseSpawnRate + spawnRateIncrease
      in if rate > 0.05 then 0.05 else rate)"

definition updateEnemies :: "int \<Rightarrow> real \<Rightarrow> Game \<Rightarrow> Game" where
  "updateEnemies now dt g =
     (case forEach (enemyStep now dt) (enemies g) g of
        (es, g1) \<Rightarrow>
          (let g2 = g1\<lparr>enemies := filter E_Active es\<rparr>
           in if gameOver g2 then g2
              else if rnd g2 0 < spawnRate g2 then spawnEnemy (g2\<lparr>rnd := dropRnd 1 (rnd g2)\<rparr>)
              else g2\<lparr>rnd := dropRnd 1 (rnd g2)\<rparr>))"

section \<open>Collision resolver\<close>

definition overlapsEnemy :: "real \<Rightarrow> real \<Rightarrow> Enemy \<Rightarrow> bool" where
  \<comment> \<open>the bounding box of a 1 x 1 projectile at \<open>(x, y)\<close> against the enemy's box\<close>
  "overlapsEnemy x y e =
     (x < X (E_Pos e) + real_of_int (E_Width e) \<and>
      x + 1 > X (E_Pos e) \<and>
      y < Y (E_Pos e) + real_of_int (E_Height e) \<and>
      y + 1 > Y (E_Pos e))"

definition sweptHit :: "Projectile \<Rightarrow> Enemy \<Rightarrow> bool" where
  \<comment> \<open>current position, previous position, then 4 sample points along the path\<close>
  "sweptHit pr e =
     (let projPrevX = X (Pr_PrevPos pr);
          projPrevY = Y (Pr_PrevPos pr);
          projCurrX = X (Pr_Pos pr);
          projCurrY = Y (Pr_Pos pr);
          dx = projCurrX - projPrevX;
          dy = projCurrY - projPrevY;
          steps = 5
      in overlapsEnemy projCurrX projCurrY e \<or>
         overlapsEnemy projPrevX projPrevY e \<or>
         (\<exists>k \<in> set [1 ..< steps].
            overlapsEnemy (projPrevX + dx * (real k / real steps))
                          (projPrevY + dy * (real k / real steps)) e))"

definition pointHit :: "Projectile \<Rightarrow> Enemy \<Rightarrow> bool" where
  \<comment> \<open>the plain bounding-box test of the menu demo\<close>
  "pointHit pr e = overlapsEnemy (X (Pr_Pos pr)) (Y (Pr_Pos pr)) e"

fun hitFirst :: "(Enemy \<Rightarrow> bool) \<Rightarrow> Enemy list \<Rightarrow> (Enemy list \<times> Enemy) option" where
  \<comment> \<open>the inner loop: the first active enemy that is hit is deactivated, and the loop ends\<close>
  "hitFirst hit [] = None"
| "hitFirst hit (e # es) =
     (if E_Active e \<and> hit e then Some (e\<lparr>E_Active := False\<rparr> # es, e)
      else (case hitFirst hit es of
              None \<Rightarrow> None
            | Some (es', h) \<Rightarrow> Some (e # es', h)))"

definition playerTouchesEnemy :: "Player \<Rightarrow> Enemy \<Rightarrow> bool" where
  "playerTouchesEnemy p e =
     (X (P_Pos p) < X (E_Pos e) + real_of_int (E_Width e) \<and>
      X (P_Pos p) + real_of_int (P_Width p) > X (E_Pos e) \<and>
      Y (P_Pos p) < Y (E_Pos e) + real_of_int (E_Height e) \<and>
      Y (P_Pos p) + real_of_int (P_Height p) > Y (E_Pos e))"

definition projectileTouchesPlayer :: "Projectile \<Rightarrow> Player \<Rightarrow> bool" where
  "projectileTouchesPlayer pr p =
     (X (Pr_Pos pr) < X (P_Pos p) + real_of_int (P_Width p) \<and>
      X (Pr_Pos pr) + 1 > X (P_Pos p) \<and>
      Y (Pr_Pos pr) < Y (P_Pos p) + real_of_int (P_Height p) \<and>
      Y (Pr_Pos pr) + 1 > Y (P_Pos p))"

definition playerDefeated :: "Game \<Rightarrow> bool" where
  \<comment> \<open>an active enemy or an active enemy projectile overlaps the player\<close>
  "playerDefeated g =
     ((\<exists>e \<in> set (enemies g). E_Active e \<and> playerTouchesEnemy (player g) e) \<or>
      (\<exists>pr \<in> set (projectiles g).
         Pr_Active pr \<and> Pr_IsEnemy pr \<and> projectileTouchesPlayer pr (player g)))"

definition projectileKill :: "int \<Rightarrow> Projectile \<Rightarrow> Game \<Rightarrow> Projectile \<times> Game" where
  \<comment> \<open>one player projectile against the enemies: the first enemy hit dies with it\<close>
  "projectileKill now pr g =
     (if \<not> Pr_Active pr \<or> Pr_IsEnemy pr then (pr, g)
      else (case hitFirst (sweptHit pr) (enemies g) of
              None \<Rightarrow> (pr, g)
            | Some (es, e) \<Rightarrow>
                (pr\<lparr>Pr_Active := False\<rparr>,
                 (createDeathParticles now e g)
                   \<lparr>enemies := es,
                    score := wrap64 (score g + 10),
                    enemiesDefeated := wrap64 (enemiesDefeated g + 1)\<rparr>)))"

definition checkCollisions :: "int \<Rightarrow> Game \<Rightarrow> Game" where
  "checkCollisions now g =
     (if playerDefeated g then (createPlayerDeathParticles now g)\<lparr>gameOver := True\<rparr>
      else (case forEach (projectileKill now) (projectiles g) g of
              (prs, g1) \<Rightarrow> g1\<lparr>projectiles := prs\<rparr>))"

section \<open>Input, menu and the tick\<close>

fun platformsFrom :: "nat \<Rightarrow> nat \<Rightarrow> real \<Rightarrow> real \<Rightarrow> rnd \<Rightarrow> Platform list \<times> rnd" where
  \<comment> \<open>the platform loop, from index \<open>i\<close> for \<open>n\<close> more rounds; two draws per platform\<close>
  "platformsFrom i 0 platformSpacing groundLevel r = ([], r)"
| "platformsFrom i (Suc n) platformSpacing groundLevel r =
     (let platformX = platformSpacing * real (i + 1);
          heightAboveGround = 4 + r 0 * 8;
          platformY = groundLevel - heightAboveGround - 1;
          platformWidth = 12 + r 1 * 16;
          pl = \<lparr>Pl_X = platformX - platformWidth / 2, Pl_Y = platformY,
                Pl_Width = platformWidth, Pl_Height = 1\<rparr>
      in case platformsFrom (i + 1) n platformSpacing groundLevel (dropRnd 2 r) of
           (pls, r') \<Rightarrow> (pl # pls, r'))"

definition makePlatforms :: "int \<Rightarrow> int \<Rightarrow> rnd \<Rightarrow> Platform list \<times> rnd" where
  \<comment> \<open>3-5 platforms, 4-12 pixels above the ground, 12-28 wide\<close>
  "makePlatforms w gY r =
     (let numPlatforms = 3 + Intn 3 (r 0);
          platformSpacing = real_of_int w / real_of_int (numPlatforms + 1)
      in platformsFrom 0 (nat numPlatforms) platformSpacing (real_of_int gY) (dropRnd 1 r))"

definition startPlayer :: "int \<Rightarrow> Game \<Rightarrow> Player" where
  \<comment> \<open>the player at its starting position\<close>
  "startPlayer now g =
     \<lparr>P_Pos = \<lparr>X = real_of_int (goQuot (width g) 2), Y = real_of_int (groundY g - PlayerHeight)\<rparr>,
      P_Vel = \<lparr>X = 0, Y = 0\<rparr>,
      P_Facing = 1,
      P_MoveDir = 0,
      P_Width = PlayerWidth,
      P_Height = PlayerHeight,
      P_OnGround = True,
      P_OnPlatform = False,
      P_LastOnGroundTime = now\<rparr>"

definition startGame :: "int \<Rightarrow> Game \<Rightarrow> Game" where
  \<comment> \<open>space in the menu: "Start game - reset everything"\<close>
  "startGame now g =
     (let g1 = g\<lparr>projectiles := [],
                 enemies := [],
                 deathParticles := [],
                 bloodParticles := [],
                 redGroundTiles := Map.empty,
                 redPlatformTiles := Map.empty,
                 player := startPlayer now g,
                 score := 0,
                 enemiesDefeated := 0,
                 enemySpawnCounter := 0,
                 gameOver := False,
                 nextEnemyID := 1,
                 lastShot := 0,
                 keys := Map.empty\<rparr>
      in case makePlatforms (width g1) (groundY g1) (rnd g1) of
           (pls, r) \<Rightarrow> g1\<lparr>platforms := pls, rnd := r, inMenu := False\<rparr>)"

definition restartGame :: "int \<Rightarrow> Game \<Rightarrow> Game" where
  \<comment> \<open>enter at game over: "Restart game - go back to menu"\<close>
  "restartGame now g =
     (case makePlatforms (width g) (groundY g) (rnd g) of
        (pls, r) \<Rightarrow>
          g\<lparr>rnd := r,
            player := startPlayer now g,
            projectiles := [],
            enemies := [],
            platforms := pls,
            deathParticles := [],
            bloodParticles := [],
            redGroundTiles := Map.empty,
            redPlatformTiles := Map.empty,
            score := 0,
            enemiesDefeated := 0,
            enemySpawnCounter := 0,
            gameOver := False,
            inMenu := True,
            keys := Map.empty\<rparr>)"

definition playerShot :: "Player \<Rightarrow> int \<Rightarrow> Projectile" where
  \<comment> \<open>a player projectile at the player's centre\<close>
  "playerShot p dir =
     (let c = \<lparr>X = X (P_Pos p) + real_of_int (goQuot (P_Width p) 2),
               Y = Y (P_Pos p) + real_of_int (goQuot (P_Height p) 2)\<rparr>
      in \<lparr>Pr_Pos = c, Pr_PrevPos = c, Pr_Dir = dir, Pr_Active = True, Pr_Frame = 0,
          Pr_IsEnemy = False\<rparr>)"

definition toggleBlood :: "Game \<Rightarrow> Game" where
  "toggleBlood g = g\<lparr>bloodColorMode := goRem (wrap64 (bloodColorMode g + 1)) 4\<rparr>"

definition handleInput :: "int \<Rightarrow> Key \<Rightarrow> Game \<Rightarrow> Game" where
  "handleInput now ev g =
     (if inMenu g
      then (case ev of
              KeyRune c \<Rightarrow> if c = CHR '' '' then startGame now g else g
            | KeyTab \<Rightarrow> toggleBlood g
            | _ \<Rightarrow> g)
      else if gameOver g
      then (case ev of KeyEnter \<Rightarrow> restartGame now g | _ \<Rightarrow> g)
      else (case ev of
              KeyTab \<Rightarrow> toggleBlood g
            | KeyLeft \<Rightarrow> g\<lparr>keys := (keys g)(KeyLeft \<mapsto> now)\<rparr>
            | KeyRight \<Rightarrow> g\<lparr>keys := (keys g)(KeyRight \<mapsto> now)\<rparr>
            | KeyUp \<Rightarrow> g\<lparr>keys := (keys g)(KeyUp \<mapsto> now)\<rparr>
            | KeyRune c \<Rightarrow>
                if c = CHR '' '' \<and> now - lastShot g > 200 * Millisecond
                then g\<lparr>projectiles := projectiles g @ [playerShot (player g) (P_Facing (player g))],
                       lastShot := now\<rparr>
                else g
            | _ \<Rightarrow> g))"

definition menuPlayer :: "int \<Rightarrow> Game \<Rightarrow> Game" where
  \<comment> \<open>the demo player is centred and fires in a random direction every 0.8 s\<close>
  "menuPlayer now g =
     (let p = player g;
          g1 = (if X (P_Pos p) = 0 \<and> Y (P_Pos p) = 0
                then g\<lparr>player := p\<lparr>P_Pos := \<lparr>X = real_of_int (goQuot (width g) 2),
                                              Y = real_of_int (groundY g - PlayerHeight)\<rparr>,
                                     P_Facing := 1\<rparr>\<rparr>
                else g)
      in if now - menuLastShot g1 > 800 * Millisecond
         then (let dir = (if rnd g1 0 < 0.5 then - 1 else 1);
                   p1 = (player g1)\<lparr>P_Facing := dir\<rparr>
               in g1\<lparr>player := p1,
                      projectiles := projectiles g1 @ [playerShot p1 dir],
                      menuLastShot := now,
                      rnd := dropRnd 1 (rnd g1)\<rparr>)
         else g1)"

definition menuSpawn :: "int \<Rightarrow> Game \<Rightarrow> Game" where
  \<comment> \<open>demo enemies appear every 1.5-3 s and never shoot\<close>
  "menuSpawn now g =
     (let g1 = g\<lparr>rnd := dropRnd 1 (rnd g)\<rparr>
      in if now - menuLastEnemySpawn g > (1500 + Intn 1500 (rnd g 0)) * Millisecond
         then (let fromLeft = rnd g1 0 < 0.5;
                   e = \<lparr>E_Pos = \<lparr>X = (if fromLeft then - real_of_int EnemyWidth
                                       else real_of_int (width g1)),
                                 Y = real_of_int (groundY g1 - EnemyHeight)\<rparr>,
                        E_Vel = \<lparr>X = 0, Y = 0\<rparr>,
                        E_Facing = (if fromLeft then 1 else - 1),
                        E_Width = EnemyWidth,
                        E_Height = EnemyHeight,
                        E_Active = True,
                        E_CanShoot = False,
                        E_LastShot = 0,
                        E_NextShotDelay = 0,
                        E_OnGround = True,
                        E_JumpCooldown = 0\<rparr>
               in g1\<lparr>enemies := enemies g1 @ [e],
                      menuLastEnemySpawn := now,
                      rnd := dropRnd 1 (rnd g1)\<rparr>)
         else g1)"

definition menuEnemyStep :: "real \<Rightarrow> Game \<Rightarrow> Enemy \<Rightarrow> Enemy" where
  \<comment> \<open>demo enemies walk to the centre and vanish there\<close>
  "menuEnemyStep dt g e =
     (if \<not> E_Active e then e
      else (let baseSpeed = 20;
                centerX = real_of_int (goQuot (width g) 2);
                dx = centerX - X (E_Pos e);
                e1 = enemyWalk baseSpeed dt (dx > 0) e
            in if X (E_Pos e1) < - real_of_int EnemyWidth \<or>
                  X (E_Pos e1) > real_of_int (width g) \<or>
                  \<bar>X (E_Pos e1) - centerX\<bar> < 5
               then e1\<lparr>E_Active := False\<rparr> else e1))"

definition menuKill :: "int \<Rightarrow> Projectile \<Rightarrow> Game \<Rightarrow> Projectile \<times> Game" where
  \<comment> \<open>the demo's collision check: current positions only, no score\<close>
  "menuKill now pr g =
     (if \<not> Pr_Active pr \<or> Pr_IsEnemy pr then (pr, g)
      else (case hitFirst (pointHit pr) (enemies g) of
              None \<Rightarrow> (pr, g)
            | Some (es, e) \<Rightarrow>
                (pr\<lparr>Pr_Active := False\<rparr>, (createDeathParticles now e g)\<lparr>enemies := es\<rparr>)))"

definition updateMenu :: "int \<Rightarrow> real \<Rightarrow> Game \<Rightarrow> Game" where
  "updateMenu now dt g =
     (let g1 = menuSpawn now (menuPlayer now g);
          g2 = g1\<lparr>enemies := filter E_Active (map (menuEnemyStep dt g1) (enemies g1))\<rparr>;
          g3 = updateProjectiles dt g2;
          g4 = (case forEach (menuKill now) (projectiles g3) g3 of
                  (prs, g') \<Rightarrow> g'\<lparr>projectiles := prs\<rparr>)
      in checkAndClearRedTiles (updateBloodParticles dt (updateDeathParticles now dt g4)))"

definition update :: "int \<Rightarrow> real \<Rightarrow> Game \<Rightarrow> Game" where
  "update now dt g =
     (if inMenu g then updateMenu now dt g
      else (let g1 = (if \<not> gameOver g then checkCollisions now (updatePlayer now dt g) else g)
            in checkAndClearRedTiles
                 (updateBloodParticles dt
                    (updateDeathParticles now dt
                       (updateEnemies now dt
                          (updateProjectiles dt g1))))))"

definition clampDt :: "real \<Rightarrow> real" where
  \<comment> \<open>the main loop caps the elapsed time before it calls \<^verbatim>\<open>update\<close>\<close>
  "clampDt deltaTime = (if deltaTime > 0.1 then 0.1 else deltaTime)"

definition resize :: "int \<Rightarrow> int \<Rightarrow> Game \<Rightarrow> Game" where
  \<comment> \<open>a resize event: new size, the ground at the bottom row, the player back on it\<close>
  "resize w h g =
     (let g1 = g\<lparr>width := w, height := h, groundY := h - 1\<rparr>;
          p = player g1;
          p1 = (if X (P_Pos p) + real_of_int (P_Width p) > real_of_int (width g1)
                then p\<lparr>P_Pos := (P_Pos p)\<lparr>X := real_of_int (width g1 - P_Width p)\<rparr>\<rparr> else p)
      in g1\<lparr>player := p1\<lparr>P_Pos := (P_Pos p1)\<lparr>Y := real_of_int (groundY g1 - PlayerHeight)\<rparr>\<rparr>\<rparr>)"

definition NewGame :: "int \<Rightarrow> int \<Rightarrow> int \<Rightarrow> rnd \<Rightarrow> Game" where
  \<comment> \<open>the initial world for a screen of the given size, in the menu\<close>
  "NewGame w h now r =
     (let gY = h - 1
      in case makePlatforms w gY r of
           (pls, r') \<Rightarrow>
             \<lparr>player = \<lparr>P_Pos = \<lparr>X = real_of_int (goQuot w 2), Y = real_of_int (gY - PlayerHeight)\<rparr>,
                         P_Vel = \<lparr>X = 0, Y = 0\<rparr>, P_Facing = 1, P_MoveDir = 0,
                         P_Width = PlayerWidth, P_Height = PlayerHeight, P_OnGround = True,
                         P_OnPlatform = False, P_LastOnGroundTime = now\<rparr>,
              projectiles = [], enemies = [], deathParticles = [], corpses = [],
              bloodParticles = [], platforms = pls, score = 0, enemiesDefeated = 0,
              enemySpawnCounter = 0, gameOver = False, inMenu = True, bloodColorMode = 0,
              width = w, height = h, groundY = gY, redGroundTiles = Map.empty,
              redPlatformTiles = Map.empty, nextEnemyID = 1, lastFrame = now, keys = Map.empty,
              lastShot = 0, menuLastShot = 0, menuLastEnemySpawn = 0, rnd = r'\<rparr>)"

datatype Input = KeyEv Key | ResizeEv int int

definition applyInput :: "int \<Rightarrow> Input option \<Rightarrow> Game \<Rightarrow> Game" where
  \<comment> \<open>the main loop takes at most one pending event per round\<close>
  "applyInput now ev g =
     (case ev of
        None \<Rightarrow> g
      | Some (KeyEv k) \<Rightarrow> handleInput now k g
      | Some (ResizeEv w h) \<Rightarrow> resize w h g)"

definition frame :: "int \<Rightarrow> real \<Rightarrow> Input option \<Rightarrow> Game \<Rightarrow> Game" where
  \<comment> \<open>one round of the main loop: the elapsed time is capped, the input is handled, then
      the world is updated (the escape key ends the loop instead)\<close>
  "frame now deltaTime ev g = update now (clampDt deltaTime) (applyInput now ev g)"

fun runFrames :: "(int \<times> real \<times> Input option) list \<Rightarrow> Game \<Rightarrow> Game" where
  "runFrames [] g = g"
| "runFrames ((now, deltaTime, ev) # fs) g = runFrames fs (frame now deltaTime ev g)"

section \<open>Frames and concrete worlds\<close>

text \<open>
  Most operations touch a few fields of the world only. A frame is stated as an equation
  between the two worlds with the touched fields erased: \<open>clrBlood\<close> erases what a blood
  spray may change, \<open>clrGore\<close> what the debris pipeline and the stain registry may change,
  \<open>clrFight\<close> in addition what the collision resolver may change.
\<close>

definition clrBlood :: "Game \<Rightarrow> Game" where
  "clrBlood g = g\<lparr>bloodParticles := [], rnd := (\<lambda>_. 0)\<rparr>"

definition clrGore :: "Game \<Rightarrow> Game" where
  "clrGore g = (clrBlood g)\<lparr>deathParticles := [], corpses := [], nextEnemyID := 0,
                  redGroundTiles := Map.empty, redPlatformTiles := Map.empty\<rparr>"

definition clrFight :: "Game \<Rightarrow> Game" where
  "clrFight g = (clrGore g)\<lparr>projectiles := [], enemies := [], score := 0, enemiesDefeated := 0,
                  gameOver := False\<rparr>"

definition clrTiles :: "Game \<Rightarrow> Game" where
  \<comment> \<open>what a blood particle's step and the sweep may change: the two stain maps\<close>
  "clrTiles g = g\<lparr>redGroundTiles := Map.empty, redPlatformTiles := Map.empty\<rparr>"

definition clrShots :: "Game \<Rightarrow> Game" where
  \<comment> \<open>what an opponent's step may change in the world: it may fire and draw\<close>
  "clrShots g = g\<lparr>projectiles := [], rnd := (\<lambda>_. 0)\<rparr>"

text \<open>
  A small concrete world, 80 by 24 with the ground on row 23, no platforms, nothing on
  stage, a round in progress, and every random draw equal to 0.
\<close>

definition arena :: Game where
  "arena =
     \<lparr>player = \<lparr>P_Pos = \<lparr>X = 40, Y = 20\<rparr>, P_Vel = \<lparr>X = 0, Y = 0\<rparr>, P_Facing = 1, P_MoveDir = 0,
                 P_Width = 4, P_Height = 3, P_OnGround = True, P_OnPlatform = False,
                 P_LastOnGroundTime = 0\<rparr>,
      projectiles = [], enemies = [], deathParticles = [], corpses = [], bloodParticles = [],
      platforms = [], score = 0, enemiesDefeated = 0, enemySpawnCounter = 0, gameOver = False,
      inMenu = False, bloodColorMode = 0, width = 80, height = 24, groundY = 23,
      redGroundTiles = Map.empty, redPlatformTiles = Map.empty, nextEnemyID = 1, lastFrame = 0,
      keys = Map.empty, lastShot = 0, menuLastShot = 0, menuLastEnemySpawn = 0,
      rnd = (\<lambda>_. 0)\<rparr>"

definition drop :: BloodParticle where
  \<comment> \<open>a blood particle of source 7, in the air\<close>
  "drop = \<lparr>B_Pos = \<lparr>X = 5, Y = 10\<rparr>, B_Vel = \<lparr>X = 0, Y = 0\<rparr>, B_Char = CHR ''.'',
           B_Active = True, B_Lifetime = 1, B_EnemyID = 7\<rparr>"

definition stained :: Game where
  \<comment> \<open>stains of source 7, which still has a particle, and of source 8, which has none\<close>
  "stained = arena\<lparr>bloodParticles := [drop], redGroundTiles := [3 \<mapsto> 7, 4 \<mapsto> 8],
                   redPlatformTiles := [10002 \<mapsto> 7]\<rparr>"

text \<open>Where a sprite piece starts, and what every newly spawned fragment looks like.\<close>

definition piecePos :: "Vec2 \<Rightarrow> char \<times> int \<times> int \<Rightarrow> Vec2" where
  "piecePos pos piece =
     \<lparr>X = X pos + real_of_int (fst (snd piece)), Y = Y pos + real_of_int (snd (snd piece))\<rparr>"

definition freshFrag :: "int \<Rightarrow> DeathParticle \<Rightarrow> bool" where
  "freshFrag eid d = (D_EnemyID d = eid \<and> D_Active d \<and> D_Bounces d = 0 \<and> \<not> D_OnGround d)"

definition foe :: Enemy where
  \<comment> \<open>an opponent standing on the ground of the arena\<close>
  "foe = \<lparr>E_Pos = \<lparr>X = 50, Y = 20\<rparr>, E_Vel = \<lparr>X = 0, Y = 0\<rparr>, E_Facing = - 1, E_Width = 4,
          E_Height = 3, E_Active = True, E_CanShoot = False, E_LastShot = 0,
          E_NextShotDelay = 0, E_OnGround = True, E_JumpCooldown = 0\<rparr>"

definition calm :: Game where
  \<comment> \<open>the arena with every random draw equal to 1/2\<close>
  "calm = arena\<lparr>rnd := (\<lambda>_. 1 / 2)\<rparr>"

text \<open>A corpse breaks apart in the tick in which it is active and past its end time.\<close>

definition expired :: "int \<Rightarrow> Corpse \<Rightarrow> bool" where
  "expired now c = (C_Active c \<and> now > C_EndTime c)"

definition headless :: Corpse where
  \<comment> \<open>a corpse of source 4 whose end time is 3\<close>
  "headless = \<lparr>C_Pos = \<lparr>X = 30, Y = 20\<rparr>, C_Vel = \<lparr>X = 0, Y = 0\<rparr>, C_Facing = 1,
               C_OnGround = True, C_Active = True, C_EnemyID = 4, C_EndTime = 3, C_MoveDir = 1,
               C_LastDirChange = 0, C_DirDuration = 200 * Millisecond, C_LastBloodEmit = 0,
               C_WasOnPlatform = False\<rparr>"

text \<open>
  The bounce counter of a fragment counts bounces up to 2; the value 999 marks a
  falls-through fragment that has passed the ground. A settled fragment has no vertical
  velocity.
\<close>

definition fragOK :: "DeathParticle \<Rightarrow> bool" where
  "fragOK p =
     ((0 \<le> D_Bounces p \<and> D_Bounces p \<le> 2 \<or> D_Bounces p = 999 \<and> D_FallsThrough p) \<and>
      (D_OnGround p \<longrightarrow> Y (D_Vel p) = 0))"

definition fragsOK :: "Game \<Rightarrow> bool" where
  "fragsOK g = (\<forall>p \<in> set (deathParticles g). fragOK p)"

text \<open>
  A falls-through piece of the player's body hanging just above the resting row (row 22 of
  the arena), and the arena after the player's defeat with that piece in the air.
\<close>

definition shard :: DeathParticle where
  "shard = \<lparr>D_Pos = \<lparr>X = 10, Y = 21.9\<rparr>, D_Vel = \<lparr>X = 0, Y = 0\<rparr>, D_Char = CHR ''|'',
            D_OnGround = False, D_Bounces = 0, D_GroundTime = 0, D_Active = True, D_EnemyID = 0,
            D_IsRed = False, D_AngularVel = 0, D_Angle = 0, D_FallsThrough = True,
            D_IsHead = False, D_IsRolling = False, D_RollDistance = 0, D_RollSpeed = 0,
            D_BouncedFromPlatform = False, D_WasOnPlatform = False,
            D_HasSplattedFromPlatform = False, D_LastBloodEmit = 0, D_HasHitGround = False\<rparr>"

definition ruin :: Game where
  "ruin = arena\<lparr>gameOver := True, deathParticles := [shard]\<rparr>"

definition ledge :: Platform where
  \<comment> \<open>a platform far from the falling piece\<close>
  "ledge = \<lparr>Pl_X = 40, Pl_Y = 15, Pl_Width = 20, Pl_Height = 1\<rparr>"

definition cliff :: Game where
  "cliff = ruin\<lparr>platforms := [ledge]\<rparr>"

text \<open>
  Two blood particles of source 7: one about to reach the ground line of the arena, one
  about to fall onto the ledge.
\<close>

definition splash :: BloodParticle where
  "splash = \<lparr>B_Pos = \<lparr>X = 5, Y = 22.9\<rparr>, B_Vel = \<lparr>X = 0, Y = 0\<rparr>, B_Char = CHR ''.'',
             B_Active = True, B_Lifetime = 1, B_EnemyID = 7\<rparr>"

definition spray :: BloodParticle where
  "spray = \<lparr>B_Pos = \<lparr>X = 45, Y = 14.5\<rparr>, B_Vel = \<lparr>X = 0, Y = 0\<rparr>, B_Char = CHR ''.'',
            B_Active = True, B_Lifetime = 1, B_EnemyID = 7\<rparr>"

text \<open>The menu and the game-over screen, each with a corpse still running about.\<close>

definition lobby :: Game where
  "lobby = arena\<lparr>inMenu := True, corpses := [headless]\<rparr>"

definition wreck :: Game where
  "wreck = arena\<lparr>gameOver := True, corpses := [headless]\<rparr>"

text \<open>
  The spawn log of a run of the main loop: for every round in which the spawn counter moved,
  the ranged capability of the opponent appended in that round. The log ends when the game
  is back in the menu, where the counter has been reset.
\<close>

fun spawnLog :: "(int \<times> real \<times> Input option) list \<Rightarrow> Game \<Rightarrow> bool list" where
  "spawnLog [] g = []"
| "spawnLog ((now, deltaTime, ev) # fs) g =
     (let g1 = applyInput now ev g
      in if inMenu g1 then []
         else (let g' = update now (clampDt deltaTime) g1
               in (if enemySpawnCounter g' \<noteq> enemySpawnCounter g1
                   then [E_CanShoot (last (enemies g'))] else []) @ spawnLog fs g'))"


text \<open>
  A projectile straddles an opponent when the two ends of its last move are level with the
  opponent's box and lie on opposite sides of it. The worlds below have a shot that has just
  moved 20 px across an opponent.
\<close>

definition straddles :: "Projectile \<Rightarrow> Enemy \<Rightarrow> bool" where
  \<comment> \<open>both ends of the projectile's last move are level with the enemy's box, one on each
      side of it, and neither overlaps it\<close>
  "straddles pr e =
     (let eX = X (E_Pos e); eY = Y (E_Pos e);
          eW = real_of_int (E_Width e); eH = real_of_int (E_Height e);
          level = (\<lambda>y. y < eY + eH \<and> y + 1 > eY)
      in level (Y (Pr_PrevPos pr)) \<and> level (Y (Pr_Pos pr)) \<and>
         (X (Pr_PrevPos pr) + 1 \<le> eX \<and> eX + eW \<le> X (Pr_Pos pr) \<or>
          X (Pr_Pos pr) + 1 \<le> eX \<and> eX + eW \<le> X (Pr_PrevPos pr)))"

definition shot :: Projectile where
  \<comment> \<open>a player projectile leaving the player of the arena to the right\<close>
  "shot = \<lparr>Pr_Pos = \<lparr>X = 44, Y = 21\<rparr>, Pr_PrevPos = \<lparr>X = 44, Y = 21\<rparr>, Pr_Dir = 1,
           Pr_Active = True, Pr_Frame = 0, Pr_IsEnemy = False\<rparr>"

definition stray :: Projectile where
  \<comment> \<open>a player projectile far to the left, flying left\<close>
  "stray = \<lparr>Pr_Pos = \<lparr>X = 10, Y = 21\<rparr>, Pr_PrevPos = \<lparr>X = 12, Y = 21\<rparr>, Pr_Dir = - 1,
            Pr_Active = True, Pr_Frame = 3, Pr_IsEnemy = False\<rparr>"

definition duel :: Game where
  \<comment> \<open>after a stalled round: the shot has moved 20 px in one step, across the opponent at
      50; another opponent stands at 70, out of its way\<close>
  "duel = arena\<lparr>projectiles := [stray, projectileStep (clampDt (1 / 2)) arena shot],
                  enemies := [foe\<lparr>E_Pos := \<lparr>X = 70, Y = 20\<rparr>\<rparr>, foe]\<rparr>"

definition queue :: Game where
  \<comment> \<open>the same shot; the opponent at 58 comes before the one at 50 in the list\<close>
  "queue = arena\<lparr>projectiles := [projectileStep (clampDt (1 / 2)) arena shot],
                   enemies := [foe\<lparr>E_Pos := \<lparr>X = 58, Y = 20\<rparr>\<rparr>, foe]\<rparr>"

definition fallen :: "Enemy \<Rightarrow> Enemy \<Rightarrow> bool" where
  \<comment> \<open>the same enemy, possibly deactivated\<close>
  "fallen a b = (b = a \<or> b = a\<lparr>E_Active := False\<rparr>)"

text \<open>
  Two worlds have the same stage when the screen size, the ground row and the platforms
  agree; the fragment that the fragment step returns depends on nothing else of the world. \<open>grown\<close> and \<open>kept\<close> say
  what the phases of a tick before the debris phase leave alone: the corpses and fragments
  already there, the two mode flags and the stage.
\<close>

definition sameStage :: "Game \<Rightarrow> Game \<Rightarrow> bool" where
  \<comment> \<open>the same screen size, ground row and platforms\<close>
  "sameStage s g =
     (platforms s = platforms g \<and> width s = width g \<and> height s = height g \<and>
      groundY s = groundY g)"

definition grown :: "Game \<Rightarrow> Game \<Rightarrow> bool" where
  \<comment> \<open>\<open>s\<close> has the corpses and the fragments of \<open>g\<close>, unchanged, and possibly more after them\<close>
  "grown g s =
     (take (length (corpses g)) (corpses s) = corpses g \<and>
      take (length (deathParticles g)) (deathParticles s) = deathParticles g)"

definition kept :: "Game \<Rightarrow> Game \<Rightarrow> bool" where
  "kept g s = (grown g s \<and> gameOver s = gameOver g \<and> inMenu s = inMenu g \<and> sameStage s g)"






definition haunt :: Game where
  \<comment> \<open>a round in play with a corpse still running about\<close>
  "haunt = arena\<lparr>corpses := [headless]\<rparr>"
section \<open>Loops and frames\<close>

lemma forEach_length: "length (fst (forEach f xs s)) = length xs"
  by (induction xs arbitrary: s) (auto split: prod.splits, metis fst_conv)

lemma forEach_inv:
  assumes "I s"
    and "\<And>x s. x \<in> set xs \<Longrightarrow> I s \<Longrightarrow> I (snd (f x s)) \<and> R x (fst (f x s))"
  shows "I (snd (forEach f xs s)) \<and> list_all2 R xs (fst (forEach f xs s))"
  using assms
proof (induction xs arbitrary: s)
  case Nil
  then show ?case by simp
next
  case (Cons x xs)
  obtain x' s1 where fx: "f x s = (x', s1)" by (cases "f x s")
  obtain xs' s2 where fxs: "forEach f xs s1 = (xs', s2)" by (cases "forEach f xs s1")
  have a: "I s1 \<and> R x x'" using Cons.prems(2)[of x s] Cons.prems(1) fx by simp
  have "I (snd (forEach f xs s1)) \<and> list_all2 R xs (fst (forEach f xs s1))"
    using Cons.IH[of s1] a Cons.prems(2) by simp
  then show ?case using a fx fxs by simp
qed

lemma forEach_Cons:
  "snd (forEach f (x # xs) s) = snd (forEach f xs (snd (f x s)))"
  "fst (forEach f (x # xs) s) = fst (f x s) # fst (forEach f xs (snd (f x s)))"
  by (simp_all split: prod.splits)

lemma clrBlood_fields:
  assumes "clrBlood g' = clrBlood g"
  shows "player g' = player g" "projectiles g' = projectiles g" "enemies g' = enemies g"
    "deathParticles g' = deathParticles g" "corpses g' = corpses g" "platforms g' = platforms g"
    "score g' = score g" "enemiesDefeated g' = enemiesDefeated g"
    "enemySpawnCounter g' = enemySpawnCounter g" "gameOver g' = gameOver g" "inMenu g' = inMenu g"
    "width g' = width g" "height g' = height g" "groundY g' = groundY g"
    "redGroundTiles g' = redGroundTiles g" "redPlatformTiles g' = redPlatformTiles g"
    "nextEnemyID g' = nextEnemyID g" "keys g' = keys g" "lastShot g' = lastShot g"
proof -
  show "player g' = player g" using arg_cong[OF assms, of player] by (simp add: clrBlood_def)
  show "projectiles g' = projectiles g" using arg_cong[OF assms, of projectiles] by (simp add: clrBlood_def)
  show "enemies g' = enemies g" using arg_cong[OF assms, of enemies] by (simp add: clrBlood_def)
  show "deathParticles g' = deathParticles g" using arg_cong[OF assms, of deathParticles] by (simp add: clrBlood_def)
  show "corpses g' = corpses g" using arg_cong[OF assms, of corpses] by (simp add: clrBlood_def)
  show "platforms g' = platforms g" using arg_cong[OF assms, of platforms] by (simp add: clrBlood_def)
  show "score g' = score g" using arg_cong[OF assms, of score] by (simp add: clrBlood_def)
  show "enemiesDefeated g' = enemiesDefeated g" using arg_cong[OF assms, of enemiesDefeated] by (simp add: clrBlood_def)
  show "enemySpawnCounter g' = enemySpawnCounter g" using arg_cong[OF assms, of enemySpawnCounter] by (simp add: clrBlood_def)
  show "gameOver g' = gameOver g" using arg_cong[OF assms, of gameOver] by (simp add: clrBlood_def)
  show "inMenu g' = inMenu g" using arg_cong[OF assms, of inMenu] by (simp add: clrBlood_def)
  show "width g' = width g" using arg_cong[OF assms, of width] by (simp add: clrBlood_def)
  show "height g' = height g" using arg_cong[OF assms, of height] by (simp add: clrBlood_def)
  show "groundY g' = groundY g" using arg_cong[OF assms, of groundY] by (simp add: clrBlood_def)
  show "redGroundTiles g' = redGroundTiles g" using arg_cong[OF assms, of redGroundTiles] by (simp add: clrBlood_def)
  show "redPlatformTiles g' = redPlatformTiles g" using arg_cong[OF assms, of redPlatformTiles] by (simp add: clrBlood_def)
  show "nextEnemyID g' = nextEnemyID g" using arg_cong[OF assms, of nextEnemyID] by (simp add: clrBlood_def)
  show "keys g' = keys g" using arg_cong[OF assms, of keys] by (simp add: clrBlood_def)
  show "lastShot g' = lastShot g" using arg_cong[OF assms, of lastShot] by (simp add: clrBlood_def)
qed

lemma clrGore_fields:
  assumes "clrGore g' = clrGore g"
  shows "player g' = player g" "projectiles g' = projectiles g" "enemies g' = enemies g"
    "platforms g' = platforms g" "score g' = score g" "enemiesDefeated g' = enemiesDefeated g"
    "enemySpawnCounter g' = enemySpawnCounter g" "gameOver g' = gameOver g" "inMenu g' = inMenu g"
    "width g' = width g" "height g' = height g" "groundY g' = groundY g"
    "keys g' = keys g" "lastShot g' = lastShot g"
proof -
  show "player g' = player g" using arg_cong[OF assms, of player] by (simp add: clrGore_def clrBlood_def)
  show "projectiles g' = projectiles g" using arg_cong[OF assms, of projectiles] by (simp add: clrGore_def clrBlood_def)
  show "enemies g' = enemies g" using arg_cong[OF assms, of enemies] by (simp add: clrGore_def clrBlood_def)
  show "platforms g' = platforms g" using arg_cong[OF assms, of platforms] by (simp add: clrGore_def clrBlood_def)
  show "score g' = score g" using arg_cong[OF assms, of score] by (simp add: clrGore_def clrBlood_def)
  show "enemiesDefeated g' = enemiesDefeated g" using arg_cong[OF assms, of enemiesDefeated] by (simp add: clrGore_def clrBlood_def)
  show "enemySpawnCounter g' = enemySpawnCounter g" using arg_cong[OF assms, of enemySpawnCounter] by (simp add: clrGore_def clrBlood_def)
  show "gameOver g' = gameOver g" using arg_cong[OF assms, of gameOver] by (simp add: clrGore_def clrBlood_def)
  show "inMenu g' = inMenu g" using arg_cong[OF assms, of inMenu] by (simp add: clrGore_def clrBlood_def)
  show "width g' = width g" using arg_cong[OF assms, of width] by (simp add: clrGore_def clrBlood_def)
  show "height g' = height g" using arg_cong[OF assms, of height] by (simp add: clrGore_def clrBlood_def)
  show "groundY g' = groundY g" using arg_cong[OF assms, of groundY] by (simp add: clrGore_def clrBlood_def)
  show "keys g' = keys g" using arg_cong[OF assms, of keys] by (simp add: clrGore_def clrBlood_def)
  show "lastShot g' = lastShot g" using arg_cong[OF assms, of lastShot] by (simp add: clrGore_def clrBlood_def)
qed

lemma clrFight_fields:
  assumes "clrFight g' = clrFight g"
  shows "player g' = player g" "platforms g' = platforms g"
    "enemySpawnCounter g' = enemySpawnCounter g" "inMenu g' = inMenu g"
    "width g' = width g" "height g' = height g" "groundY g' = groundY g"
    "keys g' = keys g" "lastShot g' = lastShot g"
proof -
  show "player g' = player g" using arg_cong[OF assms, of player] by (simp add: clrFight_def clrGore_def clrBlood_def)
  show "platforms g' = platforms g" using arg_cong[OF assms, of platforms] by (simp add: clrFight_def clrGore_def clrBlood_def)
  show "enemySpawnCounter g' = enemySpawnCounter g" using arg_cong[OF assms, of enemySpawnCounter] by (simp add: clrFight_def clrGore_def clrBlood_def)
  show "inMenu g' = inMenu g" using arg_cong[OF assms, of inMenu] by (simp add: clrFight_def clrGore_def clrBlood_def)
  show "width g' = width g" using arg_cong[OF assms, of width] by (simp add: clrFight_def clrGore_def clrBlood_def)
  show "height g' = height g" using arg_cong[OF assms, of height] by (simp add: clrFight_def clrGore_def clrBlood_def)
  show "groundY g' = groundY g" using arg_cong[OF assms, of groundY] by (simp add: clrFight_def clrGore_def clrBlood_def)
  show "keys g' = keys g" using arg_cong[OF assms, of keys] by (simp add: clrFight_def clrGore_def clrBlood_def)
  show "lastShot g' = lastShot g" using arg_cong[OF assms, of lastShot] by (simp add: clrFight_def clrGore_def clrBlood_def)
qed

lemma clrBlood_clrGore: "clrBlood g' = clrBlood g \<Longrightarrow> clrGore g' = clrGore g"
  by (simp add: clrGore_def)

lemma clrGore_clrFight: "clrGore g' = clrGore g \<Longrightarrow> clrFight g' = clrFight g"
  by (simp add: clrFight_def)

lemma emitLoop_frame: "clrBlood (emitLoop n p impact g) = clrBlood g"
  by (induction n arbitrary: g) (simp_all add: clrBlood_def)

lemma emitBlood_frame: "clrBlood (emitBloodFromParticle p i impact g) = clrBlood g"
  by (simp add: emitBloodFromParticle_def emitLoop_frame split: prod.splits) (simp add: clrBlood_def)

lemma impactEmit_frame: "clrBlood (impactEmit p g) = clrBlood g"
  by (simp add: impactEmit_def Let_def emitBlood_frame)

section \<open>Spawning: what is added to the world\<close>

lemma spawnPiece_effect:
  "\<exists>d. clrBlood (spawnPiece now pos eid wop hc piece g) = clrBlood (g\<lparr>deathParticles := deathParticles g @ [d]\<rparr>) \<and>
       freshFrag eid d \<and> D_Pos d = piecePos pos piece"
  unfolding spawnPiece_def Let_def piecePos_def freshFrag_def
  apply (simp split: prod.splits add: emitBlood_frame)
  apply (intro allI impI)
  apply (rule exI)
  apply (rule conjI)
   apply (simp add: clrBlood_def)
  apply simp
  done

lemma spawnPieces_effect:
  "\<exists>fs. clrBlood (fold (spawnPiece now pos eid wop hc) pieces g) =
          clrBlood (g\<lparr>deathParticles := deathParticles g @ fs\<rparr>) \<and>
        (\<forall>f \<in> set fs. freshFrag eid f) \<and> map D_Pos fs = map (piecePos pos) pieces"
proof (induction pieces arbitrary: g)
  case Nil
  have "clrBlood g = clrBlood (g\<lparr>deathParticles := deathParticles g @ []\<rparr>)" by simp
  then show ?case by (metis fold_simps(1) list.simps(8) list.set(1) empty_iff)
next
  case (Cons piece pieces)
  let ?g1 = "spawnPiece now pos eid wop hc piece g"
  obtain d where d: "clrBlood ?g1 = clrBlood (g\<lparr>deathParticles := deathParticles g @ [d]\<rparr>)"
      "freshFrag eid d" "D_Pos d = piecePos pos piece"
    using spawnPiece_effect by blast
  obtain fs where fs: "clrBlood (fold (spawnPiece now pos eid wop hc) pieces ?g1) =
          clrBlood (?g1\<lparr>deathParticles := deathParticles ?g1 @ fs\<rparr>)"
      "\<forall>f \<in> set fs. freshFrag eid f" "map D_Pos fs = map (piecePos pos) pieces"
    using Cons.IH[of ?g1] by blast
  have dp: "deathParticles ?g1 = deathParticles g @ [d]"
    using clrBlood_fields(4)[OF d(1)] by simp
  have "clrBlood (?g1\<lparr>deathParticles := deathParticles ?g1 @ fs\<rparr>) =
        (clrBlood ?g1)\<lparr>deathParticles := deathParticles ?g1 @ fs\<rparr>"
    by (simp add: clrBlood_def)
  also have "\<dots> = clrBlood (g\<lparr>deathParticles := deathParticles g @ (d # fs)\<rparr>)"
    by (simp add: d(1) dp) (simp add: clrBlood_def)
  finally have "clrBlood (fold (spawnPiece now pos eid wop hc) (piece # pieces) g) =
      clrBlood (g\<lparr>deathParticles := deathParticles g @ (d # fs)\<rparr>)"
    using fs(1) by simp
  moreover have "\<forall>f \<in> set (d # fs). freshFrag eid f" using d(2) fs(2) by simp
  moreover have "map D_Pos (d # fs) = map (piecePos pos) (piece # pieces)" using d(3) fs(3) by simp
  ultimately show ?case by blast
qed

lemma createDeathParticlesAt_effect:
  "\<exists>fs. clrBlood (createDeathParticlesAt now pos facing eid wop g) =
          clrBlood (g\<lparr>deathParticles := deathParticles g @ fs\<rparr>) \<and>
        (\<forall>f \<in> set fs. freshFrag eid f) \<and> map D_Pos fs = map (piecePos pos) (enemyPieces facing)"
  unfolding createDeathParticlesAt_def by (rule spawnPieces_effect)

lemma createPlayerDeathParticles_effect:
  "\<exists>fs. clrBlood (createPlayerDeathParticles now g) =
          clrBlood (g\<lparr>deathParticles := deathParticles g @ fs\<rparr>) \<and>
        (\<forall>f \<in> set fs. freshFrag 0 f) \<and>
        map D_Pos fs = map (piecePos (P_Pos (player g))) (playerPieces (P_Facing (player g)))"
  unfolding createPlayerDeathParticles_def by (rule spawnPieces_effect)

lemma length_enemyPieces: "length (enemyPieces facing) = 6"
  by (simp add: enemyPieces_def)

lemma length_playerPieces: "length (playerPieces facing) = 7"
  by (simp add: playerPieces_def)

lemma createDecap_effect:
  "\<exists>h c. clrBlood (createDecap now e g) =
           clrBlood (g\<lparr>deathParticles := deathParticles g @ [h], corpses := corpses g @ [c],
                        nextEnemyID := wrap64 (nextEnemyID g + 1)\<rparr>) \<and>
         freshFrag (nextEnemyID g) h \<and> D_IsHead h \<and> D_IsRolling h \<and> \<not> D_FallsThrough h \<and>
         D_Pos h = \<lparr>X = X (E_Pos e) + 1, Y = Y (E_Pos e)\<rparr> \<and>
         C_Active c \<and> C_EnemyID c = nextEnemyID g \<and> C_Pos c = E_Pos e"
proof -
  let ?r = "rnd g"
  define head where "head = \<lparr>D_Pos = \<lparr>X = X (E_Pos e) + 1, Y = Y (E_Pos e) + 0\<rparr>,
                  D_Vel = \<lparr>X = cos (?r 3 * 2 * 3.14159) * (20 + ?r 4 * 30),
                           Y = - 15 - ?r 5 * 25 + sin (?r 3 * 2 * 3.14159) * (20 + ?r 4 * 30) * 0.5\<rparr>,
                  D_Char = CHR ''O'', D_OnGround = False, D_Bounces = 0, D_GroundTime = 0,
                  D_Active = True, D_EnemyID = nextEnemyID g, D_IsRed = True,
                  D_AngularVel = (?r 6 - 0.5) * 360, D_Angle = 0, D_FallsThrough = False,
                  D_IsHead = True, D_IsRolling = True, D_RollDistance = 20 + ?r 0 * 30,
                  D_RollSpeed = (let s = 40 + ?r 1 * 20 in if ?r 2 < 0.5 then - s else s),
                  D_BouncedFromPlatform = False, D_WasOnPlatform = False,
                  D_HasSplattedFromPlatform = False, D_LastBloodEmit = now,
                  D_HasHitGround = False\<rparr>"
  define g1 where "g1 = g\<lparr>nextEnemyID := wrap64 (nextEnemyID g + 1),
                 deathParticles := deathParticles g @ [head], rnd := dropRnd 7 ?r\<rparr>"
  define g2 where "g2 = emitBloodFromParticle head
      (min (sqrt (X (D_Vel head) * X (D_Vel head) + Y (D_Vel head) * Y (D_Vel head)) / 80) 1) True g1"
  define corp where "corp = \<lparr>C_Pos = \<lparr>X = X (E_Pos e), Y = Y (E_Pos e)\<rparr>,
                  C_Vel = E_Vel e, C_Facing = E_Facing e, C_OnGround = False, C_Active = True,
                  C_EnemyID = nextEnemyID g,
                  C_EndTime = now + (2 * Second + Intn 2000 (rnd g2 0) * Millisecond),
                  C_MoveDir = (if rnd g2 1 < 0.5 then - 1 else 1),
                  C_LastDirChange = now,
                  C_DirDuration = (200 + Intn 600 (rnd g2 2)) * Millisecond,
                  C_LastBloodEmit = now,
                  C_WasOnPlatform = enemyOnPlatform e g\<rparr>"
  have eq: "createDecap now e g = g2\<lparr>corpses := corpses g2 @ [corp], rnd := dropRnd 3 (rnd g2)\<rparr>"
    unfolding createDecap_def Let_def g2_def g1_def corp_def head_def by simp
  have f2: "clrBlood g2 = clrBlood g1" unfolding g2_def by (rule emitBlood_frame)
  have c2: "corpses g2 = corpses g" using clrBlood_fields(5)[OF f2] by (simp add: g1_def)
  have "clrBlood (createDecap now e g) = (clrBlood g2)\<lparr>corpses := corpses g @ [corp]\<rparr>"
    unfolding eq c2 by (simp add: clrBlood_def)
  also have "\<dots> = clrBlood (g\<lparr>deathParticles := deathParticles g @ [head], corpses := corpses g @ [corp],
                        nextEnemyID := wrap64 (nextEnemyID g + 1)\<rparr>)"
    unfolding f2 by (simp add: clrBlood_def g1_def)
  finally have a: "clrBlood (createDecap now e g) =
      clrBlood (g\<lparr>deathParticles := deathParticles g @ [head], corpses := corpses g @ [corp],
                        nextEnemyID := wrap64 (nextEnemyID g + 1)\<rparr>)" .
  have b: "freshFrag (nextEnemyID g) head \<and> D_IsHead head \<and> D_IsRolling head \<and> \<not> D_FallsThrough head \<and>
         D_Pos head = \<lparr>X = X (E_Pos e) + 1, Y = Y (E_Pos e)\<rparr>"
    by (simp add: head_def freshFrag_def)
  have c: "C_Active corp \<and> C_EnemyID corp = nextEnemyID g \<and> C_Pos corp = E_Pos e"
    by (simp add: corp_def)
  show ?thesis using a b c by blast
qed

lemma createDeathParticles_decap:
  "rnd g 0 < 0.1 \<Longrightarrow> createDeathParticles now e g = createDecap now e (g\<lparr>rnd := dropRnd 1 (rnd g)\<rparr>)"
  by (simp add: createDeathParticles_def Let_def)

lemma createDeathParticles_burst:
  "\<not> rnd g 0 < 0.1 \<Longrightarrow>
   \<exists>fs. clrBlood (createDeathParticles now e g) =
          clrBlood (g\<lparr>deathParticles := deathParticles g @ fs,
                      nextEnemyID := wrap64 (nextEnemyID g + 1)\<rparr>) \<and>
        (\<forall>f \<in> set fs. freshFrag (nextEnemyID g) f) \<and>
        map D_Pos fs = map (piecePos (E_Pos e)) (enemyPieces (E_Facing e))"
proof -
  assume a: "\<not> rnd g 0 < 0.1"
  let ?g1 = "g\<lparr>rnd := dropRnd 1 (rnd g), nextEnemyID := wrap64 (nextEnemyID g + 1)\<rparr>"
  have eq: "createDeathParticles now e g =
      fold (spawnPiece now (E_Pos e) (nextEnemyID g) (enemyOnPlatform e ?g1) (CHR ''O''))
           (enemyPieces (E_Facing e)) ?g1"
    using a by (simp add: createDeathParticles_def Let_def)
  obtain fs where fs: "clrBlood (createDeathParticles now e g) =
          clrBlood (?g1\<lparr>deathParticles := deathParticles ?g1 @ fs\<rparr>)"
      "\<forall>f \<in> set fs. freshFrag (nextEnemyID g) f"
      "map D_Pos fs = map (piecePos (E_Pos e)) (enemyPieces (E_Facing e))"
    unfolding eq using spawnPieces_effect by blast
  have "clrBlood (?g1\<lparr>deathParticles := deathParticles ?g1 @ fs\<rparr>) =
        clrBlood (g\<lparr>deathParticles := deathParticles g @ fs,
                      nextEnemyID := wrap64 (nextEnemyID g + 1)\<rparr>)"
    by (simp add: clrBlood_def)
  with fs(1) have "clrBlood (createDeathParticles now e g) =
        clrBlood (g\<lparr>deathParticles := deathParticles g @ fs,
                      nextEnemyID := wrap64 (nextEnemyID g + 1)\<rparr>)" by (rule trans)
  with fs(2,3) show ?thesis by blast
qed

lemma createDeathParticles_frame: "clrGore (createDeathParticles now e g) = clrGore g"
proof (cases "rnd g 0 < 0.1")
  case True
  let ?g0 = "g\<lparr>rnd := dropRnd 1 (rnd g)\<rparr>"
  obtain h c where hc: "clrBlood (createDecap now e ?g0) =
           clrBlood (?g0\<lparr>deathParticles := deathParticles ?g0 @ [h],
              corpses := corpses ?g0 @ [c],
              nextEnemyID := wrap64 (nextEnemyID ?g0 + 1)\<rparr>)"
    using createDecap_effect by blast
  have "clrGore (createDecap now e ?g0) =
      clrGore (?g0\<lparr>deathParticles := deathParticles ?g0 @ [h],
              corpses := corpses ?g0 @ [c],
              nextEnemyID := wrap64 (nextEnemyID ?g0 + 1)\<rparr>)"
    using hc by (rule clrBlood_clrGore)
  also have "\<dots> = clrGore g" by (simp add: clrGore_def clrBlood_def)
  finally show ?thesis using True by (simp only: createDeathParticles_decap)
next
  case False
  then obtain fs where "clrBlood (createDeathParticles now e g) =
          clrBlood (g\<lparr>deathParticles := deathParticles g @ fs,
                      nextEnemyID := wrap64 (nextEnemyID g + 1)\<rparr>)"
    using createDeathParticles_burst by blast
  then have "clrGore (createDeathParticles now e g) =
      clrGore (g\<lparr>deathParticles := deathParticles g @ fs,
                      nextEnemyID := wrap64 (nextEnemyID g + 1)\<rparr>)"
    by (rule clrBlood_clrGore)
  also have "\<dots> = clrGore g" by (simp add: clrGore_def clrBlood_def)
  finally show ?thesis .
qed

lemma arena_fields:
  "rnd arena = (\<lambda>_. 0)" "corpses arena = []" "deathParticles arena = []" "nextEnemyID arena = 1"
  "bloodParticles arena = []" "projectiles arena = []" "enemies arena = []" "platforms arena = []"
  "width arena = 80" "height arena = 24" "groundY arena = 23" "gameOver arena = False"
  "inMenu arena = False" "score arena = 0" "enemiesDefeated arena = 0" "enemySpawnCounter arena = 0"
  by (simp_all add: arena_def)

lemma calm_fields:
  "rnd calm = (\<lambda>_. 1 / 2)" "corpses calm = []" "deathParticles calm = []" "nextEnemyID calm = 1"
  by (simp_all add: calm_def arena_def)

section \<open>Corpses: what a step does\<close>

lemma corpseCollide_keeps:
  "C_Active (corpseCollide g c) = C_Active c" "C_EnemyID (corpseCollide g c) = C_EnemyID c"
  "C_EndTime (corpseCollide g c) = C_EndTime c" "C_Facing (corpseCollide g c) = C_Facing c"
  by (simp_all add: corpseCollide_def Let_def split: option.splits)

lemma corpseBounds_keeps:
  "C_Active (corpseBounds g c) = C_Active c" "C_EnemyID (corpseBounds g c) = C_EnemyID c"
  "C_EndTime (corpseBounds g c) = C_EndTime c" "C_Facing (corpseBounds g c) = C_Facing c"
  by (simp_all add: corpseBounds_def Let_def)

lemma corpseMove_keeps:
  "C_Active (fst (corpseMove now dt c g)) = C_Active c"
  "C_EnemyID (fst (corpseMove now dt c g)) = C_EnemyID c"
  "C_EndTime (fst (corpseMove now dt c g)) = C_EndTime c"
  "C_Facing (fst (corpseMove now dt c g)) = C_Facing c"
  by (simp_all add: corpseMove_def Let_def corpseCollide_keeps corpseBounds_keeps)

lemma corpseMove_frame: "clrBlood (snd (corpseMove now dt c g)) = clrBlood g"
  by (simp add: corpseMove_def Let_def clrBlood_def)

lemma corpseBleed_keeps:
  "C_Active (fst (corpseBleed now c g)) = C_Active c"
  "C_EnemyID (fst (corpseBleed now c g)) = C_EnemyID c"
  "C_EndTime (fst (corpseBleed now c g)) = C_EndTime c"
  "C_Facing (fst (corpseBleed now c g)) = C_Facing c"
  "C_Pos (fst (corpseBleed now c g)) = C_Pos c"
  by (simp_all add: corpseBleed_def Let_def)

lemma corpseBleed_frame: "clrBlood (snd (corpseBleed now c g)) = clrBlood g"
proof (cases "now - C_LastBloodEmit c \<ge> 80 * Millisecond")
  case True
  have "clrBlood (snd (corpseBleed now c g)) = clrBlood (g\<lparr>rnd := dropRnd 1 (rnd g)\<rparr>)"
    using True by (simp add: corpseBleed_def Let_def emitBlood_frame)
  also have "\<dots> = clrBlood g" by (simp add: clrBlood_def)
  finally show ?thesis .
next
  case False
  then show ?thesis by (simp add: corpseBleed_def)
qed

lemma corpseStep_inactive: "\<not> C_Active c \<Longrightarrow> corpseStep now dt c g = (c, g)"
  by (simp add: corpseStep_def)

lemma corpseStep_split:
  assumes "C_Active c"
  shows "corpseStep now dt c g =
         corpseExpire now (fst (corpseBleed now (fst (corpseMove now dt c g)) (snd (corpseMove now dt c g))))
                          (snd (corpseBleed now (fst (corpseMove now dt c g)) (snd (corpseMove now dt c g))))"
  using assms by (simp add: corpseStep_def split: prod.splits)

lemma corpseStep_keeps:
  "C_EnemyID (fst (corpseStep now dt c g)) = C_EnemyID c"
  "C_EndTime (fst (corpseStep now dt c g)) = C_EndTime c"
  "C_Facing (fst (corpseStep now dt c g)) = C_Facing c"
  "C_Active (fst (corpseStep now dt c g)) = (C_Active c \<and> \<not> now > C_EndTime c)"
  by (cases "C_Active c";
      simp add: corpseStep_inactive corpseStep_split corpseExpire_def corpseBleed_keeps corpseMove_keeps)+

lemma corpseStep_effect:
  "\<exists>fs. clrBlood (snd (corpseStep now dt c g)) = clrBlood (g\<lparr>deathParticles := deathParticles g @ fs\<rparr>) \<and>
        (\<forall>f \<in> set fs. freshFrag (C_EnemyID c) f) \<and>
        map D_Pos fs = (if expired now c
                        then map (piecePos (C_Pos (fst (corpseStep now dt c g)))) (enemyPieces (C_Facing c))
                        else [])"
proof (cases "C_Active c")
  case False
  have "clrBlood (snd (corpseStep now dt c g)) = clrBlood (g\<lparr>deathParticles := deathParticles g @ []\<rparr>)"
    using False by (simp add: corpseStep_inactive)
  moreover have "\<not> expired now c" using False by (simp add: expired_def)
  ultimately show ?thesis by (metis empty_iff list.set(1) list.simps(8))
next
  case True
  let ?m = "corpseMove now dt c g"
  let ?b = "corpseBleed now (fst ?m) (snd ?m)"
  have fb: "clrBlood (snd ?b) = clrBlood g"
    using corpseBleed_frame[of now "fst ?m" "snd ?m"] corpseMove_frame[of now dt c g] by simp
  show ?thesis
  proof (cases "now > C_EndTime c")
    case False
    have "snd (corpseStep now dt c g) = snd ?b" "\<not> expired now c"
      using True False
      by (simp_all add: corpseStep_split corpseExpire_def corpseBleed_keeps corpseMove_keeps expired_def)
    then have "clrBlood (snd (corpseStep now dt c g)) = clrBlood (g\<lparr>deathParticles := deathParticles g @ []\<rparr>)"
      using fb by simp
    then show ?thesis using \<open>\<not> expired now c\<close> by (metis empty_iff list.set(1) list.simps(8))
  next
    case ex: True
    let ?c2 = "fst ?b"
    have st: "corpseStep now dt c g =
        (?c2\<lparr>C_Active := False\<rparr>,
         createDeathParticlesAt now (C_Pos ?c2) (C_Facing ?c2) (C_EnemyID ?c2) (C_WasOnPlatform ?c2) (snd ?b))"
      using True ex
      by (simp add: corpseStep_split corpseExpire_def corpseBleed_keeps corpseMove_keeps)
    obtain fs where fs: "clrBlood (createDeathParticlesAt now (C_Pos ?c2) (C_Facing ?c2) (C_EnemyID ?c2) (C_WasOnPlatform ?c2) (snd ?b)) =
          clrBlood ((snd ?b)\<lparr>deathParticles := deathParticles (snd ?b) @ fs\<rparr>)"
        "\<forall>f \<in> set fs. freshFrag (C_EnemyID ?c2) f"
        "map D_Pos fs = map (piecePos (C_Pos ?c2)) (enemyPieces (C_Facing ?c2))"
      using createDeathParticlesAt_effect by blast
    have dp: "deathParticles (snd ?b) = deathParticles g" using clrBlood_fields(4)[OF fb] .
    have "clrBlood ((snd ?b)\<lparr>deathParticles := deathParticles (snd ?b) @ fs\<rparr>) =
          (clrBlood (snd ?b))\<lparr>deathParticles := deathParticles g @ fs\<rparr>"
      by (simp add: dp clrBlood_def)
    also have "\<dots> = clrBlood (g\<lparr>deathParticles := deathParticles g @ fs\<rparr>)"
      by (simp add: fb) (simp add: clrBlood_def)
    finally have 1: "clrBlood (snd (corpseStep now dt c g)) = clrBlood (g\<lparr>deathParticles := deathParticles g @ fs\<rparr>)"
      using fs(1) st by simp
    have 2: "\<forall>f \<in> set fs. freshFrag (C_EnemyID c) f"
      using fs(2) by (simp add: corpseBleed_keeps corpseMove_keeps)
    have 3: "map D_Pos fs = map (piecePos (C_Pos (fst (corpseStep now dt c g)))) (enemyPieces (C_Facing c))"
      using fs(3) st by (simp add: corpseBleed_keeps corpseMove_keeps)
    have "expired now c" using True ex by (simp add: expired_def)
    then show ?thesis using 1 2 3 by auto
  qed
qed

lemma corpsesLoop_effect:
  "\<exists>fs. clrBlood (snd (forEach (corpseStep now dt) cs g)) =
          clrBlood (g\<lparr>deathParticles := deathParticles g @ fs\<rparr>) \<and>
        map D_EnemyID fs = concat (map (\<lambda>c. replicate 6 (C_EnemyID c)) (filter (expired now) cs)) \<and>
        (\<forall>f \<in> set fs. D_Active f \<and> D_Bounces f = 0 \<and> \<not> D_OnGround f)"
proof (induction cs arbitrary: g)
  case Nil
  have "clrBlood g = clrBlood (g\<lparr>deathParticles := deathParticles g @ []\<rparr>)" by simp
  then show ?case by (metis forEach.simps(1) snd_conv concat.simps(1) list.simps(8) filter.simps(1) empty_iff list.set(1))
next
  case (Cons c cs)
  let ?s = "corpseStep now dt c g"
  obtain fs1 where fs1: "clrBlood (snd ?s) = clrBlood (g\<lparr>deathParticles := deathParticles g @ fs1\<rparr>)"
      "\<forall>f \<in> set fs1. freshFrag (C_EnemyID c) f"
      "map D_Pos fs1 = (if expired now c
                        then map (piecePos (C_Pos (fst ?s))) (enemyPieces (C_Facing c))
                        else [])"
    using corpseStep_effect by blast
  obtain fs2 where fs2: "clrBlood (snd (forEach (corpseStep now dt) cs (snd ?s))) =
          clrBlood ((snd ?s)\<lparr>deathParticles := deathParticles (snd ?s) @ fs2\<rparr>)"
      "map D_EnemyID fs2 = concat (map (\<lambda>c. replicate 6 (C_EnemyID c)) (filter (expired now) cs))"
      "\<forall>f \<in> set fs2. D_Active f \<and> D_Bounces f = 0 \<and> \<not> D_OnGround f"
    using Cons.IH[of "snd ?s"] by blast
  have dp: "deathParticles (snd ?s) = deathParticles g @ fs1"
    using clrBlood_fields(4)[OF fs1(1)] by simp
  have "clrBlood ((snd ?s)\<lparr>deathParticles := deathParticles (snd ?s) @ fs2\<rparr>) =
        (clrBlood (snd ?s))\<lparr>deathParticles := deathParticles g @ (fs1 @ fs2)\<rparr>"
    by (simp add: dp clrBlood_def)
  also have "\<dots> = clrBlood (g\<lparr>deathParticles := deathParticles g @ (fs1 @ fs2)\<rparr>)"
    by (simp add: fs1(1)) (simp add: clrBlood_def)
  finally have 1: "clrBlood (snd (forEach (corpseStep now dt) (c # cs) g)) =
      clrBlood (g\<lparr>deathParticles := deathParticles g @ (fs1 @ fs2)\<rparr>)"
    using fs2(1) by (simp only: forEach_Cons)
  have len: "length fs1 = (if expired now c then 6 else 0)"
    using arg_cong[OF fs1(3), of length] by (simp add: length_enemyPieces)
  have "map D_EnemyID fs1 = replicate (length fs1) (C_EnemyID c)"
    using fs1(2) by (simp add: freshFrag_def map_replicate_const[symmetric] cong: map_cong)
  then have ids: "map D_EnemyID fs1 = (if expired now c then replicate 6 (C_EnemyID c) else [])"
    using len by simp
  have 2: "map D_EnemyID (fs1 @ fs2) =
      concat (map (\<lambda>c. replicate 6 (C_EnemyID c)) (filter (expired now) (c # cs)))"
    using ids fs2(2) by simp
  have 3: "\<forall>f \<in> set (fs1 @ fs2). D_Active f \<and> D_Bounces f = 0 \<and> \<not> D_OnGround f"
    using fs1(2) fs2(3) by (auto simp: freshFrag_def)
  show ?case using 1 2 3 by blast
qed

lemma corpsesLoop_corpses:
  "list_all2 (\<lambda>c c'. C_EnemyID c' = C_EnemyID c \<and> C_EndTime c' = C_EndTime c \<and>
                      (\<not> C_Active c \<longrightarrow> c' = c) \<and>
                      C_Active c' = (C_Active c \<and> \<not> now > C_EndTime c))
             cs (fst (forEach (corpseStep now dt) cs g))"
proof -
  have "True \<and> list_all2 (\<lambda>c c'. C_EnemyID c' = C_EnemyID c \<and> C_EndTime c' = C_EndTime c \<and>
                      (\<not> C_Active c \<longrightarrow> c' = c) \<and>
                      C_Active c' = (C_Active c \<and> \<not> now > C_EndTime c))
             cs (fst (forEach (corpseStep now dt) cs g))"
    by (rule forEach_inv[where I = "\<lambda>_. True"]) (simp_all add: corpseStep_keeps corpseStep_inactive)
  then show ?thesis by simp
qed

section \<open>Fragments: what a step may touch\<close>

lemma airEmit_frame: "clrBlood (snd (airEmit now p g)) = clrBlood g"
  by (simp add: airEmit_def Let_def emitBlood_frame)

lemma platformLand_frame: "clrBlood (snd (platformLand now pl p g)) = clrBlood g"
  by (simp add: platformLand_def Let_def impactEmit_frame)

lemma platformCollide_frame: "clrBlood (snd (platformCollide now p g)) = clrBlood g"
  by (simp add: platformCollide_def platformLand_frame split: option.splits prod.splits)
     (metis platformLand_frame snd_conv)

lemma groundBounce_frame: "clrBlood (snd (groundBounce p g)) = clrBlood g"
  by (simp add: groundBounce_def Let_def impactEmit_frame)

lemma groundSettle_frame: "clrBlood (snd (groundSettle now p g)) = clrBlood g"
  by (simp add: groundSettle_def Let_def impactEmit_frame split: prod.splits)

lemma groundNormal_frame: "clrBlood (snd (groundNormal now gY p g)) = clrBlood g"
  by (simp add: groundNormal_def Let_def impactEmit_frame groundBounce_frame groundSettle_frame
           split: prod.splits)

lemma groundCollide_frame: "clrBlood (snd (groundCollide now onPl p g)) = clrBlood g"
  by (simp add: groundCollide_def Let_def impactEmit_frame groundNormal_frame)

lemma rollHead_frame: "clrBlood (snd (rollHead now dt p g)) = clrBlood g"
  by (simp add: rollHead_def Let_def emitBlood_frame split: prod.splits)

lemma particleStep_frame: "clrBlood (snd (particleStep now dt p g)) = clrBlood g"
proof (cases "D_Active p")
  case False
  then show ?thesis by (simp add: particleStep_def)
next
  case True
  obtain p1 g1 where a: "airEmit now p g = (p1, g1)" by (cases "airEmit now p g")
  obtain p2 onPl g2 where b: "platformCollide now (gravityMove dt p1) g1 = ((p2, onPl), g2)"
    by (cases "platformCollide now (gravityMove dt p1) g1") auto
  obtain p3 g3 where c: "groundCollide now onPl p2 g2 = (p3, g3)" by (cases "groundCollide now onPl p2 g2")
  obtain p4 g4 where d: "rollHead now dt (offBottom g3 p3) g3 = (p4, g4)"
    by (cases "rollHead now dt (offBottom g3 p3) g3")
  have "clrBlood g1 = clrBlood g" using airEmit_frame[of now p g] a by simp
  moreover have "clrBlood g2 = clrBlood g1" using platformCollide_frame[of now "gravityMove dt p1" g1] b by simp
  moreover have "clrBlood g3 = clrBlood g2" using groundCollide_frame[of now onPl p2 g2] c by simp
  moreover have "clrBlood g4 = clrBlood g3" using rollHead_frame[of now dt "offBottom g3 p3" g3] d by simp
  ultimately have "clrBlood g4 = clrBlood g" by simp
  then show ?thesis using True a b c d by (simp add: particleStep_def)
qed

section \<open>Fragments: the bounce counter and settling\<close>

lemma wrap64_small: "0 \<le> n \<Longrightarrow> n < 2 ^ 63 \<Longrightarrow> wrap64 n = n"
  by (simp add: wrap64_def)

lemma airEmit_fragOK: "fragOK p \<Longrightarrow> fragOK (fst (airEmit now p g))"
  by (simp add: airEmit_def Let_def fragOK_def)

lemma gravityMove_fragOK: "fragOK p \<Longrightarrow> fragOK (gravityMove dt p)"
  by (auto simp: gravityMove_def Let_def fragOK_def)

lemma settledExpire_fragOK: "fragOK p \<Longrightarrow> fragOK (settledExpire now p)"
  by (auto simp: settledExpire_def Let_def fragOK_def)

lemma platformLand_fragOK: "fragOK p \<Longrightarrow> fragOK (fst (platformLand now pl p g))"
  by (auto simp: platformLand_def Let_def fragOK_def wrap64_small)

lemma platformCollide_fragOK: "fragOK p \<Longrightarrow> fragOK (fst (fst (platformCollide now p g)))"
  by (auto simp: platformCollide_def settledExpire_fragOK split: option.splits prod.splits
           dest: platformLand_fragOK[where now = now and g = g])
     (metis fst_conv platformLand_fragOK settledExpire_fragOK)+

lemma groundBounce_fragOK:
  "fragOK p \<Longrightarrow> D_Bounces p < 2 \<Longrightarrow> fragOK (fst (groundBounce p g))"
  by (auto simp: groundBounce_def Let_def fragOK_def wrap64_small)

lemma groundSettle_fragOK: "fragOK p \<Longrightarrow> fragOK (fst (groundSettle now p g))"
  by (auto simp: groundSettle_def Let_def fragOK_def split: prod.splits if_splits)

lemma groundRest_fragOK: "fragOK p \<Longrightarrow> Y (D_Vel p) = 0 \<Longrightarrow> fragOK (groundRest now p)"
  unfolding groundRest_def Let_def
  by (rule settledExpire_fragOK) (auto simp: fragOK_def)

lemma groundNormal_fragOK: "fragOK p \<Longrightarrow> fragOK (fst (groundNormal now gY p g))"
proof -
  assume a: "fragOK p"
  let ?p1 = "p\<lparr>D_Pos := (D_Pos p)\<lparr>Y := gY\<rparr>\<rparr>"
  let ?p2 = "if \<not> D_HasHitGround ?p1 \<and> Y (D_Vel ?p1) > 0
             then ?p1\<lparr>D_HasHitGround := True, D_LastBloodEmit := now\<rparr> else ?p1"
  let ?g2 = "if \<not> D_HasHitGround ?p1 \<and> Y (D_Vel ?p1) > 0 then impactEmit ?p1 g else g"
  have ok: "fragOK ?p2" using a by (simp add: fragOK_def)
  have eq: "groundNormal now gY p g =
        (if Y (D_Vel ?p2) > 0
         then (if D_Bounces ?p2 < 2 \<and> Y (D_Vel ?p2) > 20 then groundBounce ?p2 ?g2
               else groundSettle now ?p2 ?g2)
         else if Y (D_Vel ?p2) = 0 then (groundRest now ?p2, ?g2)
         else (?p2, ?g2))"
    by (simp add: groundNormal_def Let_def)
  show ?thesis unfolding eq
    using ok groundBounce_fragOK[of ?p2 ?g2] groundSettle_fragOK[of ?p2 now ?g2] groundRest_fragOK[of ?p2 now]
    by (simp del: fragOK_def)
qed

lemma groundCollide_fragOK: "fragOK p \<Longrightarrow> fragOK (fst (groundCollide now onPl p g))"
  using groundNormal_fragOK[of p now "real_of_int (groundY g - 1)" g]
  by (auto simp: groundCollide_def Let_def) (auto simp: fragOK_def)

lemma offBottom_fragOK: "fragOK p \<Longrightarrow> fragOK (offBottom g p)"
  by (simp add: offBottom_def fragOK_def)

lemma offSides_fragOK: "fragOK p \<Longrightarrow> fragOK (offSides g p)"
  by (simp add: offSides_def fragOK_def)

lemma rollHead_fragOK: "fragOK p \<Longrightarrow> fragOK (fst (rollHead now dt p g))"
  by (auto simp: rollHead_def Let_def fragOK_def split: prod.splits if_splits)

lemma particleStep_fragOK: "fragOK p \<Longrightarrow> fragOK (fst (particleStep now dt p g))"
proof (cases "D_Active p")
  case False
  assume "fragOK p"
  then show ?thesis using False by (simp add: particleStep_def)
next
  case True
  assume ok: "fragOK p"
  obtain p1 g1 where a: "airEmit now p g = (p1, g1)" by (cases "airEmit now p g")
  obtain p2 onPl g2 where b: "platformCollide now (gravityMove dt p1) g1 = ((p2, onPl), g2)"
    by (cases "platformCollide now (gravityMove dt p1) g1") auto
  obtain p3 g3 where c: "groundCollide now onPl p2 g2 = (p3, g3)" by (cases "groundCollide now onPl p2 g2")
  obtain p4 g4 where d: "rollHead now dt (offBottom g3 p3) g3 = (p4, g4)"
    by (cases "rollHead now dt (offBottom g3 p3) g3")
  have "fragOK p1" using airEmit_fragOK[OF ok, of now g] a by simp
  then have "fragOK (gravityMove dt p1)" by (rule gravityMove_fragOK)
  then have "fragOK p2" using platformCollide_fragOK[of "gravityMove dt p1" now g1] b by simp
  then have "fragOK p3" using groundCollide_fragOK[of p2 now onPl g2] c by simp
  then have "fragOK (offBottom g3 p3)" by (rule offBottom_fragOK)
  then have "fragOK p4" using rollHead_fragOK[of "offBottom g3 p3" now dt g3] d by simp
  then have "fragOK (offSides g4 p4)" by (rule offSides_fragOK)
  then show ?thesis using True a b c d by (simp add: particleStep_def)
qed

section \<open>The debris update as a whole\<close>

lemma clrTiles_fields:
  assumes "clrTiles g' = clrTiles g"
  shows "deathParticles g' = deathParticles g" "bloodParticles g' = bloodParticles g"
    "corpses g' = corpses g" "rnd g' = rnd g" "nextEnemyID g' = nextEnemyID g"
    "gameOver g' = gameOver g" "width g' = width g" "height g' = height g"
    "groundY g' = groundY g" "platforms g' = platforms g"
proof -
  show "deathParticles g' = deathParticles g" using arg_cong[OF assms, of deathParticles] by (simp add: clrTiles_def)
  show "bloodParticles g' = bloodParticles g" using arg_cong[OF assms, of bloodParticles] by (simp add: clrTiles_def)
  show "corpses g' = corpses g" using arg_cong[OF assms, of corpses] by (simp add: clrTiles_def)
  show "rnd g' = rnd g" using arg_cong[OF assms, of rnd] by (simp add: clrTiles_def)
  show "nextEnemyID g' = nextEnemyID g" using arg_cong[OF assms, of nextEnemyID] by (simp add: clrTiles_def)
  show "gameOver g' = gameOver g" using arg_cong[OF assms, of gameOver] by (simp add: clrTiles_def)
  show "width g' = width g" using arg_cong[OF assms, of width] by (simp add: clrTiles_def)
  show "height g' = height g" using arg_cong[OF assms, of height] by (simp add: clrTiles_def)
  show "groundY g' = groundY g" using arg_cong[OF assms, of groundY] by (simp add: clrTiles_def)
  show "platforms g' = platforms g" using arg_cong[OF assms, of platforms] by (simp add: clrTiles_def)
qed

lemma clrTiles_clrGore: "clrTiles g' = clrTiles g \<Longrightarrow> clrGore g' = clrGore g"
proof -
  assume a: "clrTiles g' = clrTiles g"
  have "clrGore g' = (clrBlood (clrTiles g'))\<lparr>deathParticles := [], corpses := [], nextEnemyID := 0\<rparr>"
    by (simp add: clrGore_def clrBlood_def clrTiles_def)
  also have "\<dots> = (clrBlood (clrTiles g))\<lparr>deathParticles := [], corpses := [], nextEnemyID := 0\<rparr>"
    by (simp only: a)
  also have "\<dots> = clrGore g" by (simp add: clrGore_def clrBlood_def clrTiles_def)
  finally show ?thesis .
qed

lemma clrShots_fields:
  assumes "clrShots g' = clrShots g"
  shows "deathParticles g' = deathParticles g" "bloodParticles g' = bloodParticles g"
    "corpses g' = corpses g" "enemies g' = enemies g" "nextEnemyID g' = nextEnemyID g"
    "gameOver g' = gameOver g" "inMenu g' = inMenu g" "player g' = player g"
    "enemySpawnCounter g' = enemySpawnCounter g" "enemiesDefeated g' = enemiesDefeated g"
    "width g' = width g" "height g' = height g" "groundY g' = groundY g" "platforms g' = platforms g"
    "score g' = score g" "redGroundTiles g' = redGroundTiles g" "redPlatformTiles g' = redPlatformTiles g"
proof -
  show "deathParticles g' = deathParticles g" using arg_cong[OF assms, of deathParticles] by (simp add: clrShots_def)
  show "bloodParticles g' = bloodParticles g" using arg_cong[OF assms, of bloodParticles] by (simp add: clrShots_def)
  show "corpses g' = corpses g" using arg_cong[OF assms, of corpses] by (simp add: clrShots_def)
  show "enemies g' = enemies g" using arg_cong[OF assms, of enemies] by (simp add: clrShots_def)
  show "nextEnemyID g' = nextEnemyID g" using arg_cong[OF assms, of nextEnemyID] by (simp add: clrShots_def)
  show "gameOver g' = gameOver g" using arg_cong[OF assms, of gameOver] by (simp add: clrShots_def)
  show "inMenu g' = inMenu g" using arg_cong[OF assms, of inMenu] by (simp add: clrShots_def)
  show "player g' = player g" using arg_cong[OF assms, of player] by (simp add: clrShots_def)
  show "enemySpawnCounter g' = enemySpawnCounter g" using arg_cong[OF assms, of enemySpawnCounter] by (simp add: clrShots_def)
  show "enemiesDefeated g' = enemiesDefeated g" using arg_cong[OF assms, of enemiesDefeated] by (simp add: clrShots_def)
  show "width g' = width g" using arg_cong[OF assms, of width] by (simp add: clrShots_def)
  show "height g' = height g" using arg_cong[OF assms, of height] by (simp add: clrShots_def)
  show "groundY g' = groundY g" using arg_cong[OF assms, of groundY] by (simp add: clrShots_def)
  show "platforms g' = platforms g" using arg_cong[OF assms, of platforms] by (simp add: clrShots_def)
  show "score g' = score g" using arg_cong[OF assms, of score] by (simp add: clrShots_def)
  show "redGroundTiles g' = redGroundTiles g" using arg_cong[OF assms, of redGroundTiles] by (simp add: clrShots_def)
  show "redPlatformTiles g' = redPlatformTiles g" using arg_cong[OF assms, of redPlatformTiles] by (simp add: clrShots_def)
qed

lemma freshFrag_fragOK: "freshFrag eid d \<Longrightarrow> fragOK d"
  by (simp add: freshFrag_def fragOK_def)

lemma fragsOK_append:
  "fragsOK g \<Longrightarrow> deathParticles g' = deathParticles g @ fs \<Longrightarrow> \<forall>f \<in> set fs. fragOK f \<Longrightarrow> fragsOK g'"
  by (auto simp: fragsOK_def)

lemma updateCorpses_loop:
  "corpses g \<noteq> [] \<Longrightarrow>
   updateCorpses now dt g =
     (snd (forEach (corpseStep now dt) (corpses g) g))\<lparr>corpses := fst (forEach (corpseStep now dt) (corpses g) g)\<rparr>"
  by (simp add: updateCorpses_def split: prod.splits)

lemma updateCorpses_frame: "clrGore (updateCorpses now dt g) = clrGore g"
proof (cases "corpses g = []")
  case True
  then show ?thesis by (simp add: updateCorpses_def)
next
  case False
  obtain fs where fs: "clrBlood (snd (forEach (corpseStep now dt) (corpses g) g)) =
          clrBlood (g\<lparr>deathParticles := deathParticles g @ fs\<rparr>)"
    using corpsesLoop_effect by blast
  have "clrGore (snd (forEach (corpseStep now dt) (corpses g) g)) =
        clrGore (g\<lparr>deathParticles := deathParticles g @ fs\<rparr>)"
    using fs by (rule clrBlood_clrGore)
  also have "\<dots> = clrGore g" by (simp add: clrGore_def clrBlood_def)
  finally have "clrGore (snd (forEach (corpseStep now dt) (corpses g) g)) = clrGore g" .
  moreover have "clrGore (updateCorpses now dt g) = clrGore (snd (forEach (corpseStep now dt) (corpses g) g))"
    unfolding updateCorpses_loop[OF False] by (simp add: clrGore_def clrBlood_def)
  ultimately show ?thesis by simp
qed

lemma updateCorpses_fragsOK: "fragsOK g \<Longrightarrow> fragsOK (updateCorpses now dt g)"
proof (cases "corpses g = []")
  case True
  assume "fragsOK g"
  then show ?thesis using True by (simp add: updateCorpses_def)
next
  case False
  assume ok: "fragsOK g"
  obtain fs where fs: "clrBlood (snd (forEach (corpseStep now dt) (corpses g) g)) =
          clrBlood (g\<lparr>deathParticles := deathParticles g @ fs\<rparr>)"
        "\<forall>f \<in> set fs. D_Active f \<and> D_Bounces f = 0 \<and> \<not> D_OnGround f"
    using corpsesLoop_effect by blast
  have "deathParticles (updateCorpses now dt g) = deathParticles g @ fs"
    unfolding updateCorpses_loop[OF False] using clrBlood_fields(4)[OF fs(1)] by simp
  moreover have "\<forall>f \<in> set fs. fragOK f" using fs(2) by (simp add: fragOK_def)
  ultimately show ?thesis using ok by (rule fragsOK_append[rotated])
qed

lemma settledExpire_id:
  "D_EnemyID (settledExpire now p) = D_EnemyID p" "D_FallsThrough (settledExpire now p) = D_FallsThrough p"
  by (simp_all add: settledExpire_def Let_def)

lemma particleStep_id:
  "D_EnemyID (fst (particleStep now dt p g)) = D_EnemyID p \<and>
   D_FallsThrough (fst (particleStep now dt p g)) = D_FallsThrough p"
proof (cases "D_Active p")
  case False
  then show ?thesis by (simp add: particleStep_def)
next
  case True
  define K where "K = (\<lambda>q::DeathParticle. D_EnemyID q = D_EnemyID p \<and> D_FallsThrough q = D_FallsThrough p)"
  have k0: "K p" by (simp add: K_def)
  have kA: "\<And>q g. K q \<Longrightarrow> K (fst (airEmit now q g))"
    by (simp add: K_def airEmit_def Let_def)
  have kG: "\<And>q. K q \<Longrightarrow> K (gravityMove dt q)"
    by (simp add: K_def gravityMove_def Let_def)
  have kL: "\<And>q pl g. K q \<Longrightarrow> K (fst (platformLand now pl q g))"
    by (simp add: K_def platformLand_def Let_def)
  have kS: "\<And>q. K q \<Longrightarrow> K (settledExpire now q)"
    by (simp add: K_def settledExpire_id)
  have kP: "\<And>q g. K q \<Longrightarrow> K (fst (fst (platformCollide now q g)))"
  proof -
    fix q g assume q: "K q"
    show "K (fst (fst (platformCollide now q g)))"
    proof (cases "find (isOnPlatform q) (platforms g)")
      case None
      then show ?thesis using q by (simp add: platformCollide_def)
    next
      case (Some pl)
      then have "fst (fst (platformCollide now q g)) =
        (if D_OnGround (fst (platformLand now pl q g)) \<and> Y (D_Vel (fst (platformLand now pl q g))) = 0
         then settledExpire now (fst (platformLand now pl q g)) else fst (platformLand now pl q g))"
        by (simp add: platformCollide_def split: prod.splits)
      then show ?thesis using kL[OF q, of pl g] kS by simp
    qed
  qed
  have kB: "\<And>q g. K q \<Longrightarrow> K (fst (groundBounce q g))"
    by (simp add: K_def groundBounce_def Let_def)
  have kT: "\<And>q g. K q \<Longrightarrow> K (fst (groundSettle now q g))"
    by (simp add: K_def groundSettle_def Let_def split: prod.splits)
  have kR: "\<And>q. K q \<Longrightarrow> K (groundRest now q)"
    unfolding groundRest_def Let_def by (rule kS) (simp add: K_def)
  have kN: "\<And>q gY g. K q \<Longrightarrow> K (fst (groundNormal now gY q g))"
  proof -
    fix q gY g assume q: "K q"
    let ?p1 = "q\<lparr>D_Pos := (D_Pos q)\<lparr>Y := gY\<rparr>\<rparr>"
    let ?p2 = "if \<not> D_HasHitGround ?p1 \<and> Y (D_Vel ?p1) > 0
               then ?p1\<lparr>D_HasHitGround := True, D_LastBloodEmit := now\<rparr> else ?p1"
    let ?g2 = "if \<not> D_HasHitGround ?p1 \<and> Y (D_Vel ?p1) > 0 then impactEmit ?p1 g else g"
    have ok: "K ?p2" using q by (simp add: K_def)
    have eq: "groundNormal now gY q g =
        (if Y (D_Vel ?p2) > 0
         then (if D_Bounces ?p2 < 2 \<and> Y (D_Vel ?p2) > 20 then groundBounce ?p2 ?g2
               else groundSettle now ?p2 ?g2)
         else if Y (D_Vel ?p2) = 0 then (groundRest now ?p2, ?g2)
         else (?p2, ?g2))"
      by (simp add: groundNormal_def Let_def)
    show "K (fst (groundNormal now gY q g))" unfolding eq
      using ok kB[of ?p2 ?g2] kT[of ?p2 ?g2] kR[of ?p2] by simp
  qed
  have kC: "\<And>q onPl g. K q \<Longrightarrow> K (fst (groundCollide now onPl q g))"
  proof -
    fix q onPl g assume q: "K q"
    then have "K (q\<lparr>D_Bounces := 999\<rparr>)" by (simp add: K_def)
    then show "K (fst (groundCollide now onPl q g))"
      using q kN[OF q, of "real_of_int (groundY g - 1)" g] by (simp add: groundCollide_def Let_def)
  qed
  have kO: "\<And>q g. K q \<Longrightarrow> K (offBottom g q)" by (simp add: K_def offBottom_def)
  have kH: "\<And>q g. K q \<Longrightarrow> K (fst (rollHead now dt q g))"
    by (simp add: K_def rollHead_def Let_def split: prod.splits)
  have kF: "\<And>q g. K q \<Longrightarrow> K (offSides g q)" by (simp add: K_def offSides_def)
  obtain p1 g1 where a: "airEmit now p g = (p1, g1)" by (cases "airEmit now p g")
  obtain p2 onPl g2 where b: "platformCollide now (gravityMove dt p1) g1 = ((p2, onPl), g2)"
    by (cases "platformCollide now (gravityMove dt p1) g1") auto
  obtain p3 g3 where c: "groundCollide now onPl p2 g2 = (p3, g3)" by (cases "groundCollide now onPl p2 g2")
  obtain p4 g4 where d: "rollHead now dt (offBottom g3 p3) g3 = (p4, g4)"
    by (cases "rollHead now dt (offBottom g3 p3) g3")
  have "K p1" using kA[OF k0, of g] a by simp
  then have "K (gravityMove dt p1)" by (rule kG)
  then have "K p2" using kP[of "gravityMove dt p1" g1] b by simp
  then have "K p3" using kC[of p2 onPl g2] c by simp
  then have "K (offBottom g3 p3)" by (rule kO)
  then have "K p4" using kH[of "offBottom g3 p3" g3] d by simp
  then have "K (offSides g4 p4)" by (rule kF)
  then show ?thesis using True a b c d by (simp add: particleStep_def K_def)
qed

lemma particlesLoop:
  "clrBlood (snd (forEach (particleStep now dt) ps g)) = clrBlood g \<and>
   list_all2 (\<lambda>p p'. (fragOK p \<longrightarrow> fragOK p') \<and> D_EnemyID p' = D_EnemyID p)
             ps (fst (forEach (particleStep now dt) ps g))"
proof (rule forEach_inv[where I = "\<lambda>s. clrBlood s = clrBlood g"])
  show "clrBlood g = clrBlood g" by simp
next
  fix x s
  assume "clrBlood s = clrBlood g"
  moreover have "D_EnemyID (fst (particleStep now dt x s)) = D_EnemyID x"
    using particleStep_id by simp
  ultimately show "clrBlood (snd (particleStep now dt x s)) = clrBlood g \<and>
       ((fragOK x \<longrightarrow> fragOK (fst (particleStep now dt x s))) \<and>
        D_EnemyID (fst (particleStep now dt x s)) = D_EnemyID x)"
    using particleStep_frame[of now dt x s] particleStep_fragOK[of x now dt s] by simp
qed

lemma list_all2_pred:
  "list_all2 R xs ys \<Longrightarrow> (\<And>x y. R x y \<Longrightarrow> P x \<Longrightarrow> Q y) \<Longrightarrow> \<forall>x \<in> set xs. P x \<Longrightarrow> \<forall>y \<in> set ys. Q y"
  by (induction rule: list_all2_induct) auto

lemma updateDeathParticles_split:
  "updateDeathParticles now dt g =
     (let g1 = updateCorpses now dt g;
          g2 = (if gameOver g1
                then g1\<lparr>deathParticles := filter (\<lambda>p. D_EnemyID p = 0) (deathParticles g1)\<rparr>
                else g1);
          l = forEach (particleStep now dt) (deathParticles g2) g2
      in (snd l)\<lparr>deathParticles := filter D_Active (fst l)\<rparr>)"
  by (simp add: updateDeathParticles_def Let_def split: prod.splits)

lemma updateDeathParticles_frame: "clrGore (updateDeathParticles now dt g) = clrGore g"
proof -
  define g1 where "g1 = updateCorpses now dt g"
  define g2 where "g2 = (if gameOver g1
             then g1\<lparr>deathParticles := filter (\<lambda>p. D_EnemyID p = 0) (deathParticles g1)\<rparr> else g1)"
  define l where "l = forEach (particleStep now dt) (deathParticles g2) g2"
  have eq: "updateDeathParticles now dt g = (snd l)\<lparr>deathParticles := filter D_Active (fst l)\<rparr>"
    unfolding updateDeathParticles_split g1_def g2_def l_def Let_def ..
  have "clrGore g2 = clrGore g1" unfolding g2_def by (simp add: clrGore_def clrBlood_def)
  then have 2: "clrGore g2 = clrGore g" unfolding g1_def using updateCorpses_frame[of now dt g] by simp
  have "clrBlood (snd l) = clrBlood g2" unfolding l_def using particlesLoop by blast
  then have "clrGore (snd l) = clrGore g2" by (rule clrBlood_clrGore)
  moreover have "clrGore ((snd l)\<lparr>deathParticles := filter D_Active (fst l)\<rparr>) = clrGore (snd l)"
    by (simp add: clrGore_def clrBlood_def)
  ultimately show ?thesis unfolding eq using 2 by simp
qed

lemma updateDeathParticles_frags:
  "(fragsOK g \<longrightarrow> fragsOK (updateDeathParticles now dt g)) \<and>
   (gameOver g \<longrightarrow> (\<forall>p \<in> set (deathParticles (updateDeathParticles now dt g)). D_EnemyID p = 0))"
proof -
  define g1 where "g1 = updateCorpses now dt g"
  define g2 where "g2 = (if gameOver g1
             then g1\<lparr>deathParticles := filter (\<lambda>p. D_EnemyID p = 0) (deathParticles g1)\<rparr> else g1)"
  define l where "l = forEach (particleStep now dt) (deathParticles g2) g2"
  have "updateDeathParticles now dt g = (snd l)\<lparr>deathParticles := filter D_Active (fst l)\<rparr>"
    unfolding updateDeathParticles_split g1_def g2_def l_def Let_def ..
  then have eq: "deathParticles (updateDeathParticles now dt g) = filter D_Active (fst l)"
    by simp
  have la: "list_all2 (\<lambda>p p'. (fragOK p \<longrightarrow> fragOK p') \<and> D_EnemyID p' = D_EnemyID p)
             (deathParticles g2) (fst l)"
    unfolding l_def using particlesLoop by blast
  have go: "gameOver g1 = gameOver g" unfolding g1_def using clrGore_fields(8)[OF updateCorpses_frame] .
  have a: "fragsOK g \<longrightarrow> fragsOK (updateDeathParticles now dt g)"
  proof
    assume "fragsOK g"
    then have "fragsOK g1" unfolding g1_def by (rule updateCorpses_fragsOK)
    then have "\<forall>p \<in> set (deathParticles g2). fragOK p" by (simp add: fragsOK_def g2_def)
    then have "\<forall>p \<in> set (fst l). fragOK p"
      using list_all2_pred[OF la, of fragOK fragOK] by blast
    then show "fragsOK (updateDeathParticles now dt g)" by (simp add: fragsOK_def eq)
  qed
  have b: "gameOver g \<longrightarrow> (\<forall>p \<in> set (deathParticles (updateDeathParticles now dt g)). D_EnemyID p = 0)"
  proof
    assume "gameOver g"
    then have "\<forall>p \<in> set (deathParticles g2). D_EnemyID p = 0" using go by (simp add: g2_def)
    then have "\<forall>p \<in> set (fst l). D_EnemyID p = 0"
      using list_all2_pred[OF la, of "\<lambda>p. D_EnemyID p = 0" "\<lambda>p. D_EnemyID p = 0"] by simp
    then show "\<forall>p \<in> set (deathParticles (updateDeathParticles now dt g)). D_EnemyID p = 0"
      by (simp add: eq)
  qed
  show ?thesis using a b by simp
qed

section \<open>Blood particles and opponents: what an update may touch\<close>

lemma bloodHit_frame: "clrTiles (snd (bloodHit b g)) = clrTiles g"
  by (simp add: bloodHit_def Let_def markPlatformRed_def markGroundRed_def clrTiles_def
           split: option.splits prod.splits)

lemma bloodStep_split:
  "bloodStep dt b g =
     (if \<not> B_Active b then (b, g)
      else (bloodExpire dt (snd (bloodHit (bloodMove dt b) g)) (fst (bloodHit (bloodMove dt b) g)),
            snd (bloodHit (bloodMove dt b) g)))"
  by (simp add: bloodStep_def split: prod.splits)

lemma bloodStep_frame: "clrTiles (snd (bloodStep dt b g)) = clrTiles g"
  by (simp add: bloodStep_split bloodHit_frame)

lemma bloodStep_id: "B_EnemyID (fst (bloodStep dt b g)) = B_EnemyID b"
proof -
  have "B_EnemyID (fst (bloodHit (bloodMove dt b) g)) = B_EnemyID b"
    by (simp add: bloodHit_def bloodMove_def Let_def split: option.splits prod.splits)
  moreover have "B_EnemyID (bloodExpire dt g' b') = B_EnemyID b'" for g' b'
    by (simp add: bloodExpire_def Let_def)
  ultimately show ?thesis by (simp add: bloodStep_split)
qed

lemma bloodLoop:
  "clrTiles (snd (forEach (bloodStep dt) bs g)) = clrTiles g \<and>
   list_all2 (\<lambda>b b'. B_EnemyID b' = B_EnemyID b) bs (fst (forEach (bloodStep dt) bs g))"
proof (rule forEach_inv[where I = "\<lambda>s. clrTiles s = clrTiles g"])
  show "clrTiles g = clrTiles g" by simp
next
  fix x s
  assume "clrTiles s = clrTiles g"
  then show "clrTiles (snd (bloodStep dt x s)) = clrTiles g \<and>
       B_EnemyID (fst (bloodStep dt x s)) = B_EnemyID x"
    using bloodStep_frame[of dt x s] bloodStep_id[of dt x s] by simp
qed

lemma updateBloodParticles_split:
  "updateBloodParticles dt g =
     (let g1 = (if gameOver g
                then g\<lparr>bloodParticles := filter (\<lambda>b. B_EnemyID b = 0) (bloodParticles g)\<rparr>
                else g);
          l = forEach (bloodStep dt) (bloodParticles g1) g1
      in (snd l)\<lparr>bloodParticles := filter B_Active (fst l)\<rparr>)"
  by (simp add: updateBloodParticles_def Let_def split: prod.splits)

lemma updateBloodParticles_effect:
  "clrGore (updateBloodParticles dt g) = clrGore g \<and>
   deathParticles (updateBloodParticles dt g) = deathParticles g \<and>
   corpses (updateBloodParticles dt g) = corpses g \<and>
   (gameOver g \<longrightarrow> (\<forall>b \<in> set (bloodParticles (updateBloodParticles dt g)). B_EnemyID b = 0))"
proof -
  define g1 where "g1 = (if gameOver g
                then g\<lparr>bloodParticles := filter (\<lambda>b. B_EnemyID b = 0) (bloodParticles g)\<rparr>
                else g)"
  define l where "l = forEach (bloodStep dt) (bloodParticles g1) g1"
  have eq: "updateBloodParticles dt g = (snd l)\<lparr>bloodParticles := filter B_Active (fst l)\<rparr>"
    unfolding updateBloodParticles_split g1_def l_def Let_def ..
  have fl: "clrTiles (snd l) = clrTiles g1"
    and la: "list_all2 (\<lambda>b b'. B_EnemyID b' = B_EnemyID b) (bloodParticles g1) (fst l)"
    unfolding l_def using bloodLoop by blast+
  have g1: "clrGore g1 = clrGore g" "deathParticles g1 = deathParticles g" "corpses g1 = corpses g"
    unfolding g1_def by (simp_all add: clrGore_def clrBlood_def)
  have "clrGore (snd l) = clrGore g1" using fl by (rule clrTiles_clrGore)
  moreover have "clrGore ((snd l)\<lparr>bloodParticles := filter B_Active (fst l)\<rparr>) = clrGore (snd l)"
    by (simp add: clrGore_def clrBlood_def)
  ultimately have 1: "clrGore (updateBloodParticles dt g) = clrGore g" unfolding eq using g1(1) by simp
  have 2: "deathParticles (updateBloodParticles dt g) = deathParticles g"
    unfolding eq using clrTiles_fields(1)[OF fl] g1(2) by simp
  have 3: "corpses (updateBloodParticles dt g) = corpses g"
    unfolding eq using clrTiles_fields(3)[OF fl] g1(3) by simp
  have 4: "gameOver g \<longrightarrow> (\<forall>b \<in> set (bloodParticles (updateBloodParticles dt g)). B_EnemyID b = 0)"
  proof
    assume "gameOver g"
    then have "\<forall>b \<in> set (bloodParticles g1). B_EnemyID b = 0" by (simp add: g1_def)
    then have "\<forall>b \<in> set (fst l). B_EnemyID b = 0"
      using list_all2_pred[OF la, of "\<lambda>b. B_EnemyID b = 0" "\<lambda>b. B_EnemyID b = 0"] by simp
    then show "\<forall>b \<in> set (bloodParticles (updateBloodParticles dt g)). B_EnemyID b = 0"
      by (simp add: eq)
  qed
  show ?thesis using 1 2 3 4 by simp
qed

lemma checkAndClearRedTiles_frame: "clrTiles (checkAndClearRedTiles g) = clrTiles g"
  by (simp add: checkAndClearRedTiles_def Let_def clrTiles_def)

lemma enemyStep_frame: "clrShots (snd (enemyStep now dt e g)) = clrShots g"
proof -
  have "clrShots (snd (enemyShoot now e' g)) = clrShots g" for e'
    by (simp add: enemyShoot_def Let_def clrShots_def)
  then show ?thesis
    by (simp add: enemyStep_def split: prod.splits) (metis snd_conv)
qed

lemma enemyStep_gameOver:
  "gameOver g \<Longrightarrow> enemyStep now dt e g =
     ((if E_Active e then enemyFall dt g (enemyLeave dt g e) else e), g)"
  by (simp add: enemyStep_def)

lemma enemiesLoop_frame: "clrShots (snd (forEach (enemyStep now dt) es g)) = clrShots g"
proof -
  have "clrShots (snd (forEach (enemyStep now dt) es g)) = clrShots g \<and>
        list_all2 (\<lambda>_ _. True) es (fst (forEach (enemyStep now dt) es g))"
    by (rule forEach_inv[where I = "\<lambda>s. clrShots s = clrShots g"])
       (simp_all add: enemyStep_frame)
  then show ?thesis by simp
qed

lemma enemiesLoop_gameOver:
  "gameOver g \<Longrightarrow> forEach (enemyStep now dt) es g =
     (map (\<lambda>e. if E_Active e then enemyFall dt g (enemyLeave dt g e) else e) es, g)"
  by (induction es) (simp_all add: enemyStep_gameOver)

lemma updateEnemies_split:
  "updateEnemies now dt g =
     (let l = forEach (enemyStep now dt) (enemies g) g;
          g2 = (snd l)\<lparr>enemies := filter E_Active (fst l)\<rparr>
      in if gameOver g2 then g2
         else if rnd g2 0 < spawnRate g2 then spawnEnemy (g2\<lparr>rnd := dropRnd 1 (rnd g2)\<rparr>)
         else g2\<lparr>rnd := dropRnd 1 (rnd g2)\<rparr>)"
  by (simp add: updateEnemies_def Let_def split: prod.splits)

lemma updateEnemies_effect:
  "deathParticles (updateEnemies now dt g) = deathParticles g \<and>
   bloodParticles (updateEnemies now dt g) = bloodParticles g \<and>
   corpses (updateEnemies now dt g) = corpses g \<and>
   gameOver (updateEnemies now dt g) = gameOver g \<and>
   inMenu (updateEnemies now dt g) = inMenu g \<and>
   ((enemySpawnCounter (updateEnemies now dt g) = enemySpawnCounter g) \<or>
    (enemySpawnCounter (updateEnemies now dt g) = wrap64 (enemySpawnCounter g + 1) \<and>
     enemies (updateEnemies now dt g) \<noteq> [] \<and>
     E_CanShoot (last (enemies (updateEnemies now dt g))) = (goRem (enemySpawnCounter g) 2 = 1)))"
proof -
  define l where "l = forEach (enemyStep now dt) (enemies g) g"
  define g2 where "g2 = (snd l)\<lparr>enemies := filter E_Active (fst l)\<rparr>"
  have eq: "updateEnemies now dt g =
      (if gameOver g2 then g2
         else if rnd g2 0 < spawnRate g2 then spawnEnemy (g2\<lparr>rnd := dropRnd 1 (rnd g2)\<rparr>)
         else g2\<lparr>rnd := dropRnd 1 (rnd g2)\<rparr>)"
    unfolding updateEnemies_split l_def g2_def Let_def ..
  have fl: "clrShots (snd l) = clrShots g" unfolding l_def by (rule enemiesLoop_frame)
  note f = clrShots_fields[OF fl]
  have g2: "deathParticles g2 = deathParticles g" "bloodParticles g2 = bloodParticles g"
    "corpses g2 = corpses g" "gameOver g2 = gameOver g" "inMenu g2 = inMenu g"
    "enemySpawnCounter g2 = enemySpawnCounter g"
    using f by (simp_all add: g2_def)
  show ?thesis
  proof (cases "\<not> gameOver g2 \<and> rnd g2 0 < spawnRate g2")
    case False
    then have "updateEnemies now dt g = g2 \<or> updateEnemies now dt g = g2\<lparr>rnd := dropRnd 1 (rnd g2)\<rparr>"
      unfolding eq by auto
    then show ?thesis using g2 by auto
  next
    case True
    then have "updateEnemies now dt g = spawnEnemy (g2\<lparr>rnd := dropRnd 1 (rnd g2)\<rparr>)"
      unfolding eq by simp
    then show ?thesis using g2 by (simp add: spawnEnemy_def Let_def)
  qed
qed

lemma updateEnemies_gameOver:
  "gameOver g \<Longrightarrow> updateEnemies now dt g =
     g\<lparr>enemies := filter E_Active
          (map (\<lambda>e. if E_Active e then enemyFall dt g (enemyLeave dt g e) else e) (enemies g))\<rparr>"
  by (simp add: updateEnemies_split enemiesLoop_gameOver Let_def)

section \<open>The collision resolver: what it may touch\<close>

lemma createDeathParticles_fragsOK: "fragsOK g \<Longrightarrow> fragsOK (createDeathParticles now e g)"
proof (cases "rnd g 0 < 0.1")
  case True
  assume ok: "fragsOK g"
  let ?g0 = "g\<lparr>rnd := dropRnd 1 (rnd g)\<rparr>"
  obtain h c where hc: "clrBlood (createDecap now e ?g0) =
           clrBlood (?g0\<lparr>deathParticles := deathParticles ?g0 @ [h], corpses := corpses ?g0 @ [c],
                        nextEnemyID := wrap64 (nextEnemyID ?g0 + 1)\<rparr>)"
     "freshFrag (nextEnemyID ?g0) h"
    using createDecap_effect[of now e ?g0] by blast
  have "deathParticles (createDeathParticles now e g) = deathParticles g @ [h]"
    unfolding createDeathParticles_decap[OF True] using clrBlood_fields(4)[OF hc(1)] by simp
  moreover have "\<forall>f \<in> set [h]. fragOK f" using freshFrag_fragOK[OF hc(2)] by simp
  ultimately show ?thesis using ok by (rule fragsOK_append[rotated])
next
  case False
  assume ok: "fragsOK g"
  obtain fs where fs: "clrBlood (createDeathParticles now e g) =
          clrBlood (g\<lparr>deathParticles := deathParticles g @ fs,
                      nextEnemyID := wrap64 (nextEnemyID g + 1)\<rparr>)"
        "\<forall>f \<in> set fs. freshFrag (nextEnemyID g) f"
    using createDeathParticles_burst[OF False] by blast
  have "deathParticles (createDeathParticles now e g) = deathParticles g @ fs"
    using clrBlood_fields(4)[OF fs(1)] by simp
  moreover have "\<forall>f \<in> set fs. fragOK f" using fs(2) freshFrag_fragOK by blast
  ultimately show ?thesis using ok by (rule fragsOK_append[rotated])
qed

lemma createPlayerDeathParticles_fragsOK: "fragsOK g \<Longrightarrow> fragsOK (createPlayerDeathParticles now g)"
proof -
  assume ok: "fragsOK g"
  obtain fs where fs: "clrBlood (createPlayerDeathParticles now g) =
          clrBlood (g\<lparr>deathParticles := deathParticles g @ fs\<rparr>)"
        "\<forall>f \<in> set fs. freshFrag 0 f"
    using createPlayerDeathParticles_effect by blast
  have "deathParticles (createPlayerDeathParticles now g) = deathParticles g @ fs"
    using clrBlood_fields(4)[OF fs(1)] by simp
  moreover have "\<forall>f \<in> set fs. fragOK f" using fs(2) freshFrag_fragOK by blast
  ultimately show ?thesis using ok by (rule fragsOK_append[rotated])
qed

lemma createPlayerDeathParticles_frame: "clrGore (createPlayerDeathParticles now g) = clrGore g"
proof -
  obtain fs where fs: "clrBlood (createPlayerDeathParticles now g) =
          clrBlood (g\<lparr>deathParticles := deathParticles g @ fs\<rparr>)"
    using createPlayerDeathParticles_effect by blast
  then have "clrGore (createPlayerDeathParticles now g) = clrGore (g\<lparr>deathParticles := deathParticles g @ fs\<rparr>)"
    by (rule clrBlood_clrGore)
  also have "\<dots> = clrGore g" by (simp add: clrGore_def clrBlood_def)
  finally show ?thesis .
qed

lemma projectileKill_effect:
  "clrFight (snd (projectileKill now pr g)) = clrFight g \<and>
   (fragsOK g \<longrightarrow> fragsOK (snd (projectileKill now pr g)))"
proof (cases "\<not> Pr_Active pr \<or> Pr_IsEnemy pr")
  case True
  then show ?thesis by (simp add: projectileKill_def)
next
  case False
  show ?thesis
  proof (cases "hitFirst (sweptHit pr) (enemies g)")
    case None
    then show ?thesis using False by (simp add: projectileKill_def)
  next
    case (Some a)
    obtain es e where a: "a = (es, e)" by (cases a)
    define g1 where "g1 = createDeathParticles now e g"
    have eq: "snd (projectileKill now pr g) =
        g1\<lparr>enemies := es, score := wrap64 (score g + 10),
           enemiesDefeated := wrap64 (enemiesDefeated g + 1)\<rparr>"
      using False Some a by (simp add: projectileKill_def g1_def)
    have "clrFight g1 = clrFight g"
      unfolding g1_def using createDeathParticles_frame by (rule clrGore_clrFight)
    moreover have "clrFight (g1\<lparr>enemies := es, score := wrap64 (score g + 10),
           enemiesDefeated := wrap64 (enemiesDefeated g + 1)\<rparr>) = clrFight g1"
      by (simp add: clrFight_def clrGore_def clrBlood_def)
    ultimately have 1: "clrFight (snd (projectileKill now pr g)) = clrFight g" unfolding eq by simp
    have "fragsOK g \<longrightarrow> fragsOK g1" unfolding g1_def using createDeathParticles_fragsOK by blast
    then have 2: "fragsOK g \<longrightarrow> fragsOK (snd (projectileKill now pr g))"
      unfolding eq by (simp add: fragsOK_def)
    show ?thesis using 1 2 by simp
  qed
qed

lemma menuKill_effect:
  "clrFight (snd (menuKill now pr g)) = clrFight g \<and>
   (fragsOK g \<longrightarrow> fragsOK (snd (menuKill now pr g)))"
proof (cases "\<not> Pr_Active pr \<or> Pr_IsEnemy pr")
  case True
  then show ?thesis by (simp add: menuKill_def)
next
  case False
  show ?thesis
  proof (cases "hitFirst (pointHit pr) (enemies g)")
    case None
    then show ?thesis using False by (simp add: menuKill_def)
  next
    case (Some a)
    obtain es e where a: "a = (es, e)" by (cases a)
    define g1 where "g1 = createDeathParticles now e g"
    have eq: "snd (menuKill now pr g) = g1\<lparr>enemies := es\<rparr>"
      using False Some a by (simp add: menuKill_def g1_def)
    have "clrFight g1 = clrFight g"
      unfolding g1_def using createDeathParticles_frame by (rule clrGore_clrFight)
    moreover have "clrFight (g1\<lparr>enemies := es\<rparr>) = clrFight g1"
      by (simp add: clrFight_def clrGore_def clrBlood_def)
    ultimately have 1: "clrFight (snd (menuKill now pr g)) = clrFight g" unfolding eq by simp
    have "fragsOK g \<longrightarrow> fragsOK g1" unfolding g1_def using createDeathParticles_fragsOK by blast
    then have 2: "fragsOK g \<longrightarrow> fragsOK (snd (menuKill now pr g))"
      unfolding eq by (simp add: fragsOK_def)
    show ?thesis using 1 2 by simp
  qed
qed

lemma killLoop_effect:
  assumes "\<And>pr g. clrFight (snd (f pr g)) = clrFight g \<and> (fragsOK g \<longrightarrow> fragsOK (snd (f pr g)))"
  shows "clrFight (snd (forEach f prs g)) = clrFight g \<and>
         (fragsOK g \<longrightarrow> fragsOK (snd (forEach f prs g)))"
proof -
  have "(clrFight (snd (forEach f prs g)) = clrFight g \<and> (fragsOK g \<longrightarrow> fragsOK (snd (forEach f prs g)))) \<and>
        list_all2 (\<lambda>_ _. True) prs (fst (forEach f prs g))"
    by (rule forEach_inv[where I = "\<lambda>s. clrFight s = clrFight g \<and> (fragsOK g \<longrightarrow> fragsOK s)"])
       (use assms in auto)
  then show ?thesis by simp
qed

lemma checkCollisions_effect:
  "clrFight (checkCollisions now g) = clrFight g \<and>
   (fragsOK g \<longrightarrow> fragsOK (checkCollisions now g))"
proof (cases "playerDefeated g")
  case True
  have "clrFight (createPlayerDeathParticles now g) = clrFight g"
    using createPlayerDeathParticles_frame by (rule clrGore_clrFight)
  moreover have "clrFight ((createPlayerDeathParticles now g)\<lparr>gameOver := True\<rparr>) =
                 clrFight (createPlayerDeathParticles now g)"
    by (simp add: clrFight_def clrGore_def clrBlood_def)
  moreover have "fragsOK g \<longrightarrow> fragsOK ((createPlayerDeathParticles now g)\<lparr>gameOver := True\<rparr>)"
    using createPlayerDeathParticles_fragsOK[of g now] by (simp add: fragsOK_def)
  ultimately show ?thesis using True by (simp add: checkCollisions_def)
next
  case False
  define l where "l = forEach (projectileKill now) (projectiles g) g"
  have eq: "checkCollisions now g = (snd l)\<lparr>projectiles := fst l\<rparr>"
    using False by (simp add: checkCollisions_def l_def split: prod.splits)
  have k: "clrFight (snd l) = clrFight g \<and> (fragsOK g \<longrightarrow> fragsOK (snd l))"
    unfolding l_def by (rule killLoop_effect) (rule projectileKill_effect)
  have "clrFight ((snd l)\<lparr>projectiles := fst l\<rparr>) = clrFight (snd l)"
    by (simp add: clrFight_def clrGore_def clrBlood_def)
  moreover have "fragsOK (snd l) \<longrightarrow> fragsOK ((snd l)\<lparr>projectiles := fst l\<rparr>)"
    by (simp add: fragsOK_def)
  ultimately show ?thesis unfolding eq using k by simp
qed

lemma updatePlayer_frame: "clrFight (updatePlayer now dt g) = clrFight (g\<lparr>player := player (updatePlayer now dt g)\<rparr>)"
  by (simp add: updatePlayer_def)

lemma updatePlayer_fields:
  "deathParticles (updatePlayer now dt g) = deathParticles g"
  "enemySpawnCounter (updatePlayer now dt g) = enemySpawnCounter g"
  "inMenu (updatePlayer now dt g) = inMenu g"
  "gameOver (updatePlayer now dt g) = gameOver g"
  by (simp_all add: updatePlayer_def)

lemma updateProjectiles_fields:
  "deathParticles (updateProjectiles dt g) = deathParticles g"
  "enemySpawnCounter (updateProjectiles dt g) = enemySpawnCounter g"
  "inMenu (updateProjectiles dt g) = inMenu g"
  "gameOver (updateProjectiles dt g) = gameOver g"
  "enemies (updateProjectiles dt g) = enemies g"
  "bloodParticles (updateProjectiles dt g) = bloodParticles g"
  "gameOver g \<Longrightarrow> projectiles (updateProjectiles dt g) = []"
  by (simp_all add: updateProjectiles_def)

section \<open>A whole tick\<close>

lemma debris_effect:
  "clrGore (checkAndClearRedTiles (updateBloodParticles dt (updateDeathParticles now dt g))) = clrGore g \<and>
   (fragsOK g \<longrightarrow> fragsOK (checkAndClearRedTiles (updateBloodParticles dt (updateDeathParticles now dt g)))) \<and>
   (gameOver g \<longrightarrow>
      (\<forall>p \<in> set (deathParticles (checkAndClearRedTiles (updateBloodParticles dt (updateDeathParticles now dt g)))).
         D_EnemyID p = 0) \<and>
      (\<forall>b \<in> set (bloodParticles (checkAndClearRedTiles (updateBloodParticles dt (updateDeathParticles now dt g)))).
         B_EnemyID b = 0))"
proof -
  define g1 where "g1 = updateDeathParticles now dt g"
  define g2 where "g2 = updateBloodParticles dt g1"
  define g3 where "g3 = checkAndClearRedTiles g2"
  have f1: "clrGore g1 = clrGore g" unfolding g1_def by (rule updateDeathParticles_frame)
  have b: "clrGore g2 = clrGore g1" "deathParticles g2 = deathParticles g1"
      "gameOver g1 \<longrightarrow> (\<forall>b \<in> set (bloodParticles g2). B_EnemyID b = 0)"
    unfolding g2_def using updateBloodParticles_effect[of dt g1] by simp_all
  have f3: "clrTiles g3 = clrTiles g2" unfolding g3_def by (rule checkAndClearRedTiles_frame)
  have d3: "deathParticles g3 = deathParticles g1" "bloodParticles g3 = bloodParticles g2"
    using clrTiles_fields(1,2)[OF f3] b(2) by simp_all
  have go: "gameOver g1 = gameOver g" using clrGore_fields(8)[OF f1] .
  have 1: "clrGore g3 = clrGore g" using clrTiles_clrGore[OF f3] b(1) f1 by simp
  have 2: "fragsOK g \<longrightarrow> fragsOK g3"
    using updateDeathParticles_frags[of g now dt] d3(1) by (simp add: fragsOK_def g1_def)
  have 3: "gameOver g \<longrightarrow> (\<forall>p \<in> set (deathParticles g3). D_EnemyID p = 0)"
    using updateDeathParticles_frags[of g now dt] d3(1) by (simp add: g1_def)
  have 4: "gameOver g \<longrightarrow> (\<forall>b \<in> set (bloodParticles g3). B_EnemyID b = 0)"
    using b(3) go d3(2) by simp
  show ?thesis using 1 2 3 4 unfolding g3_def g2_def g1_def by simp
qed

lemma update_ingame:
  "\<not> inMenu g \<Longrightarrow> update now dt g =
     checkAndClearRedTiles (updateBloodParticles dt (updateDeathParticles now dt
       (updateEnemies now dt (updateProjectiles dt
          (if \<not> gameOver g then checkCollisions now (updatePlayer now dt g) else g)))))"
  by (simp add: update_def Let_def)

lemma update_ingame_fragsOK:
  assumes "\<not> inMenu g" "fragsOK g"
  shows "fragsOK (update now dt g)"
proof -
  define g1 where "g1 = (if \<not> gameOver g then checkCollisions now (updatePlayer now dt g) else g)"
  define g3 where "g3 = updateEnemies now dt (updateProjectiles dt g1)"
  have "fragsOK (updatePlayer now dt g)" using assms(2) by (simp add: fragsOK_def updatePlayer_fields)
  then have "fragsOK g1" unfolding g1_def using checkCollisions_effect assms(2) by simp
  then have "fragsOK g3" unfolding g3_def
    using updateEnemies_effect[of now dt "updateProjectiles dt g1"]
    by (simp add: fragsOK_def updateProjectiles_fields)
  then show ?thesis
    unfolding update_ingame[OF assms(1)] g3_def[symmetric] g1_def[symmetric]
    using debris_effect[of dt now g3] by simp
qed

lemma updateMenu_fragsOK:
  assumes "fragsOK g"
  shows "fragsOK (updateMenu now dt g)"
proof -
  define g1 where "g1 = menuSpawn now (menuPlayer now g)"
  define g2 where "g2 = g1\<lparr>enemies := filter E_Active (map (menuEnemyStep dt g1) (enemies g1))\<rparr>"
  define g3 where "g3 = updateProjectiles dt g2"
  define l where "l = forEach (menuKill now) (projectiles g3) g3"
  define g4 where "g4 = (snd l)\<lparr>projectiles := fst l\<rparr>"
  have eq: "updateMenu now dt g =
      checkAndClearRedTiles (updateBloodParticles dt (updateDeathParticles now dt g4))"
    unfolding updateMenu_def Let_def g1_def g2_def g3_def l_def g4_def
    by (simp split: prod.splits)
  have "deathParticles (menuPlayer now g) = deathParticles g"
    by (simp add: menuPlayer_def Let_def)
  then have "deathParticles g1 = deathParticles g"
    unfolding g1_def by (simp add: menuSpawn_def Let_def)
  then have "fragsOK g3" using assms
    unfolding g3_def g2_def by (simp add: fragsOK_def updateProjectiles_fields)
  then have "fragsOK (snd l)"
    unfolding l_def using killLoop_effect[where f = "menuKill now" and g = g3 and prs = "projectiles g3", OF menuKill_effect]
    by simp
  then have "fragsOK g4" unfolding g4_def by (simp add: fragsOK_def)
  then show ?thesis unfolding eq using debris_effect[of dt now g4] by simp
qed

lemma update_fragsOK: "fragsOK g \<Longrightarrow> fragsOK (update now dt g)"
  by (cases "inMenu g") (simp_all add: update_ingame_fragsOK, simp add: update_def updateMenu_fragsOK)

lemma handleInput_fragsOK: "fragsOK g \<Longrightarrow> fragsOK (handleInput now ev g)"
proof -
  assume ok: "fragsOK g"
  have s: "fragsOK (startGame now g)"
    by (simp add: startGame_def Let_def fragsOK_def split: prod.splits)
  have r: "fragsOK (restartGame now g)"
    by (simp add: restartGame_def Let_def fragsOK_def split: prod.splits)
  have t: "fragsOK (toggleBlood g)" using ok by (simp add: toggleBlood_def fragsOK_def)
  show ?thesis
    using ok s r t by (cases ev) (simp_all add: handleInput_def fragsOK_def)
qed

lemma resize_fragsOK: "fragsOK g \<Longrightarrow> fragsOK (resize w h g)"
  by (simp add: resize_def Let_def fragsOK_def)

lemma frame_fragsOK: "fragsOK g \<Longrightarrow> fragsOK (frame now dt ev g)"
  unfolding frame_def applyInput_def
  by (rule update_fragsOK) (auto split: option.splits Input.splits intro: handleInput_fragsOK resize_fragsOK)

lemma runFrames_fragsOK: "fragsOK g \<Longrightarrow> fragsOK (runFrames fs g)"
proof (induction fs arbitrary: g)
  case Nil
  then show ?case by simp
next
  case (Cons a fs)
  obtain now dt ev where a: "a = (now, dt, ev)" by (cases a)
  show ?case unfolding a runFrames.simps
    by (rule Cons.IH) (rule frame_fragsOK[OF Cons.prems])
qed

lemma NewGame_fragsOK: "fragsOK (NewGame w h now r)"
  by (simp add: NewGame_def Let_def fragsOK_def split: prod.splits)

section \<open>Evaluating a tick after the defeat\<close>

lemma emitBlood_geo:
  "platforms (emitBloodFromParticle p i b g) = platforms g"
  "groundY (emitBloodFromParticle p i b g) = groundY g"
  "height (emitBloodFromParticle p i b g) = height g"
  "width (emitBloodFromParticle p i b g) = width g"
  using clrBlood_fields[OF emitBlood_frame[of p i b g]] by simp_all

lemma impactEmit_geo:
  "platforms (impactEmit p g) = platforms g"
  "groundY (impactEmit p g) = groundY g"
  "height (impactEmit p g) = height g"
  "width (impactEmit p g) = width g"
  by (simp_all add: impactEmit_def Let_def emitBlood_geo)

lemma shard_step:
  "platforms g = [] \<Longrightarrow> groundY g = 23 \<Longrightarrow> height g = 24 \<Longrightarrow> width g = 80 \<Longrightarrow>
   fst (particleStep 0 (1 / 30) shard g) =
     shard\<lparr>D_Pos := \<lparr>X = 10, Y = 21.9 + 1 / 3\<rparr>, D_Vel := \<lparr>X = 0, Y = 10\<rparr>, D_Bounces := 999\<rparr>"
  by (simp add: particleStep_def airEmit_def gravityMove_def platformCollide_def groundCollide_def
        offBottom_def rollHead_def offSides_def rollingNow_def shard_def Let_def impactEmit_geo)

lemma updateDeathParticles_single:
  assumes "corpses g = []" "deathParticles g = [p]" "gameOver g \<longrightarrow> D_EnemyID p = 0"
  shows "deathParticles (updateDeathParticles now dt g) = filter D_Active [fst (particleStep now dt p g)]"
proof -
  have c: "updateCorpses now dt g = g" using assms(1) by (simp add: updateCorpses_def)
  have "(if gameOver g then g\<lparr>deathParticles := filter (\<lambda>p. D_EnemyID p = 0) (deathParticles g)\<rparr> else g) = g"
    using assms(2,3) by simp
  then show ?thesis
    unfolding updateDeathParticles_split c Let_def using assms(2) by (simp split: prod.splits)
qed


lemma debris_frags:
  "deathParticles (checkAndClearRedTiles (updateBloodParticles dt g)) = deathParticles g"
  using clrTiles_fields(1)[OF checkAndClearRedTiles_frame, of "updateBloodParticles dt g"]
        updateBloodParticles_effect[of dt g]
  by simp

lemma update_gameOver:
  assumes "gameOver g" "\<not> inMenu g"
  shows "update now dt g =
     checkAndClearRedTiles (updateBloodParticles dt (updateDeathParticles now dt
       (g\<lparr>projectiles := [],
          enemies := filter E_Active
             (map (\<lambda>e. if E_Active e
                        then enemyFall dt (g\<lparr>projectiles := []\<rparr>) (enemyLeave dt (g\<lparr>projectiles := []\<rparr>) e)
                        else e) (enemies g))\<rparr>)))"
proof -
  have "updateEnemies now dt (updateProjectiles dt g) =
      g\<lparr>projectiles := [],
          enemies := filter E_Active
             (map (\<lambda>e. if E_Active e
                        then enemyFall dt (g\<lparr>projectiles := []\<rparr>) (enemyLeave dt (g\<lparr>projectiles := []\<rparr>) e)
                        else e) (enemies g))\<rparr>"
    using assms(1) by (simp add: updateProjectiles_def updateEnemies_gameOver)
  then show ?thesis using assms by (simp add: update_ingame)
qed

lemma ruin_fields:
  "gameOver ruin" "\<not> inMenu ruin" "deathParticles ruin = [shard]" "corpses ruin = []"
  "enemies ruin = []" "platforms ruin = []" "groundY ruin = 23" "height ruin = 24" "width ruin = 80"
  by (simp_all add: ruin_def arena_def)

lemma ruin_update:
  "deathParticles (update 0 (1 / 30) ruin) =
     [shard\<lparr>D_Pos := \<lparr>X = 10, Y = 21.9 + 1 / 3\<rparr>, D_Vel := \<lparr>X = 0, Y = 10\<rparr>, D_Bounces := 999\<rparr>]"
proof -
  let ?g = "ruin\<lparr>projectiles := [],
          enemies := filter E_Active
             (map (\<lambda>e. if E_Active e
                        then enemyFall (1 / 30) (ruin\<lparr>projectiles := []\<rparr>) (enemyLeave (1 / 30) (ruin\<lparr>projectiles := []\<rparr>) e)
                        else e) (enemies ruin))\<rparr>"
  have "deathParticles (update 0 (1 / 30) ruin) = deathParticles (updateDeathParticles 0 (1 / 30) ?g)"
    unfolding update_gameOver[OF ruin_fields(1,2)] by (rule debris_frags)
  also have "\<dots> = filter D_Active [fst (particleStep 0 (1 / 30) shard ?g)]"
    by (rule updateDeathParticles_single) (simp_all add: ruin_fields shard_def)
  also have "fst (particleStep 0 (1 / 30) shard ?g) =
      shard\<lparr>D_Pos := \<lparr>X = 10, Y = 21.9 + 1 / 3\<rparr>, D_Vel := \<lparr>X = 0, Y = 10\<rparr>, D_Bounces := 999\<rparr>"
    by (rule shard_step) (simp_all add: ruin_fields)
  finally show ?thesis by (simp add: shard_def)
qed

section \<open>A fragment in the air\<close>

lemma airEmit_geo:
  "platforms (snd (airEmit now p g)) = platforms g"
  "groundY (snd (airEmit now p g)) = groundY g"
  "height (snd (airEmit now p g)) = height g"
  "width (snd (airEmit now p g)) = width g"
  using clrBlood_fields[OF airEmit_frame[of now p g]] by simp_all

lemma airEmit_keeps:
  "fst (airEmit now p g) = p\<lparr>D_LastBloodEmit := D_LastBloodEmit (fst (airEmit now p g))\<rparr>"
  by (simp add: airEmit_def Let_def)

lemma gravityMove_emitTime:
  "gravityMove dt (p\<lparr>D_LastBloodEmit := t\<rparr>) = (gravityMove dt p)\<lparr>D_LastBloodEmit := t\<rparr>"
  by (simp add: gravityMove_def Let_def)

lemma isOnPlatform_emitTime: "isOnPlatform (p\<lparr>D_LastBloodEmit := t\<rparr>) pl = isOnPlatform p pl"
  by (simp add: isOnPlatform_def Let_def)

lemma find_None_all: "(\<forall>x \<in> set xs. \<not> P x) \<Longrightarrow> find P xs = None"
  by (simp add: find_None_iff)

text \<open>A piece in the air that touches no platform: the step up to the ground check.\<close>

lemma particleStep_air:
  assumes "D_Active p"
    and "\<forall>pl \<in> set (platforms g). \<not> isOnPlatform (gravityMove dt p) pl"
  shows "particleStep now dt p g =
     (let a = airEmit now p g;
          c = groundCollide now False (gravityMove dt (fst a)) (snd a);
          r = rollHead now dt (offBottom (snd c) (fst c)) (snd c)
      in (offSides (snd r) (fst r), snd r))"
proof -
  obtain p1 g1 where a: "airEmit now p g = (p1, g1)" by (cases "airEmit now p g")
  have p1: "p1 = p\<lparr>D_LastBloodEmit := D_LastBloodEmit p1\<rparr>"
    using airEmit_keeps[of now p g] a by simp
  have pl: "platforms g1 = platforms g" using airEmit_geo(1)[of now p g] a by simp
  have "\<forall>pl \<in> set (platforms g1). \<not> isOnPlatform (gravityMove dt p1) pl"
    using assms(2) pl by (subst p1) (simp add: gravityMove_emitTime isOnPlatform_emitTime)
  then have f: "find (isOnPlatform (gravityMove dt p1)) (platforms g1) = None"
    by (rule find_None_all)
  have pc: "platformCollide now (gravityMove dt p1) g1 = ((gravityMove dt p1, False), g1)"
    using f by (simp add: platformCollide_def)
  show ?thesis using assms(1) a pc by (simp add: particleStep_def Let_def split: prod.splits)
qed

lemma air_facts:
  "D_Pos (gravityMove dt (fst (airEmit now p g))) = D_Pos (gravityMove dt p)"
  "D_Vel (gravityMove dt (fst (airEmit now p g))) = D_Vel (gravityMove dt p)"
  "D_OnGround (gravityMove dt (fst (airEmit now p g))) = D_OnGround p"
  "D_Bounces (gravityMove dt (fst (airEmit now p g))) = D_Bounces p"
  "D_FallsThrough (gravityMove dt (fst (airEmit now p g))) = D_FallsThrough p"
  by (subst airEmit_keeps, simp add: gravityMove_def Let_def)+

lemma rollHead_air: "\<not> D_OnGround p \<Longrightarrow> rollHead now dt p g = (p, g)"
  by (simp add: rollHead_def)

lemma groundNormal_clamps: "Y (D_Pos (fst (groundNormal now gY p g))) = gY"
proof -
  have s: "D_Pos (settledExpire now q) = D_Pos q" for q
    by (simp add: settledExpire_def Let_def)
  have b: "D_Pos (fst (groundBounce q g')) = D_Pos q" for q g'
    by (simp add: groundBounce_def Let_def)
  have t: "D_Pos (fst (groundSettle now q g')) = D_Pos q" for q g'
    by (simp add: groundSettle_def Let_def split: prod.splits)
  have r: "D_Pos (groundRest now q) = D_Pos q" for q
    unfolding groundRest_def Let_def by (simp add: s)
  let ?p1 = "p\<lparr>D_Pos := (D_Pos p)\<lparr>Y := gY\<rparr>\<rparr>"
  let ?p2 = "if \<not> D_HasHitGround ?p1 \<and> Y (D_Vel ?p1) > 0
             then ?p1\<lparr>D_HasHitGround := True, D_LastBloodEmit := now\<rparr> else ?p1"
  let ?g2 = "if \<not> D_HasHitGround ?p1 \<and> Y (D_Vel ?p1) > 0 then impactEmit ?p1 g else g"
  have eq: "groundNormal now gY p g =
        (if Y (D_Vel ?p2) > 0
         then (if D_Bounces ?p2 < 2 \<and> Y (D_Vel ?p2) > 20 then groundBounce ?p2 ?g2
               else groundSettle now ?p2 ?g2)
         else if Y (D_Vel ?p2) = 0 then (groundRest now ?p2, ?g2)
         else (?p2, ?g2))"
    by (simp add: groundNormal_def Let_def)
  show ?thesis unfolding eq by (simp add: b t r)
qed

lemma rollHead_pos: "D_Pos (fst (rollHead now dt p g)) = D_Pos p"
  by (simp add: rollHead_def Let_def split: prod.splits)

section \<open>The world one tick after the defeat\<close>

lemma updateDeathParticles_corpses:
  "corpses (updateDeathParticles now dt g) = corpses (updateCorpses now dt g)"
proof -
  define g1 where "g1 = updateCorpses now dt g"
  define g2 where "g2 = (if gameOver g1
             then g1\<lparr>deathParticles := filter (\<lambda>p. D_EnemyID p = 0) (deathParticles g1)\<rparr> else g1)"
  define l where "l = forEach (particleStep now dt) (deathParticles g2) g2"
  have eq: "updateDeathParticles now dt g = (snd l)\<lparr>deathParticles := filter D_Active (fst l)\<rparr>"
    unfolding updateDeathParticles_split g1_def g2_def l_def Let_def ..
  have "clrBlood (snd l) = clrBlood g2" unfolding l_def using particlesLoop by blast
  then have "corpses (snd l) = corpses g2" by (rule clrBlood_fields)
  then show ?thesis unfolding eq g1_def[symmetric] by (simp add: g2_def)
qed

lemma debris_corpses:
  "corpses (checkAndClearRedTiles (updateBloodParticles dt g)) = corpses g"
  using clrTiles_fields(3)[OF checkAndClearRedTiles_frame, of "updateBloodParticles dt g"]
        updateBloodParticles_effect[of dt g]
  by simp

lemma update_gameOver_fields:
  assumes "gameOver g" "\<not> inMenu g"
  shows "gameOver (update now dt g)" "\<not> inMenu (update now dt g)"
    "platforms (update now dt g) = platforms g" "width (update now dt g) = width g"
    "height (update now dt g) = height g" "groundY (update now dt g) = groundY g"
    "projectiles (update now dt g) = []"
    "enemies (update now dt g) =
       filter E_Active
         (map (\<lambda>e. if E_Active e
                    then enemyFall dt (g\<lparr>projectiles := []\<rparr>) (enemyLeave dt (g\<lparr>projectiles := []\<rparr>) e)
                    else e) (enemies g))"
    "corpses g = [] \<Longrightarrow> corpses (update now dt g) = []"
    "\<forall>p \<in> set (deathParticles (update now dt g)). D_EnemyID p = 0"
    "\<forall>b \<in> set (bloodParticles (update now dt g)). B_EnemyID b = 0"
proof -
  define g' where "g' = g\<lparr>projectiles := [],
          enemies := filter E_Active
             (map (\<lambda>e. if E_Active e
                        then enemyFall dt (g\<lparr>projectiles := []\<rparr>) (enemyLeave dt (g\<lparr>projectiles := []\<rparr>) e)
                        else e) (enemies g))\<rparr>"
  have eq: "update now dt g =
     checkAndClearRedTiles (updateBloodParticles dt (updateDeathParticles now dt g'))"
    unfolding g'_def by (rule update_gameOver[OF assms])
  have go: "gameOver g'" using assms(1) by (simp add: g'_def)
  have d: "clrGore (update now dt g) = clrGore g'"
      "\<forall>p \<in> set (deathParticles (update now dt g)). D_EnemyID p = 0"
      "\<forall>b \<in> set (bloodParticles (update now dt g)). B_EnemyID b = 0"
    unfolding eq using debris_effect[of dt now g'] go by simp_all
  note f = clrGore_fields[OF d(1)]
  show "gameOver (update now dt g)" using f(8) go by simp
  show "\<not> inMenu (update now dt g)" using f(9) assms(2) by (simp add: g'_def)
  show "platforms (update now dt g) = platforms g" using f(4) by (simp add: g'_def)
  show "width (update now dt g) = width g" using f(10) by (simp add: g'_def)
  show "height (update now dt g) = height g" using f(11) by (simp add: g'_def)
  show "groundY (update now dt g) = groundY g" using f(12) by (simp add: g'_def)
  show "projectiles (update now dt g) = []" using f(2) by (simp add: g'_def)
  show "enemies (update now dt g) =
       filter E_Active
         (map (\<lambda>e. if E_Active e
                    then enemyFall dt (g\<lparr>projectiles := []\<rparr>) (enemyLeave dt (g\<lparr>projectiles := []\<rparr>) e)
                    else e) (enemies g))"
    using f(3) by (simp add: g'_def)
  show "\<forall>p \<in> set (deathParticles (update now dt g)). D_EnemyID p = 0" by (rule d(2))
  show "\<forall>b \<in> set (bloodParticles (update now dt g)). B_EnemyID b = 0" by (rule d(3))
  show "corpses (update now dt g) = []" if "corpses g = []"
  proof -
    have "corpses g' = []" using that by (simp add: g'_def)
    then have "updateCorpses now dt g' = g'" by (simp add: updateCorpses_def)
    then show ?thesis unfolding eq debris_corpses updateDeathParticles_corpses
      using \<open>corpses g' = []\<close> by simp
  qed
qed

lemma update_gameOver_single:
  assumes "gameOver g" "\<not> inMenu g" "corpses g = []" "deathParticles g = [p]" "D_EnemyID p = 0"
  shows "deathParticles (update now dt g) =
     filter D_Active [fst (particleStep now dt p
        (g\<lparr>projectiles := [],
           enemies := filter E_Active
             (map (\<lambda>e. if E_Active e
                        then enemyFall dt (g\<lparr>projectiles := []\<rparr>) (enemyLeave dt (g\<lparr>projectiles := []\<rparr>) e)
                        else e) (enemies g))\<rparr>))]"
  unfolding update_gameOver[OF assms(1,2)] debris_frags
  by (rule updateDeathParticles_single) (simp_all add: assms)

lemma sqrt_100: "sqrt 100 = 10"
proof -
  have "sqrt ((10::real)\<^sup>2) = 10" by simp
  then show ?thesis by simp
qed

lemma sunk_step:
  "platforms g = [] \<Longrightarrow> groundY g = 24 \<Longrightarrow> height g = 25 \<Longrightarrow> width g = 80 \<Longrightarrow>
   fst (particleStep 1 (1 / 20)
          (shard\<lparr>D_Pos := \<lparr>X = 10, Y = 21.9 + 1 / 3\<rparr>, D_Vel := \<lparr>X = 0, Y = 10\<rparr>, D_Bounces := 999\<rparr>) g) =
     shard\<lparr>D_Pos := \<lparr>X = 10, Y = 21.9 + 1 / 3 + 5 / 4\<rparr>, D_Vel := \<lparr>X = 0, Y = 25\<rparr>, D_Bounces := 999\<rparr>"
  by (simp add: particleStep_def airEmit_def gravityMove_def platformCollide_def groundCollide_def
        offBottom_def rollHead_def offSides_def rollingNow_def shard_def Let_def impactEmit_geo
        sqrt_100 goInt_def Millisecond_def)

section \<open>Blood particles: the first platform touched\<close>

lemma find_enumerate_None:
  "(find (\<lambda>(i, x). P x) (enumerate n xs) = None) = (\<forall>x \<in> set xs. \<not> P x)"
  by (induction xs arbitrary: n) auto

lemma find_enumerate_Some:
  "i < length xs \<Longrightarrow> P (xs ! i) \<Longrightarrow> \<forall>j < i. \<not> P (xs ! j) \<Longrightarrow>
   find (\<lambda>(k, x). P x) (enumerate n xs) = Some (n + i, xs ! i)"
proof (induction xs arbitrary: n i)
  case Nil
  then show ?case by simp
next
  case (Cons x xs)
  show ?case
  proof (cases i)
    case 0
    then show ?thesis using Cons.prems by simp
  next
    case (Suc k)
    have "\<not> P x" using Cons.prems(3) Suc by auto
    moreover have "find (\<lambda>(k, x). P x) (enumerate (Suc n) xs) = Some (Suc n + k, xs ! k)"
      using Cons.prems Suc by (intro Cons.IH) auto
    ultimately show ?thesis using Suc by simp
  qed
qed

lemma cliff_fields:
  "platforms cliff = [ledge]" "groundY cliff = 23" "height cliff = 24" "width cliff = 80"
  "gameOver cliff"
  by (simp_all add: cliff_def ruin_def arena_def)

lemma updateBloodParticles_single:
  assumes "bloodParticles g = [b]" "\<not> gameOver g"
  shows "updateBloodParticles dt g =
     (snd (bloodStep dt b g))\<lparr>bloodParticles := filter B_Active [fst (bloodStep dt b g)]\<rparr>"
  using assms by (simp add: updateBloodParticles_split Let_def split: prod.splits)

section \<open>Opponents leaving the stage\<close>



section \<open>What a reset clears\<close>

lemma startGame_fields:
  "projectiles (startGame now g) = []" "enemies (startGame now g) = []"
  "deathParticles (startGame now g) = []" "bloodParticles (startGame now g) = []"
  "redGroundTiles (startGame now g) = Map.empty" "redPlatformTiles (startGame now g) = Map.empty"
  "score (startGame now g) = 0" "enemiesDefeated (startGame now g) = 0"
  "enemySpawnCounter (startGame now g) = 0" "\<not> gameOver (startGame now g)"
  "\<not> inMenu (startGame now g)" "corpses (startGame now g) = corpses g"
  by (simp_all add: startGame_def Let_def split: prod.splits)

lemma restartGame_fields:
  "projectiles (restartGame now g) = []" "enemies (restartGame now g) = []"
  "deathParticles (restartGame now g) = []" "bloodParticles (restartGame now g) = []"
  "redGroundTiles (restartGame now g) = Map.empty" "redPlatformTiles (restartGame now g) = Map.empty"
  "score (restartGame now g) = 0" "enemiesDefeated (restartGame now g) = 0"
  "enemySpawnCounter (restartGame now g) = 0" "\<not> gameOver (restartGame now g)"
  "inMenu (restartGame now g)" "corpses (restartGame now g) = corpses g"
  by (simp_all add: restartGame_def Let_def split: prod.splits)

lemma reset_clears_all_but_corpses:
  assumes "inMenu g \<and> ev = KeyRune (CHR '' '') \<or> \<not> inMenu g \<and> gameOver g \<and> ev = KeyEnter"
  shows "projectiles (handleInput now ev g) = [] \<and> enemies (handleInput now ev g) = [] \<and>
         deathParticles (handleInput now ev g) = [] \<and> bloodParticles (handleInput now ev g) = [] \<and>
         redGroundTiles (handleInput now ev g) = Map.empty \<and>
         redPlatformTiles (handleInput now ev g) = Map.empty \<and>
         score (handleInput now ev g) = 0 \<and> enemiesDefeated (handleInput now ev g) = 0 \<and>
         corpses (handleInput now ev g) = corpses g"
  using assms by (auto simp: handleInput_def startGame_fields restartGame_fields)


lemma goRem_odd: "0 \<le> c \<Longrightarrow> (goRem c 2 = 1) = odd c"
proof -
  assume a: "0 \<le> c"
  show ?thesis
  proof (cases "c = 0")
    case True
    then show ?thesis by (simp add: goRem_def)
  next
    case False
    then have "sgn c = 1" "\<bar>c\<bar> = c" using a by simp_all
    then show ?thesis by (simp add: goRem_def odd_iff_mod_2_eq_one)
  qed
qed

lemma update_ingame_spawn:
  assumes "\<not> inMenu g"
  shows "\<not> inMenu (update now dt g) \<and>
     (enemySpawnCounter (update now dt g) = enemySpawnCounter g \<or>
      enemySpawnCounter (update now dt g) = wrap64 (enemySpawnCounter g + 1) \<and>
      E_CanShoot (last (enemies (update now dt g))) = (goRem (enemySpawnCounter g) 2 = 1))"
proof -
  define g1 where "g1 = (if \<not> gameOver g then checkCollisions now (updatePlayer now dt g) else g)"
  define g2 where "g2 = updateProjectiles dt g1"
  define g3 where "g3 = updateEnemies now dt g2"
  have eq: "update now dt g =
      checkAndClearRedTiles (updateBloodParticles dt (updateDeathParticles now dt g3))"
    unfolding update_ingame[OF assms] g3_def g2_def g1_def ..
  have c: "clrFight (checkCollisions now (updatePlayer now dt g)) = clrFight (updatePlayer now dt g)"
    using checkCollisions_effect by blast
  have 1: "enemySpawnCounter g1 = enemySpawnCounter g" "inMenu g1 = inMenu g"
    unfolding g1_def using clrFight_fields(3,4)[OF c] by (simp_all add: updatePlayer_fields)
  have 2: "enemySpawnCounter g2 = enemySpawnCounter g" "inMenu g2 = inMenu g"
    unfolding g2_def using 1 by (simp_all add: updateProjectiles_fields)
  have d: "clrGore (update now dt g) = clrGore g3" unfolding eq using debris_effect by blast
  note f = clrGore_fields[OF d]
  have 3: "inMenu g3 = inMenu g" unfolding g3_def using updateEnemies_effect[of now dt g2] 2 by simp
  have 4: "enemySpawnCounter g3 = enemySpawnCounter g \<or>
      enemySpawnCounter g3 = wrap64 (enemySpawnCounter g + 1) \<and>
      E_CanShoot (last (enemies g3)) = (goRem (enemySpawnCounter g) 2 = 1)"
    unfolding g3_def using updateEnemies_effect[of now dt g2] 2 by auto
  show ?thesis using f(3,7,9) 3 4 assms by simp
qed

lemma applyInput_ingame:
  assumes "\<not> inMenu g" "\<not> inMenu (applyInput now ev g)"
  shows "enemySpawnCounter (applyInput now ev g) = enemySpawnCounter g"
proof (cases ev)
  case None
  then show ?thesis by (simp add: applyInput_def)
next
  case (Some i)
  show ?thesis
  proof (cases i)
    case (ResizeEv w h)
    then show ?thesis using Some by (simp add: applyInput_def resize_def Let_def)
  next
    case (KeyEv k)
    have r: "inMenu (restartGame now g)" by (rule restartGame_fields)
    have "enemySpawnCounter (handleInput now k g) = enemySpawnCounter g"
      using assms r Some KeyEv
      by (cases k) (auto simp: applyInput_def handleInput_def toggleBlood_def split: if_splits)
    then show ?thesis using Some KeyEv by (simp add: applyInput_def)
  qed
qed

lemma arena_first_tick:
  "enemySpawnCounter (update 0 (1 / 30) (arena\<lparr>enemySpawnCounter := c\<rparr>)) = wrap64 (c + 1)"
proof -
  let ?g = "arena\<lparr>enemySpawnCounter := c\<rparr>"
  have m: "\<not> inMenu ?g" by (simp add: arena_def)
  have "clrGore (update 0 (1 / 30) ?g) =
        clrGore (updateEnemies 0 (1 / 30) (updateProjectiles (1 / 30)
          (if \<not> gameOver ?g then checkCollisions 0 (updatePlayer 0 (1 / 30) ?g) else ?g)))"
    unfolding update_ingame[OF m] using debris_effect by blast
  then have "enemySpawnCounter (update 0 (1 / 30) ?g) =
        enemySpawnCounter (updateEnemies 0 (1 / 30) (updateProjectiles (1 / 30)
          (if \<not> gameOver ?g then checkCollisions 0 (updatePlayer 0 (1 / 30) ?g) else ?g)))"
    by (rule clrGore_fields)
  also have "\<dots> = wrap64 (c + 1)"
    by (simp add: arena_def updatePlayer_def checkCollisions_def playerDefeated_def
          updateProjectiles_def updateEnemies_def spawnRate_def spawnEnemy_def goQuot_def Let_def)
  finally show ?thesis .
qed


lemma sample_right:
  fixes p s a w :: real
  assumes "0 \<le> s" "s \<le> 20" "4 \<le> w" "p + 1 \<le> a" "a + w \<le> p + s"
  shows "\<exists>k \<in> {1, 2, 3, 4 :: nat}. p + s * (real k / 5) < a + w \<and> p + s * (real k / 5) + 1 > a"
  using assms by simp arith

lemma sample_left:
  fixes p s a w :: real
  assumes "0 \<le> s" "s \<le> 20" "4 \<le> w" "p - s + 1 \<le> a" "a + w \<le> p"
  shows "\<exists>k \<in> {1, 2, 3, 4 :: nat}. p - s * (real k / 5) < a + w \<and> p - s * (real k / 5) + 1 > a"
  using assms by simp arith

lemma samples_set: "set [1 ..< 5] = {1, 2, 3, 4 :: nat}"
  by auto

lemma clampDt_range: "0 \<le> raw \<Longrightarrow> 0 \<le> clampDt raw \<and> clampDt raw \<le> 0.1"
  by (simp add: clampDt_def)

lemma projectileStep_moves:
  assumes "Pr_Active pr0"
  shows "Pr_PrevPos (projectileStep dt g0 pr0) = Pr_Pos pr0"
    "X (Pr_Pos (projectileStep dt g0 pr0)) =
       X (Pr_Pos pr0) + real_of_int (Pr_Dir pr0) * (if Pr_IsEnemy pr0 then 80 else 200) * dt"
    "Y (Pr_Pos (projectileStep dt g0 pr0)) = Y (Pr_Pos pr0)"
    "Pr_IsEnemy (projectileStep dt g0 pr0) = Pr_IsEnemy pr0"
  using assms by (simp_all add: projectileStep_def Let_def)

lemma projectileStep_inactive: "\<not> Pr_Active pr0 \<Longrightarrow> projectileStep dt g0 pr0 = pr0"
  by (simp add: projectileStep_def)

lemma straddles_misses:
  assumes "straddles pr e" "0 \<le> E_Width e"
  shows "\<not> overlapsEnemy (X (Pr_PrevPos pr)) (Y (Pr_PrevPos pr)) e"
    "\<not> overlapsEnemy (X (Pr_Pos pr)) (Y (Pr_Pos pr)) e"
  using assms by (auto simp: straddles_def overlapsEnemy_def Let_def)

lemma swept_core:
  assumes raw: "0 \<le> raw"
    and act: "Pr_Active (projectileStep (clampDt raw) g0 pr0)"
    and own: "\<not> Pr_IsEnemy pr0"
    and dir: "Pr_Dir pr0 = 1 \<or> Pr_Dir pr0 = - 1"
    and wide: "EnemyWidth \<le> E_Width e"
    and str: "straddles (projectileStep (clampDt raw) g0 pr0) e"
  shows "sweptHit (projectileStep (clampDt raw) g0 pr0) e"
proof -
  define dt where "dt = clampDt raw"
  define pr where "pr = projectileStep dt g0 pr0"
  define s where "s = 200 * dt"
  define p where "p = X (Pr_Pos pr0)"
  define y where "y = Y (Pr_Pos pr0)"
  define a where "a = X (E_Pos e)"
  define w where "w = real_of_int (E_Width e)"
  have a0: "Pr_Active pr0"
  proof (rule ccontr)
    assume n: "\<not> Pr_Active pr0"
    then have "projectileStep (clampDt raw) g0 pr0 = pr0" by (rule projectileStep_inactive)
    then show False using act n by simp
  qed
  have s: "0 \<le> s" "s \<le> 20" using clampDt_range[OF raw] by (simp_all add: s_def dt_def)
  have w: "4 \<le> w" using wide by (simp add: w_def EnemyWidth_def)
  have prev: "Pr_PrevPos pr = Pr_Pos pr0" and cy: "Y (Pr_Pos pr) = y"
    unfolding pr_def y_def using a0 by (simp_all add: projectileStep_moves)
  have cx: "X (Pr_Pos pr) = p + real_of_int (Pr_Dir pr0) * s"
    unfolding pr_def p_def s_def using a0 own by (simp add: projectileStep_moves)
  have lv: "y < Y (E_Pos e) + real_of_int (E_Height e)" "y + 1 > Y (E_Pos e)"
    using str unfolding pr_def[symmetric] dt_def[symmetric]
    by (simp_all add: straddles_def Let_def cy)
  have sides: "p + 1 \<le> a \<and> a + w \<le> X (Pr_Pos pr) \<or> X (Pr_Pos pr) + 1 \<le> a \<and> a + w \<le> p"
    using str unfolding pr_def[symmetric] dt_def[symmetric]
    by (simp add: straddles_def Let_def prev p_def a_def w_def)
  have "\<exists>k \<in> {1, 2, 3, 4 :: nat}.
          p + (X (Pr_Pos pr) - p) * (real k / 5) < a + w \<and>
          p + (X (Pr_Pos pr) - p) * (real k / 5) + 1 > a"
  proof (cases "Pr_Dir pr0 = 1")
    case True
    then have c: "X (Pr_Pos pr) = p + s" using cx by simp
    have "p + 1 \<le> a \<and> a + w \<le> p + s" using sides s w unfolding c by arith
    then show ?thesis using sample_right[of s w p a] s w unfolding c by simp
  next
    case False
    then have c: "X (Pr_Pos pr) = p - s" using cx dir by simp
    have "p - s + 1 \<le> a \<and> a + w \<le> p" using sides s w unfolding c by arith
    then show ?thesis using sample_left[of s w p a] s w unfolding c by simp
  qed
  then have "\<exists>k \<in> set [1 ..< 5].
          overlapsEnemy (p + (X (Pr_Pos pr) - p) * (real k / real 5)) (y + (y - y) * (real k / real 5)) e"
    unfolding samples_set using lv by (simp add: overlapsEnemy_def a_def w_def)
  then have "sweptHit pr e"
    by (simp add: sweptHit_def Let_def prev cy p_def[symmetric] y_def[symmetric])
  then show ?thesis by (simp add: pr_def dt_def)
qed

lemma fallen_facts:
  assumes "fallen a b"
  shows "sweptHit pr b = sweptHit pr a" "E_Active b \<Longrightarrow> E_Active a"
  using assms by (auto simp: fallen_def sweptHit_def overlapsEnemy_def Let_def)

lemma fallen_refl: "fallen a a"
  by (simp add: fallen_def)

lemma fallen_trans: "fallen a b \<Longrightarrow> fallen b c \<Longrightarrow> fallen a c"
  by (auto simp: fallen_def)

lemma fallen_update: "j < length es \<Longrightarrow> list_all2 fallen es (es[j := (es ! j)\<lparr>E_Active := False\<rparr>])"
  by (simp add: list_all2_conv_all_nth nth_list_update fallen_def)

lemma hitFirst_None:
  "hitFirst hit es = None \<Longrightarrow> j < length es \<Longrightarrow> \<not> (E_Active (es ! j) \<and> hit (es ! j))"
proof (induction es arbitrary: j)
  case Nil
  then show ?case by simp
next
  case (Cons e es)
  from Cons.prems(1) have h: "\<not> (E_Active e \<and> hit e)" "hitFirst hit es = None"
    by (auto split: if_splits option.splits)
  show ?case
  proof (cases j)
    case 0
    then show ?thesis using h by simp
  next
    case (Suc n)
    then show ?thesis using Cons.IH[OF h(2), of n] Cons.prems(2) by simp
  qed
qed

lemma hitFirst_Some:
  "hitFirst hit es = Some (es', h) \<Longrightarrow>
   \<exists>j < length es. E_Active (es ! j) \<and> hit (es ! j) \<and>
      (\<forall>j' < j. \<not> (E_Active (es ! j') \<and> hit (es ! j'))) \<and>
      es' = es[j := (es ! j)\<lparr>E_Active := False\<rparr>] \<and> h = es ! j"
proof (induction es arbitrary: es')
  case Nil
  then show ?case by simp
next
  case (Cons e es)
  show ?case
  proof (cases "E_Active e \<and> hit e")
    case True
    then have "es' = e\<lparr>E_Active := False\<rparr> # es" "h = e" using Cons.prems by auto
    then have "0 < length (e # es) \<and> E_Active ((e # es) ! 0) \<and> hit ((e # es) ! 0) \<and>
      (\<forall>j' < 0. \<not> (E_Active ((e # es) ! j') \<and> hit ((e # es) ! j'))) \<and>
      es' = (e # es)[0 := ((e # es) ! 0)\<lparr>E_Active := False\<rparr>] \<and> h = (e # es) ! 0"
      using True by simp
    then show ?thesis by blast
  next
    case False
    then obtain es1 where r: "hitFirst hit es = Some (es1, h)" "es' = e # es1"
      using Cons.prems by (auto split: option.splits)
    from Cons.IH[OF r(1)] obtain j where j: "j < length es" "E_Active (es ! j)" "hit (es ! j)"
      "\<forall>j' < j. \<not> (E_Active (es ! j') \<and> hit (es ! j'))"
      "es1 = es[j := (es ! j)\<lparr>E_Active := False\<rparr>]" "h = es ! j" by blast
    have q: "\<forall>j' < Suc j. \<not> (E_Active ((e # es) ! j') \<and> hit ((e # es) ! j'))"
    proof (intro allI impI)
      fix j' assume "j' < Suc j"
      then show "\<not> (E_Active ((e # es) ! j') \<and> hit ((e # es) ! j'))"
        using False j(4) by (cases j') auto
    qed
    have "Suc j < length (e # es) \<and> E_Active ((e # es) ! Suc j) \<and> hit ((e # es) ! Suc j) \<and>
      es' = (e # es)[Suc j := ((e # es) ! Suc j)\<lparr>E_Active := False\<rparr>] \<and> h = (e # es) ! Suc j"
      using j r(2) by simp
    then show ?thesis using q by blast
  qed
qed

lemma projectileKill_cases:
  obtains (miss) "projectileKill now pr g = (pr, g)"
      "\<And>j. Pr_Active pr \<Longrightarrow> \<not> Pr_IsEnemy pr \<Longrightarrow> j < length (enemies g) \<Longrightarrow>
            \<not> (E_Active (enemies g ! j) \<and> sweptHit pr (enemies g ! j))"
  | (hit) j where "Pr_Active pr" "\<not> Pr_IsEnemy pr" "j < length (enemies g)"
      "E_Active (enemies g ! j)" "sweptHit pr (enemies g ! j)"
      "\<forall>j' < j. \<not> (E_Active (enemies g ! j') \<and> sweptHit pr (enemies g ! j'))"
      "fst (projectileKill now pr g) = pr\<lparr>Pr_Active := False\<rparr>"
      "enemies (snd (projectileKill now pr g)) = (enemies g)[j := (enemies g ! j)\<lparr>E_Active := False\<rparr>]"
proof (cases "\<not> Pr_Active pr \<or> Pr_IsEnemy pr")
  case True
  then have "projectileKill now pr g = (pr, g)" by (simp add: projectileKill_def)
  then show ?thesis using True miss by blast
next
  case False
  show ?thesis
  proof (cases "hitFirst (sweptHit pr) (enemies g)")
    case None
    then have "projectileKill now pr g = (pr, g)" using False by (simp add: projectileKill_def)
    then show ?thesis using hitFirst_None[OF None] miss by blast
  next
    case (Some r)
    obtain es h where r: "r = (es, h)" by (cases r)
    from hitFirst_Some[OF Some[unfolded r]] obtain j where j: "j < length (enemies g)"
      "E_Active (enemies g ! j)" "sweptHit pr (enemies g ! j)"
      "\<forall>j' < j. \<not> (E_Active (enemies g ! j') \<and> sweptHit pr (enemies g ! j'))"
      "es = (enemies g)[j := (enemies g ! j)\<lparr>E_Active := False\<rparr>]" by blast
    have 1: "fst (projectileKill now pr g) = pr\<lparr>Pr_Active := False\<rparr>"
      using False Some r by (simp add: projectileKill_def)
    have 2: "enemies (snd (projectileKill now pr g)) = es"
      using False Some r by (simp add: projectileKill_def)
    show ?thesis using hit[OF _ _ j(1) j(2) j(3) j(4) 1 2[unfolded j(5)]] False by blast
  qed
qed

lemma projectileKill_fallen:
  "list_all2 fallen (enemies g) (enemies (snd (projectileKill now pr g)))"
proof (cases rule: projectileKill_cases[of now pr g])
  case miss
  then show ?thesis by (simp add: list_all2_conv_all_nth fallen_refl)
next
  case (hit j)
  then show ?thesis using fallen_update[of j "enemies g"] by simp
qed

lemma list_all2_fallen_trans:
  "list_all2 fallen xs ys \<Longrightarrow> list_all2 fallen ys zs \<Longrightarrow> list_all2 fallen xs zs"
  by (rule list_all2_trans[where ?P1.0 = fallen and ?P2.0 = fallen]) (rule fallen_trans)

lemma killLoop_fallen:
  "list_all2 fallen (enemies g) (enemies (snd (forEach (projectileKill now) prs g)))"
proof (induction prs arbitrary: g)
  case Nil
  then show ?case by (simp add: list_all2_conv_all_nth fallen_refl)
next
  case (Cons pr prs)
  show ?case
    unfolding forEach_Cons
    by (rule list_all2_fallen_trans[OF projectileKill_fallen Cons.IH])
qed

lemma killLoop_hits:
  assumes "i < length prs" "Pr_Active (prs ! i)" "\<not> Pr_IsEnemy (prs ! i)"
    and "j < length (enemies g)" "sweptHit (prs ! i) (enemies g ! j)"
  shows "\<not> Pr_Active (fst (forEach (projectileKill now) prs g) ! i) \<or>
         \<not> E_Active (enemies (snd (forEach (projectileKill now) prs g)) ! j)"
  using assms
proof (induction prs arbitrary: g i)
  case Nil
  then show ?case by simp
next
  case (Cons pr prs)
  define g1 where "g1 = snd (projectileKill now pr g)"
  have f1: "list_all2 fallen (enemies g) (enemies g1)"
    unfolding g1_def by (rule projectileKill_fallen)
  have f2: "list_all2 fallen (enemies g1) (enemies (snd (forEach (projectileKill now) prs g1)))"
    by (rule killLoop_fallen)
  have len: "length (enemies g1) = length (enemies g)"
    using f1 by (simp add: list_all2_lengthD)
  have fj: "fallen (enemies g ! j) (enemies g1 ! j)"
    using f1 Cons.prems(4) by (simp add: list_all2_conv_all_nth)
  have fj2: "fallen (enemies g1 ! j) (enemies (snd (forEach (projectileKill now) prs g1)) ! j)"
    using f2 Cons.prems(4) len by (simp add: list_all2_conv_all_nth)
  show ?case
  proof (cases i)
    case 0
    have pr: "Pr_Active pr" "\<not> Pr_IsEnemy pr" "sweptHit pr (enemies g ! j)"
      using Cons.prems 0 by simp_all
    show ?thesis
    proof (cases "E_Active (enemies g ! j)")
      case True
      have "fst (projectileKill now pr g) = pr\<lparr>Pr_Active := False\<rparr>"
      proof (cases rule: projectileKill_cases[of now pr g])
        case miss
        then show ?thesis using pr True Cons.prems(4) by blast
      next
        case (hit k)
        then show ?thesis by simp
      qed
      then show ?thesis using 0 by (simp add: forEach_Cons del: forEach.simps)
    next
      case False
      then have "\<not> E_Active (enemies g1 ! j)" using fallen_facts(2)[OF fj] by blast
      then have "\<not> E_Active (enemies (snd (forEach (projectileKill now) prs g1)) ! j)"
        using fallen_facts(2)[OF fj2] by blast
      then show ?thesis by (simp add: forEach_Cons g1_def del: forEach.simps)
    qed
  next
    case (Suc n)
    have "\<not> Pr_Active (fst (forEach (projectileKill now) prs g1) ! n) \<or>
          \<not> E_Active (enemies (snd (forEach (projectileKill now) prs g1)) ! j)"
    proof (rule Cons.IH)
      show "n < length prs" using Cons.prems(1) Suc by simp
      show "Pr_Active (prs ! n)" "\<not> Pr_IsEnemy (prs ! n)" using Cons.prems(2,3) Suc by simp_all
      show "j < length (enemies g1)" using Cons.prems(4) len by simp
      show "sweptHit (prs ! n) (enemies g1 ! j)"
        using Cons.prems(5) Suc fallen_facts(1)[OF fj] by simp
    qed
    then show ?thesis using Suc by (simp add: forEach_Cons g1_def del: forEach.simps)
  qed
qed

lemma killLoop_kills:
  assumes "i < length prs" "Pr_Active (prs ! i)" "\<not> Pr_IsEnemy (prs ! i)"
    and "j < length (enemies g)" "E_Active (enemies g ! j)" "sweptHit (prs ! i) (enemies g ! j)"
    and "\<forall>j' < j. \<not> (E_Active (enemies g ! j') \<and> sweptHit (prs ! i) (enemies g ! j'))"
    and "\<forall>i' < i. \<not> (Pr_Active (prs ! i') \<and> \<not> Pr_IsEnemy (prs ! i') \<and> sweptHit (prs ! i') (enemies g ! j))"
  shows "\<not> Pr_Active (fst (forEach (projectileKill now) prs g) ! i) \<and>
         \<not> E_Active (enemies (snd (forEach (projectileKill now) prs g)) ! j)"
  using assms
proof (induction prs arbitrary: g i)
  case Nil
  then show ?case by simp
next
  case (Cons pr prs)
  define g1 where "g1 = snd (projectileKill now pr g)"
  have f1: "list_all2 fallen (enemies g) (enemies g1)"
    unfolding g1_def by (rule projectileKill_fallen)
  have f2: "list_all2 fallen (enemies g1) (enemies (snd (forEach (projectileKill now) prs g1)))"
    by (rule killLoop_fallen)
  have len: "length (enemies g1) = length (enemies g)"
    using f1 by (simp add: list_all2_lengthD)
  have fa: "\<And>k. k < length (enemies g) \<Longrightarrow> fallen (enemies g ! k) (enemies g1 ! k)"
    using f1 by (simp add: list_all2_conv_all_nth)
  have fj2: "fallen (enemies g1 ! j) (enemies (snd (forEach (projectileKill now) prs g1)) ! j)"
    using f2 Cons.prems(4) len by (simp add: list_all2_conv_all_nth)
  show ?case
  proof (cases i)
    case 0
    have pr: "Pr_Active pr" "\<not> Pr_IsEnemy pr" "sweptHit pr (enemies g ! j)"
      "\<forall>j' < j. \<not> (E_Active (enemies g ! j') \<and> sweptHit pr (enemies g ! j'))"
      using Cons.prems 0 by simp_all
    have "fst (projectileKill now pr g) = pr\<lparr>Pr_Active := False\<rparr> \<and> \<not> E_Active (enemies g1 ! j)"
    proof (cases rule: projectileKill_cases[of now pr g])
      case miss
      then show ?thesis using pr Cons.prems(4,5) by blast
    next
      case (hit k)
      have "k = j"
      proof (rule ccontr)
        assume "k \<noteq> j"
        then consider "k < j" | "j < k" by linarith
        then show False
        proof cases
          case 1
          then show ?thesis using pr(4) hit(4,5) by blast
        next
          case 2
          then show ?thesis using hit(6) Cons.prems(5) pr(3) by blast
        qed
      qed
      then show ?thesis using hit Cons.prems(4) by (simp add: g1_def)
    qed
    moreover have "\<not> E_Active (enemies g1 ! j) \<Longrightarrow>
        \<not> E_Active (enemies (snd (forEach (projectileKill now) prs g1)) ! j)"
      using fallen_facts(2)[OF fj2] by blast
    ultimately show ?thesis using 0 by (simp add: forEach_Cons g1_def del: forEach.simps)
  next
    case (Suc n)
    have keep: "enemies g1 ! j = enemies g ! j"
    proof (cases rule: projectileKill_cases[of now pr g])
      case miss
      then show ?thesis by (simp add: g1_def)
    next
      case (hit k)
      have "k \<noteq> j"
      proof
        assume "k = j"
        then have "Pr_Active ((pr # prs) ! 0) \<and> \<not> Pr_IsEnemy ((pr # prs) ! 0) \<and>
                   sweptHit ((pr # prs) ! 0) (enemies g ! j)" using hit by simp
        moreover have "(0::nat) < i" using Suc by simp
        ultimately show False using Cons.prems(8) by blast
      qed
      then show ?thesis using hit(8) by (simp add: g1_def)
    qed
    have "\<not> Pr_Active (fst (forEach (projectileKill now) prs g1) ! n) \<and>
          \<not> E_Active (enemies (snd (forEach (projectileKill now) prs g1)) ! j)"
    proof (rule Cons.IH)
      show "n < length prs" using Cons.prems(1) Suc by simp
      show "Pr_Active (prs ! n)" "\<not> Pr_IsEnemy (prs ! n)" using Cons.prems(2,3) Suc by simp_all
      show "j < length (enemies g1)" using Cons.prems(4) len by simp
      show "E_Active (enemies g1 ! j)" using Cons.prems(5) keep by simp
      show "sweptHit (prs ! n) (enemies g1 ! j)" using Cons.prems(6) Suc keep by simp
      show "\<forall>j' < j. \<not> (E_Active (enemies g1 ! j') \<and> sweptHit (prs ! n) (enemies g1 ! j'))"
      proof (intro allI impI)
        fix j' assume l: "j' < j"
        then have f: "fallen (enemies g ! j') (enemies g1 ! j')" using fa Cons.prems(4) by simp
        have "\<not> (E_Active (enemies g ! j') \<and> sweptHit (prs ! n) (enemies g ! j'))"
          using Cons.prems(7) l Suc by simp
        then show "\<not> (E_Active (enemies g1 ! j') \<and> sweptHit (prs ! n) (enemies g1 ! j'))"
          using fallen_facts[OF f] by blast
      qed
      show "\<forall>i' < n. \<not> (Pr_Active (prs ! i') \<and> \<not> Pr_IsEnemy (prs ! i') \<and>
                         sweptHit (prs ! i') (enemies g1 ! j))"
      proof (intro allI impI)
        fix i' assume "i' < n"
        then have "Suc i' < i" using Suc by simp
        then have "\<not> (Pr_Active ((pr # prs) ! Suc i') \<and> \<not> Pr_IsEnemy ((pr # prs) ! Suc i') \<and>
                       sweptHit ((pr # prs) ! Suc i') (enemies g ! j))"
          using Cons.prems(8) by blast
        then show "\<not> (Pr_Active (prs ! i') \<and> \<not> Pr_IsEnemy (prs ! i') \<and>
                       sweptHit (prs ! i') (enemies g1 ! j))" using keep by simp
      qed
    qed
    then show ?thesis using Suc by (simp add: forEach_Cons g1_def del: forEach.simps)
  qed
qed

lemma checkCollisions_loop:
  assumes "\<not> playerDefeated g"
  shows "projectiles (checkCollisions now g) = fst (forEach (projectileKill now) (projectiles g) g)"
    "enemies (checkCollisions now g) = enemies (snd (forEach (projectileKill now) (projectiles g) g))"
  using assms by (simp_all add: checkCollisions_def split: prod.splits)

lemma shot_flown:
  "projectileStep (clampDt (1 / 2)) arena shot =
     \<lparr>Pr_Pos = \<lparr>X = 64, Y = 21\<rparr>, Pr_PrevPos = \<lparr>X = 44, Y = 21\<rparr>, Pr_Dir = 1,
      Pr_Active = True, Pr_Frame = 1, Pr_IsEnemy = False\<rparr>"
  by (simp add: projectileStep_def clampDt_def shot_def arena_def wrap64_def Let_def)

lemma sweptHit_points:
  "sweptHit pr e =
     (let px = X (Pr_PrevPos pr); py = Y (Pr_PrevPos pr);
          dx = X (Pr_Pos pr) - px; dy = Y (Pr_Pos pr) - py
      in overlapsEnemy (X (Pr_Pos pr)) (Y (Pr_Pos pr)) e \<or> overlapsEnemy px py e \<or>
         overlapsEnemy (px + dx * (1 / 5)) (py + dy * (1 / 5)) e \<or>
         overlapsEnemy (px + dx * (2 / 5)) (py + dy * (2 / 5)) e \<or>
         overlapsEnemy (px + dx * (3 / 5)) (py + dy * (3 / 5)) e \<or>
         overlapsEnemy (px + dx * (4 / 5)) (py + dy * (4 / 5)) e)"
  unfolding sweptHit_def Let_def samples_set by simp

lemma duel_fields:
  "projectiles duel =
     [stray, \<lparr>Pr_Pos = \<lparr>X = 64, Y = 21\<rparr>, Pr_PrevPos = \<lparr>X = 44, Y = 21\<rparr>, Pr_Dir = 1,
              Pr_Active = True, Pr_Frame = 1, Pr_IsEnemy = False\<rparr>]"
  "enemies duel = [foe\<lparr>E_Pos := \<lparr>X = 70, Y = 20\<rparr>\<rparr>, foe]"
  "player duel = player arena"
  by (simp_all add: duel_def shot_flown)

lemma queue_fields:
  "projectiles queue =
     [\<lparr>Pr_Pos = \<lparr>X = 64, Y = 21\<rparr>, Pr_PrevPos = \<lparr>X = 44, Y = 21\<rparr>, Pr_Dir = 1,
       Pr_Active = True, Pr_Frame = 1, Pr_IsEnemy = False\<rparr>]"
  "enemies queue = [foe\<lparr>E_Pos := \<lparr>X = 58, Y = 20\<rparr>\<rparr>, foe]"
  "player queue = player arena"
  by (simp_all add: queue_def shot_flown)

section \<open>The fragment step and the stage; the tick around the debris phase\<close>

lemma sameStage_refl: "sameStage g g"
  by (simp add: sameStage_def)

lemma sameStage_sym: "sameStage s g \<Longrightarrow> sameStage g s"
  by (simp add: sameStage_def)

lemma sameStage_trans: "sameStage a b \<Longrightarrow> sameStage b c \<Longrightarrow> sameStage a c"
  by (simp add: sameStage_def)

lemma clrBlood_sameStage: "clrBlood s = clrBlood g \<Longrightarrow> sameStage s g"
  unfolding sameStage_def using clrBlood_fields[of s g] by simp

lemma clrGore_sameStage: "clrGore s = clrGore g \<Longrightarrow> sameStage s g"
  unfolding sameStage_def using clrGore_fields[of s g] by simp

lemma airEmit_fst: "fst (airEmit now p s) = fst (airEmit now p g)"
  by (simp add: airEmit_def Let_def)

lemma platformLand_fst: "fst (platformLand now pl p s) = fst (platformLand now pl p g)"
  by (simp add: platformLand_def Let_def)

lemma platformCollide_fst:
  "platforms s = platforms g \<Longrightarrow> fst (platformCollide now p s) = fst (platformCollide now p g)"
  using platformLand_fst[of now _ p s g]
  by (simp add: platformCollide_def case_prod_beta split: option.splits)

lemma groundBounce_fst: "fst (groundBounce p s) = fst (groundBounce p g)"
  by (simp add: groundBounce_def Let_def)

lemma groundSettle_fst: "fst (groundSettle now p s) = fst (groundSettle now p g)"
  by (simp add: groundSettle_def Let_def case_prod_beta)

lemma groundNormal_fst: "fst (groundNormal now gY p s) = fst (groundNormal now gY p g)"
proof -
  let ?p1 = "p\<lparr>D_Pos := (D_Pos p)\<lparr>Y := gY\<rparr>\<rparr>"
  let ?c = "\<not> D_HasHitGround ?p1 \<and> Y (D_Vel ?p1) > 0"
  let ?p2 = "if ?c then ?p1\<lparr>D_HasHitGround := True, D_LastBloodEmit := now\<rparr> else ?p1"
  have a: "\<And>x. fst (groundNormal now gY p x) =
       (if Y (D_Vel ?p2) > 0
         then (if D_Bounces ?p2 < 2 \<and> Y (D_Vel ?p2) > 20
               then fst (groundBounce ?p2 (if ?c then impactEmit ?p1 x else x))
               else fst (groundSettle now ?p2 (if ?c then impactEmit ?p1 x else x)))
         else if Y (D_Vel ?p2) = 0 then groundRest now ?p2
         else ?p2)"
    unfolding groundNormal_def Let_def case_prod_beta
    by (simp only: if_distrib[where f = fst] if_distrib[where f = snd] fst_conv snd_conv simp_thms)
  show ?thesis
    unfolding a
    using groundBounce_fst[of ?p2 "if ?c then impactEmit ?p1 s else s" "if ?c then impactEmit ?p1 g else g"]
          groundSettle_fst[of now ?p2 "if ?c then impactEmit ?p1 s else s" "if ?c then impactEmit ?p1 g else g"]
    by (simp only:)
qed

lemma groundCollide_fst:
  assumes "groundY s = groundY g"
  shows "fst (groundCollide now on p s) = fst (groundCollide now on p g)"
proof -
  have a: "\<And>x. fst (groundCollide now on p x) =
      (if \<not> on \<and> Y (D_Pos p) \<ge> real_of_int (groundY x - 1)
       then (if D_FallsThrough p \<and> Y (D_Vel p) > 0 \<and> D_Bounces p = 0
             then p\<lparr>D_Bounces := 999\<rparr>
             else if \<not> D_FallsThrough p \<or> D_Bounces p < 999
             then fst (groundNormal now (real_of_int (groundY x - 1)) p x)
             else p)
       else p)"
    unfolding groundCollide_def Let_def
    by (simp only: if_distrib[where f = fst] fst_conv simp_thms)
  show ?thesis
    unfolding a assms
    using groundNormal_fst[of now "real_of_int (groundY g - 1)" p s g] by (simp only:)
qed

lemma rollHead_fst: "fst (rollHead now dt p s) = fst (rollHead now dt p g)"
  unfolding rollHead_def Let_def case_prod_beta
  by (simp only: if_distrib[where f = fst] fst_conv snd_conv simp_thms)

lemma offBottom_stage: "height s = height g \<Longrightarrow> offBottom s p = offBottom g p"
  by (simp add: offBottom_def)

lemma offSides_stage: "width s = width g \<Longrightarrow> offSides s p = offSides g p"
  by (simp add: offSides_def)

lemma particleStep_fst:
  assumes "sameStage s g"
  shows "fst (particleStep now dt p s) = fst (particleStep now dt p g)"
proof (cases "D_Active p")
  case False
  then show ?thesis by (simp add: particleStep_def)
next
  case True
  have st: "platforms s = platforms g" "width s = width g" "height s = height g"
    "groundY s = groundY g" using assms by (simp_all add: sameStage_def)
  have u: "\<And>x. fst (particleStep now dt p x) =
     (let a = airEmit now p x;
          c = platformCollide now (gravityMove dt (fst a)) (snd a);
          d = groundCollide now (snd (fst c)) (fst (fst c)) (snd c);
          r = rollHead now dt (offBottom (snd d) (fst d)) (snd d)
      in offSides (snd r) (fst r))"
    using True by (simp add: particleStep_def Let_def case_prod_beta)
  define a where "a = (\<lambda>x. airEmit now p x)"
  define c where "c = (\<lambda>x. platformCollide now (gravityMove dt (fst (a x))) (snd (a x)))"
  define d where "d = (\<lambda>x. groundCollide now (snd (fst (c x))) (fst (fst (c x))) (snd (c x)))"
  define r where "r = (\<lambda>x. rollHead now dt (offBottom (snd (d x)) (fst (d x))) (snd (d x)))"
  have w: "\<And>x. fst (particleStep now dt p x) = offSides (snd (r x)) (fst (r x))"
    unfolding u r_def d_def c_def a_def Let_def by (rule refl)
  have fa: "\<And>x. clrBlood (snd (a x)) = clrBlood x" unfolding a_def by (rule airEmit_frame)
  have fc: "\<And>x. clrBlood (snd (c x)) = clrBlood x"
    unfolding c_def by (rule trans[OF platformCollide_frame fa])
  have fd: "\<And>x. clrBlood (snd (d x)) = clrBlood x"
    unfolding d_def by (rule trans[OF groundCollide_frame fc])
  have fr: "\<And>x. clrBlood (snd (r x)) = clrBlood x"
    unfolding r_def by (rule trans[OF rollHead_frame fd])
  have 1: "fst (a s) = fst (a g)" unfolding a_def by (rule airEmit_fst)
  have 2: "fst (c s) = fst (c g)"
    unfolding c_def 1
    by (rule platformCollide_fst) (simp add: clrBlood_fields(6)[OF fa] st)
  have 3: "fst (d s) = fst (d g)"
    unfolding d_def 2
    by (rule groundCollide_fst) (simp add: clrBlood_fields(14)[OF fc] st)
  have h: "height (snd (d s)) = height (snd (d g))"
    by (simp add: clrBlood_fields(13)[OF fd] st)
  have 4: "fst (r s) = fst (r g)"
    unfolding r_def 3 offBottom_stage[OF h] by (rule rollHead_fst)
  have wd: "width (snd (r s)) = width (snd (r g))"
    by (simp add: clrBlood_fields(12)[OF fr] st)
  show ?thesis unfolding w 4 by (rule offSides_stage[OF wd])
qed

lemma particlesLoop_map:
  "sameStage s g \<Longrightarrow>
   fst (forEach (particleStep now dt) ps s) = map (\<lambda>p. fst (particleStep now dt p g)) ps"
proof (induction ps arbitrary: s)
  case Nil
  then show ?case by simp
next
  case (Cons p ps)
  have "sameStage (snd (particleStep now dt p s)) s"
    by (rule clrBlood_sameStage) (rule particleStep_frame)
  then have "sameStage (snd (particleStep now dt p s)) g"
    using Cons.prems by (rule sameStage_trans)
  then have "fst (forEach (particleStep now dt) ps (snd (particleStep now dt p s))) =
             map (\<lambda>p. fst (particleStep now dt p g)) ps" by (rule Cons.IH)
  then show ?case
    by (simp add: forEach_Cons particleStep_fst[OF Cons.prems] del: forEach.simps)
qed

lemma updateCorpses_burst:
  "\<exists>fs. deathParticles (updateCorpses now dt g) = deathParticles g @ fs \<and>
        map D_EnemyID fs =
          concat (map (\<lambda>c. replicate 6 (C_EnemyID c)) (filter (expired now) (corpses g))) \<and>
        (\<forall>f \<in> set fs. D_Active f \<and> D_Bounces f = 0 \<and> \<not> D_OnGround f)"
proof (cases "corpses g = []")
  case True
  then show ?thesis by (simp add: updateCorpses_def)
next
  case False
  obtain fs where fs: "clrBlood (snd (forEach (corpseStep now dt) (corpses g) g)) =
          clrBlood (g\<lparr>deathParticles := deathParticles g @ fs\<rparr>)"
      "map D_EnemyID fs = concat (map (\<lambda>c. replicate 6 (C_EnemyID c)) (filter (expired now) (corpses g)))"
      "\<forall>f \<in> set fs. D_Active f \<and> D_Bounces f = 0 \<and> \<not> D_OnGround f"
    using corpsesLoop_effect by blast
  have "deathParticles (updateCorpses now dt g) =
        deathParticles (snd (forEach (corpseStep now dt) (corpses g) g))"
    using False by (simp add: updateCorpses_def split: prod.splits)
  then have "deathParticles (updateCorpses now dt g) = deathParticles g @ fs"
    using clrBlood_fields(4)[OF fs(1)] by simp
  then show ?thesis using fs(2,3) by blast
qed

lemma updateDeathParticles_exact:
  assumes "sameStage g g'"
  shows "\<exists>fs. deathParticles (updateCorpses now dt g) = deathParticles g @ fs \<and>
        map D_EnemyID fs =
          concat (map (\<lambda>c. replicate 6 (C_EnemyID c)) (filter (expired now) (corpses g))) \<and>
        (\<forall>f \<in> set fs. D_Active f \<and> D_Bounces f = 0 \<and> \<not> D_OnGround f) \<and>
        deathParticles (updateDeathParticles now dt g) =
          filter D_Active
            (map (\<lambda>p. fst (particleStep now dt p g'))
                 (if gameOver g then filter (\<lambda>p. D_EnemyID p = 0) (deathParticles g @ fs)
                  else deathParticles g @ fs))"
proof -
  obtain fs where fs: "deathParticles (updateCorpses now dt g) = deathParticles g @ fs"
      "map D_EnemyID fs = concat (map (\<lambda>c. replicate 6 (C_EnemyID c)) (filter (expired now) (corpses g)))"
      "\<forall>f \<in> set fs. D_Active f \<and> D_Bounces f = 0 \<and> \<not> D_OnGround f"
    using updateCorpses_burst by blast
  define g1 where "g1 = updateCorpses now dt g"
  define g2 where "g2 = (if gameOver g1
                then g1\<lparr>deathParticles := filter (\<lambda>p. D_EnemyID p = 0) (deathParticles g1)\<rparr>
                else g1)"
  define l where "l = forEach (particleStep now dt) (deathParticles g2) g2"
  have eq: "updateDeathParticles now dt g = (snd l)\<lparr>deathParticles := filter D_Active (fst l)\<rparr>"
    unfolding updateDeathParticles_split Let_def l_def g2_def g1_def ..
  have f1: "clrGore g1 = clrGore g" unfolding g1_def by (rule updateCorpses_frame)
  have go: "gameOver g1 = gameOver g" by (rule clrGore_fields(8)[OF f1])
  have "sameStage g1 g" by (rule clrGore_sameStage[OF f1])
  moreover have "sameStage g2 g1" by (simp add: g2_def sameStage_def)
  ultimately have st: "sameStage g2 g'" using assms sameStage_trans by blast
  have d2: "deathParticles g2 =
      (if gameOver g then filter (\<lambda>p. D_EnemyID p = 0) (deathParticles g @ fs)
       else deathParticles g @ fs)"
    unfolding g2_def go using fs(1) by (simp add: g1_def)
  have "fst l = map (\<lambda>p. fst (particleStep now dt p g')) (deathParticles g2)"
    unfolding l_def by (rule particlesLoop_map[OF st])
  then have "deathParticles (updateDeathParticles now dt g) =
          filter D_Active
            (map (\<lambda>p. fst (particleStep now dt p g'))
                 (if gameOver g then filter (\<lambda>p. D_EnemyID p = 0) (deathParticles g @ fs)
                  else deathParticles g @ fs))"
    unfolding eq d2[symmetric] by simp
  then show ?thesis using fs by blast
qed

lemma enemyFall_stage: "sameStage s g \<Longrightarrow> enemyFall dt s e = enemyFall dt g e"
  by (simp add: enemyFall_def sameStage_def)

lemma enemyLeave_stage: "sameStage s g \<Longrightarrow> enemyLeave dt s e = enemyLeave dt g e"
  by (simp add: enemyLeave_def sameStage_def)


lemma updatePlayer_keeps:
  "enemies (updatePlayer now dt g) = enemies g"
  "projectiles (updatePlayer now dt g) = projectiles g"
  "corpses (updatePlayer now dt g) = corpses g"
  "bloodParticles (updatePlayer now dt g) = bloodParticles g"
  "sameStage (updatePlayer now dt g) g"
  by (simp_all add: updatePlayer_def sameStage_def)

text \<open>The debris phase of a tick whose round is over.\<close>

lemma debris_roundOver:
  assumes "gameOver e" "sameStage e g"
  shows "clrGore (checkAndClearRedTiles (updateBloodParticles dt (updateDeathParticles now dt e))) = clrGore e"
    "\<forall>p \<in> set (deathParticles (checkAndClearRedTiles (updateBloodParticles dt (updateDeathParticles now dt e)))).
        D_EnemyID p = 0"
    "\<forall>b \<in> set (bloodParticles (checkAndClearRedTiles (updateBloodParticles dt (updateDeathParticles now dt e)))).
        B_EnemyID b = 0"
    "\<exists>fs. map D_EnemyID fs =
            concat (map (\<lambda>c. replicate 6 (C_EnemyID c)) (filter (expired now) (corpses e))) \<and>
          deathParticles (checkAndClearRedTiles (updateBloodParticles dt (updateDeathParticles now dt e))) =
            filter D_Active
              (map (\<lambda>p. fst (particleStep now dt p g))
                   (filter (\<lambda>p. D_EnemyID p = 0) (deathParticles e @ fs)))"
proof -
  note d = debris_effect[of dt now e]
  show "clrGore (checkAndClearRedTiles (updateBloodParticles dt (updateDeathParticles now dt e))) = clrGore e"
    using d by blast
  show "\<forall>p \<in> set (deathParticles (checkAndClearRedTiles (updateBloodParticles dt (updateDeathParticles now dt e)))).
        D_EnemyID p = 0" using d assms(1) by blast
  show "\<forall>b \<in> set (bloodParticles (checkAndClearRedTiles (updateBloodParticles dt (updateDeathParticles now dt e)))).
        B_EnemyID b = 0" using d assms(1) by blast
  from updateDeathParticles_exact[OF assms(2), of now dt] obtain fs where
    fs: "map D_EnemyID fs =
          concat (map (\<lambda>c. replicate 6 (C_EnemyID c)) (filter (expired now) (corpses e)))"
      "deathParticles (updateDeathParticles now dt e) =
          filter D_Active
            (map (\<lambda>p. fst (particleStep now dt p g))
                 (if gameOver e then filter (\<lambda>p. D_EnemyID p = 0) (deathParticles e @ fs)
                  else deathParticles e @ fs))" by blast
  have "deathParticles (checkAndClearRedTiles (updateBloodParticles dt (updateDeathParticles now dt e))) =
        deathParticles (updateDeathParticles now dt e)" by (rule debris_frags)
  then show "\<exists>fs. map D_EnemyID fs =
            concat (map (\<lambda>c. replicate 6 (C_EnemyID c)) (filter (expired now) (corpses e))) \<and>
          deathParticles (checkAndClearRedTiles (updateBloodParticles dt (updateDeathParticles now dt e))) =
            filter D_Active
              (map (\<lambda>p. fst (particleStep now dt p g))
                   (filter (\<lambda>p. D_EnemyID p = 0) (deathParticles e @ fs)))"
    using fs assms(1) by auto
qed

lemma roundOver_entry:
  assumes "\<not> inMenu g" "gameOver g \<or> playerDefeated (updatePlayer now dt g)"
  obtains e new where
    "update now dt g = checkAndClearRedTiles (updateBloodParticles dt (updateDeathParticles now dt e))"
    "gameOver e" "\<not> inMenu e" "sameStage e g" "projectiles e = []"
    "enemies e = filter E_Active
       (map (\<lambda>x. if E_Active x then enemyFall dt g (enemyLeave dt g x) else x) (enemies g))"
    "corpses e = corpses g" "deathParticles e = deathParticles g @ new"
    "gameOver g \<Longrightarrow> new = []"
    "\<not> gameOver g \<Longrightarrow>
       (\<forall>p \<in> set new. freshFrag 0 p) \<and>
       map D_Pos new = map (piecePos (P_Pos (player (updatePlayer now dt g))))
                           (playerPieces (P_Facing (player (updatePlayer now dt g))))"
proof (cases "gameOver g")
  case True
  define e where "e = g\<lparr>projectiles := [],
          enemies := filter E_Active
             (map (\<lambda>x. if E_Active x then enemyFall dt g (enemyLeave dt g x) else x) (enemies g))\<rparr>"
  have s: "sameStage (g\<lparr>projectiles := []\<rparr>) g" by (simp add: sameStage_def)
  have u: "update now dt g = checkAndClearRedTiles (updateBloodParticles dt (updateDeathParticles now dt e))"
    unfolding update_gameOver[OF True assms(1)] e_def
    by (simp only: enemyFall_stage[OF s] enemyLeave_stage[OF s])
  show ?thesis
    by (rule that[of e "[]"]) (use u True assms(1) in \<open>simp_all add: e_def sameStage_def\<close>)
next
  case False
  then have pd: "playerDefeated (updatePlayer now dt g)" using assms(2) by simp
  define gp where "gp = updatePlayer now dt g"
  define c where "c = createPlayerDeathParticles now gp"
  define g2 where "g2 = c\<lparr>gameOver := True, projectiles := []\<rparr>"
  define e where "e = g2\<lparr>enemies := filter E_Active
          (map (\<lambda>x. if E_Active x then enemyFall dt g2 (enemyLeave dt g2 x) else x) (enemies g2))\<rparr>"
  obtain new where new: "clrBlood c = clrBlood (gp\<lparr>deathParticles := deathParticles gp @ new\<rparr>)"
      "\<forall>f \<in> set new. freshFrag 0 f"
      "map D_Pos new = map (piecePos (P_Pos (player gp))) (playerPieces (P_Facing (player gp)))"
    unfolding c_def using createPlayerDeathParticles_effect by blast
  note f = clrBlood_fields[OF new(1)]
  have cc: "checkCollisions now gp = c\<lparr>gameOver := True\<rparr>"
    using pd by (simp add: checkCollisions_def gp_def c_def)
  have up: "updateProjectiles dt (c\<lparr>gameOver := True\<rparr>) = g2"
    by (simp add: updateProjectiles_def g2_def)
  have ue: "updateEnemies now dt g2 = e"
    unfolding e_def by (rule updateEnemies_gameOver) (simp add: g2_def)
  have u: "update now dt g = checkAndClearRedTiles (updateBloodParticles dt (updateDeathParticles now dt e))"
    unfolding update_ingame[OF assms(1)] using False by (simp add: gp_def[symmetric] cc up ue)
  have st2: "sameStage g2 g"
    using f(6,12,13,14) updatePlayer_keeps(5)[of now dt g]
    by (simp add: g2_def sameStage_def gp_def)
  have en2: "enemies g2 = enemies g"
    using f(3) by (simp add: g2_def gp_def updatePlayer_keeps)
  have en: "enemies e = filter E_Active
       (map (\<lambda>x. if E_Active x then enemyFall dt g (enemyLeave dt g x) else x) (enemies g))"
  proof -
    have "enemies e = filter E_Active
       (map (\<lambda>x. if E_Active x then enemyFall dt g2 (enemyLeave dt g2 x) else x) (enemies g2))"
      by (simp add: e_def)
    then show ?thesis
      by (simp only: en2 enemyFall_stage[OF st2] enemyLeave_stage[OF st2])
  qed
  have ste: "sameStage e g" using st2 by (simp add: e_def sameStage_def)
  have co: "corpses e = corpses g" using f(5) by (simp add: e_def g2_def gp_def updatePlayer_keeps)
  have de: "deathParticles e = deathParticles g @ new"
    using f(4) by (simp add: e_def g2_def gp_def updatePlayer_fields)
  have im: "\<not> inMenu e" using f(11) assms(1) by (simp add: e_def g2_def gp_def updatePlayer_fields)
  have go: "gameOver e" "projectiles e = []" by (simp_all add: e_def g2_def)
  show ?thesis
    by (rule that[of e new]) (use u go im ste en co de False new(2,3) in \<open>simp_all add: gp_def\<close>)
qed







lemma take_prefix_iff: "(take (length xs) ys = xs) = (\<exists>zs. ys = xs @ zs)"
proof
  assume "take (length xs) ys = xs"
  then have "ys = xs @ List.drop (length xs) ys" by (metis append_take_drop_id)
  then show "\<exists>zs. ys = xs @ zs" ..
next
  assume "\<exists>zs. ys = xs @ zs"
  then show "take (length xs) ys = xs" by auto
qed

lemma grown_iff:
  "grown g s = (\<exists>cs ds. corpses s = corpses g @ cs \<and> deathParticles s = deathParticles g @ ds)"
  unfolding grown_def take_prefix_iff by blast

lemma grown_refl: "grown g g"
  by (simp add: grown_def)

lemma grown_trans: "grown a b \<Longrightarrow> grown b c \<Longrightarrow> grown a c"
  unfolding grown_iff by (metis append.assoc)

lemma grown_same:
  "corpses s = corpses g \<Longrightarrow> deathParticles s = deathParticles g \<Longrightarrow> grown g s"
  by (simp add: grown_def)

lemma createDeathParticles_grown: "grown g (createDeathParticles now e g)"
proof (cases "rnd g 0 < 0.1")
  case True
  define g0 where "g0 = g\<lparr>rnd := dropRnd 1 (rnd g)\<rparr>"
  obtain h c where hc: "clrBlood (createDecap now e g0) =
           clrBlood (g0\<lparr>deathParticles := deathParticles g0 @ [h], corpses := corpses g0 @ [c],
                        nextEnemyID := wrap64 (nextEnemyID g0 + 1)\<rparr>)"
    using createDecap_effect by blast
  have "corpses (createDecap now e g0) = corpses g @ [c]"
       "deathParticles (createDecap now e g0) = deathParticles g @ [h]"
    using clrBlood_fields(4,5)[OF hc] by (simp_all add: g0_def)
  then show ?thesis
    unfolding createDeathParticles_decap[OF True] g0_def[symmetric] grown_iff by blast
next
  case False
  then obtain fs where fs: "clrBlood (createDeathParticles now e g) =
          clrBlood (g\<lparr>deathParticles := deathParticles g @ fs,
                      nextEnemyID := wrap64 (nextEnemyID g + 1)\<rparr>)"
    using createDeathParticles_burst by blast
  have "corpses (createDeathParticles now e g) = corpses g"
       "deathParticles (createDeathParticles now e g) = deathParticles g @ fs"
    using clrBlood_fields(4,5)[OF fs] by simp_all
  then show ?thesis unfolding grown_iff by simp
qed

text \<open>What the phases before the debris phase keep.\<close>

lemma kept_refl: "kept g g"
  by (simp add: kept_def grown_refl sameStage_refl)

lemma kept_trans: "kept a b \<Longrightarrow> kept b c \<Longrightarrow> kept a c"
  unfolding kept_def using grown_trans sameStage_trans by (metis sameStage_sym)

lemma kept_same:
  assumes "corpses s = corpses g" "deathParticles s = deathParticles g" "gameOver s = gameOver g"
    "inMenu s = inMenu g" "sameStage s g"
  shows "kept g s"
  using assms by (simp add: kept_def grown_same)

lemma createDeathParticles_kept: "kept g (createDeathParticles now e g)"
proof -
  note f = clrGore_fields[OF createDeathParticles_frame[of now e g]]
  show ?thesis
    unfolding kept_def using createDeathParticles_grown f(8,9) clrGore_sameStage[OF createDeathParticles_frame]
    by simp
qed

lemma kept_fight:
  "kept g s \<Longrightarrow> kept g (s\<lparr>enemies := es, score := sc, enemiesDefeated := n\<rparr>)"
  "kept g s \<Longrightarrow> kept g (s\<lparr>enemies := es\<rparr>)"
  "kept g s \<Longrightarrow> kept g (s\<lparr>projectiles := prs\<rparr>)"
  by (simp_all add: kept_def grown_def sameStage_def)

lemma projectileKill_kept: "kept g (snd (projectileKill now pr g))"
  by (simp add: projectileKill_def kept_refl kept_fight createDeathParticles_kept
        split: option.splits prod.splits)

lemma menuKill_kept: "kept g (snd (menuKill now pr g))"
  by (simp add: menuKill_def kept_refl kept_fight createDeathParticles_kept
        split: option.splits prod.splits)

lemma killLoop_kept:
  assumes "\<And>pr s. kept s (snd (f pr s))"
  shows "kept g (snd (forEach f prs g))"
proof -
  have "kept g (snd (forEach f prs g)) \<and> list_all2 (\<lambda>_ _. True) prs (fst (forEach f prs g))"
    by (rule forEach_inv[where I = "\<lambda>s. kept g s"]) (use assms kept_refl kept_trans in blast)+
  then show ?thesis by simp
qed

lemma updateEnemies_kept: "kept g (updateEnemies now dt g)"
proof -
  define l where "l = forEach (enemyStep now dt) (enemies g) g"
  define g2 where "g2 = (snd l)\<lparr>enemies := filter E_Active (fst l)\<rparr>"
  have eq: "updateEnemies now dt g =
      (if gameOver g2 then g2
         else if rnd g2 0 < spawnRate g2 then spawnEnemy (g2\<lparr>rnd := dropRnd 1 (rnd g2)\<rparr>)
         else g2\<lparr>rnd := dropRnd 1 (rnd g2)\<rparr>)"
    unfolding updateEnemies_split l_def g2_def Let_def ..
  have fl: "clrShots (snd l) = clrShots g" unfolding l_def by (rule enemiesLoop_frame)
  note f = clrShots_fields[OF fl]
  have k: "kept g g2"
    using f by (simp add: g2_def kept_def grown_def sameStage_def)
  have "kept g2 (updateEnemies now dt g)"
    unfolding eq by (simp add: kept_def grown_def sameStage_def spawnEnemy_def Let_def)
  then show ?thesis using k kept_trans by blast
qed

lemma updateProjectiles_kept: "kept g (updateProjectiles dt g)"
  by (simp add: updateProjectiles_def kept_def grown_def sameStage_def)

lemma updatePlayer_kept: "kept g (updatePlayer now dt g)"
  by (simp add: updatePlayer_def kept_def grown_def sameStage_def)

lemma menu_kept: "kept g (menuSpawn now (menuPlayer now g))"
  by (simp add: menuSpawn_def menuPlayer_def kept_def grown_def sameStage_def Let_def)

text \<open>Every tick ends with the debris phase, entered with all corpses and fragments still there.\<close>

lemma tick_entry:
  obtains e where
    "update now dt g =
       checkAndClearRedTiles (updateBloodParticles dt (updateDeathParticles now dt e))"
    "grown g e" "sameStage e g"
    "gameOver e = (gameOver g \<or> \<not> inMenu g \<and> playerDefeated (updatePlayer now dt g))"
proof (cases "inMenu g")
  case True
  define g1 where "g1 = menuSpawn now (menuPlayer now g)"
  define g2 where "g2 = g1\<lparr>enemies := filter E_Active (map (menuEnemyStep dt g1) (enemies g1))\<rparr>"
  define g3 where "g3 = updateProjectiles dt g2"
  define l where "l = forEach (menuKill now) (projectiles g3) g3"
  define g4 where "g4 = (snd l)\<lparr>projectiles := fst l\<rparr>"
  have eq: "update now dt g =
      checkAndClearRedTiles (updateBloodParticles dt (updateDeathParticles now dt g4))"
    using True unfolding update_def updateMenu_def Let_def g1_def g2_def g3_def l_def g4_def
    by (simp split: prod.splits)
  have "kept g g1" unfolding g1_def by (rule menu_kept)
  then have "kept g g2" unfolding g2_def by (rule kept_fight)
  then have "kept g g3" unfolding g3_def using updateProjectiles_kept kept_trans by blast
  moreover have "kept g3 (snd l)" unfolding l_def by (rule killLoop_kept) (rule menuKill_kept)
  ultimately have "kept g (snd l)" by (rule kept_trans)
  then have k: "kept g g4" unfolding g4_def by (rule kept_fight)
  show ?thesis
    by (rule that[of g4]) (use eq k True in \<open>simp_all add: kept_def\<close>)
next
  case False
  show ?thesis
  proof (cases "gameOver g \<or> playerDefeated (updatePlayer now dt g)")
    case True
    from roundOver_entry[OF False True] obtain e new where
      e: "update now dt g = checkAndClearRedTiles (updateBloodParticles dt (updateDeathParticles now dt e))"
        "gameOver e" "sameStage e g" "corpses e = corpses g" "deathParticles e = deathParticles g @ new"
      by blast
    have "grown g e" unfolding grown_iff using e(4,5) by simp
    then show ?thesis
      by (rule that[OF e(1) _ e(3)]) (use e(2) True False in simp)
  next
    case nd: False
    define gp where "gp = updatePlayer now dt g"
    define l where "l = forEach (projectileKill now) (projectiles gp) gp"
    define g1 where "g1 = (snd l)\<lparr>projectiles := fst l\<rparr>"
    define e where "e = updateEnemies now dt (updateProjectiles dt g1)"
    have cc: "checkCollisions now gp = g1"
      using nd by (simp add: checkCollisions_def gp_def g1_def l_def split: prod.splits)
    have eq: "update now dt g =
        checkAndClearRedTiles (updateBloodParticles dt (updateDeathParticles now dt e))"
      unfolding update_ingame[OF False] using nd by (simp add: gp_def[symmetric] cc e_def)
    have "kept g gp" unfolding gp_def by (rule updatePlayer_kept)
    moreover have "kept gp (snd l)" unfolding l_def by (rule killLoop_kept) (rule projectileKill_kept)
    ultimately have "kept g (snd l)" by (rule kept_trans)
    then have "kept g g1" unfolding g1_def by (rule kept_fight)
    then have "kept g (updateProjectiles dt g1)" using updateProjectiles_kept kept_trans by blast
    then have k: "kept g e" unfolding e_def using updateEnemies_kept kept_trans by blast
    show ?thesis
      by (rule that[of e]) (use eq k nd False in \<open>simp_all add: kept_def\<close>)
  qed
qed

lemma updateCorpses_corpses:
  "list_all2 (\<lambda>c c'. C_EnemyID c' = C_EnemyID c \<and> (\<not> C_Active c \<longrightarrow> c' = c) \<and>
                      C_Active c' = (C_Active c \<and> \<not> now > C_EndTime c))
             (corpses g) (corpses (updateCorpses now dt g))"
proof -
  have c: "corpses (updateCorpses now dt g) = fst (forEach (corpseStep now dt) (corpses g) g)"
    by (cases "corpses g = []") (simp_all add: updateCorpses_def split: prod.splits)
  show ?thesis
    unfolding c by (rule list_all2_mono[OF corpsesLoop_corpses]) simp
qed

lemma tick_corpses:
  "\<exists>cs. list_all2 (\<lambda>c c'. C_EnemyID c' = C_EnemyID c \<and> (\<not> C_Active c \<longrightarrow> c' = c) \<and>
                      C_Active c' = (C_Active c \<and> \<not> now > C_EndTime c))
             (corpses g @ cs) (corpses (update now dt g))"
proof -
  obtain e where e: "update now dt g =
       checkAndClearRedTiles (updateBloodParticles dt (updateDeathParticles now dt e))"
    "grown g e" by (rule tick_entry)
  obtain cs where cs: "corpses e = corpses g @ cs" using e(2) unfolding grown_iff by blast
  have "corpses (update now dt g) = corpses (updateCorpses now dt e)"
    unfolding e(1) by (simp add: debris_corpses updateDeathParticles_corpses)
  then show ?thesis using updateCorpses_corpses[of now e dt] cs by auto
qed

lemma applyInput_corpses: "corpses (applyInput now ev g) = corpses g"
proof (cases ev)
  case None
  then show ?thesis by (simp add: applyInput_def)
next
  case (Some i)
  show ?thesis
  proof (cases i)
    case (KeyEv k)
    have "corpses (handleInput now k g) = corpses g"
      by (cases k) (simp_all add: handleInput_def startGame_fields restartGame_fields toggleBlood_def)
    then show ?thesis using Some KeyEv by (simp add: applyInput_def)
  next
    case (ResizeEv w h)
    then show ?thesis using Some by (simp add: applyInput_def resize_def Let_def)
  qed
qed

lemma frame_inactive:
  assumes "i < length (corpses g)" "\<not> C_Active (corpses g ! i)"
  shows "i < length (corpses (frame now dt ev g)) \<and> corpses (frame now dt ev g) ! i = corpses g ! i"
proof -
  define g1 where "g1 = applyInput now ev g"
  have c1: "corpses g1 = corpses g" unfolding g1_def by (rule applyInput_corpses)
  obtain cs where cs: "list_all2 (\<lambda>c c'. C_EnemyID c' = C_EnemyID c \<and> (\<not> C_Active c \<longrightarrow> c' = c) \<and>
                      C_Active c' = (C_Active c \<and> \<not> now > C_EndTime c))
             (corpses g1 @ cs) (corpses (update now (clampDt dt) g1))"
    using tick_corpses by blast
  have len: "length (corpses (update now (clampDt dt) g1)) = length (corpses g) + length cs"
    using list_all2_lengthD[OF cs] c1 by simp
  have "\<not> C_Active ((corpses g1 @ cs) ! i) \<longrightarrow>
        corpses (update now (clampDt dt) g1) ! i = (corpses g1 @ cs) ! i"
    using list_all2_nthD[OF cs, of i] assms(1) c1 by simp
  then have "corpses (update now (clampDt dt) g1) ! i = corpses g ! i"
    using assms c1 by (simp add: nth_append)
  then show ?thesis using len assms(1) by (simp add: frame_def g1_def)
qed

lemma runFrames_inactive:
  assumes "i < length (corpses g)" "\<not> C_Active (corpses g ! i)"
  shows "i < length (corpses (runFrames fs g)) \<and> corpses (runFrames fs g) ! i = corpses g ! i"
  using assms
proof (induction fs arbitrary: g)
  case Nil
  then show ?case by simp
next
  case (Cons a fs)
  obtain now dt ev where a: "a = (now, dt, ev)" by (cases a)
  note f = frame_inactive[OF Cons.prems, of now dt ev]
  have "i < length (corpses (runFrames fs (frame now dt ev g))) \<and>
        corpses (runFrames fs (frame now dt ev g)) ! i = corpses (frame now dt ev g) ! i"
    by (rule Cons.IH) (use f Cons.prems in simp_all)
  then show ?case using f by (simp add: a)
qed

lemma ids_nonzero:
  assumes "map D_EnemyID fs = concat (map (\<lambda>c. replicate 6 (C_EnemyID c)) cs)"
    and "\<forall>c \<in> set cs. C_EnemyID c \<noteq> 0"
  shows "filter (\<lambda>p. D_EnemyID p = 0) fs = []"
proof -
  have "set (map D_EnemyID fs) \<subseteq> C_EnemyID ` set cs"
    unfolding assms(1) by auto
  then have "\<forall>p \<in> set fs. D_EnemyID p \<noteq> 0" using assms(2) by auto
  then show ?thesis by (simp add: filter_empty_conv)
qed
section \<open>After the player's defeat\<close>



section \<open>The bounce counter\<close>

text \<open>
  C2, as the code has it. At every tick of a run that starts from \<open>NewGame\<close>, and across any
  single \<open>update\<close>, each fragment's bounce counter is between 0 and 2 or it is 999, the
  value a falls-through fragment is marked with when it passes the ground (so a fragment
  that is not flagged falls-through never exceeds 2); and a settled fragment (\<open>OnGround\<close>)
  has zero vertical velocity.
\<close>

theorem bounce_counter_invariant:
  "(\<forall>p \<in> set (deathParticles (runFrames fs (NewGame w h t r))).
      (0 \<le> D_Bounces p \<and> D_Bounces p \<le> 2 \<or> D_Bounces p = 999 \<and> D_FallsThrough p) \<and>
      (D_OnGround p \<longrightarrow> Y (D_Vel p) = 0)) \<and>
   ((\<forall>p \<in> set (deathParticles g).
      (0 \<le> D_Bounces p \<and> D_Bounces p \<le> 2 \<or> D_Bounces p = 999 \<and> D_FallsThrough p) \<and>
      (D_OnGround p \<longrightarrow> Y (D_Vel p) = 0)) \<longrightarrow>
    (\<forall>p \<in> set (deathParticles (update now dt g)).
      (0 \<le> D_Bounces p \<and> D_Bounces p \<le> 2 \<or> D_Bounces p = 999 \<and> D_FallsThrough p) \<and>
      (D_OnGround p \<longrightarrow> Y (D_Vel p) = 0)))"
  using runFrames_fragsOK[OF NewGame_fragsOK, of fs w h t r] update_fragsOK[of g now dt]
  unfolding fragsOK_def fragOK_def by blast

theorem bounce_counter_invariant_witness:
  "map D_Bounces (deathParticles ruin) = [0] \<and>
   map D_OnGround (deathParticles ruin) = [False] \<and>
   map D_Bounces (deathParticles (update 0 (1 / 30) ruin)) = [999] \<and>
   map D_FallsThrough (deathParticles (update 0 (1 / 30) ruin)) = [True] \<and>
   map D_OnGround (deathParticles (update 0 (1 / 30) ruin)) = [False]"
proof -
  have a: "\<forall>p \<in> set (deathParticles ruin).
      (0 \<le> D_Bounces p \<and> D_Bounces p \<le> 2 \<or> D_Bounces p = 999 \<and> D_FallsThrough p) \<and>
      (D_OnGround p \<longrightarrow> Y (D_Vel p) = 0)"
    by (simp add: ruin_fields shard_def)
  have b: "map D_Bounces (deathParticles (update 0 (1 / 30) ruin)) = [999]"
     "map D_OnGround (deathParticles (update 0 (1 / 30) ruin)) = [False]"
    by (simp_all add: ruin_update shard_def)
  from bounce_counter_invariant [of "[]" 80 24 0 "\<lambda>_. 0" ruin 0 "1 / 30"] a
  have "\<forall>p \<in> set (deathParticles (update 0 (1 / 30) ruin)).
      (0 \<le> D_Bounces p \<and> D_Bounces p \<le> 2 \<or> D_Bounces p = 999 \<and> D_FallsThrough p)"
    by blast
  then have c: "map D_FallsThrough (deathParticles (update 0 (1 / 30) ruin)) = [True]"
    by (simp add: ruin_update)
  show ?thesis using b c by (simp add: ruin_fields shard_def)
qed

text \<open>
  C2 as stated fails: one tick after the defeat, the falls-through piece of \<open>ruin\<close> has
  passed the ground and its bounce counter is 999.
\<close>

theorem bounce_counter_exceeds_two:
  "length (deathParticles (update 0 (1 / 30) ruin)) = 1 \<and>
   \<not> D_Bounces (hd (deathParticles (update 0 (1 / 30) ruin))) \<le> 2"
  by (simp add: ruin_update)

section \<open>Falling through the ground\<close>

text \<open>
  C3, as the code has it. Take an active fragment flagged falls-through that is in the air
  and touches no platform after its move. If its bounce counter is still 0, it is moving
  down and has reached the resting row above the ground, the step lets it pass: position
  and velocity stay as the move left them, it is not settled, the world receives exactly
  one impact burst on top of the trail emitted in the air, and the counter is set to 999.
  Once the counter is 999 the ground check is skipped for good: the step leaves position and
  velocity to the move alone and adds nothing but the trail, whether or not the fragment is
  below the resting row. A falls-through fragment that has already bounced (a counter of 1
  or 2, from a platform) collides with the ground normally: it is clamped to the resting
  row.
\<close>

theorem falls_through_once:
  assumes "D_Active p" "\<not> D_OnGround p" "D_FallsThrough p"
    and "\<forall>pl \<in> set (platforms g). \<not> isOnPlatform (gravityMove dt p) pl"
  shows
    "(D_Bounces p = 0 \<and> Y (D_Vel (gravityMove dt p)) > 0 \<and>
      Y (D_Pos (gravityMove dt p)) \<ge> real_of_int (groundY g - 1) \<longrightarrow>
        snd (particleStep now dt p g) =
          impactEmit (gravityMove dt (fst (airEmit now p g))) (snd (airEmit now p g)) \<and>
        D_Bounces (fst (particleStep now dt p g)) = 999 \<and>
        D_Pos (fst (particleStep now dt p g)) = D_Pos (gravityMove dt p) \<and>
        D_Vel (fst (particleStep now dt p g)) = D_Vel (gravityMove dt p) \<and>
        \<not> D_OnGround (fst (particleStep now dt p g))) \<and>
     (D_Bounces p = 999 \<longrightarrow>
        snd (particleStep now dt p g) = snd (airEmit now p g) \<and>
        D_Bounces (fst (particleStep now dt p g)) = 999 \<and>
        D_Pos (fst (particleStep now dt p g)) = D_Pos (gravityMove dt p) \<and>
        D_Vel (fst (particleStep now dt p g)) = D_Vel (gravityMove dt p) \<and>
        \<not> D_OnGround (fst (particleStep now dt p g))) \<and>
     (0 < D_Bounces p \<and> D_Bounces p < 999 \<and>
      Y (D_Pos (gravityMove dt p)) \<ge> real_of_int (groundY g - 1) \<longrightarrow>
        Y (D_Pos (fst (particleStep now dt p g))) = real_of_int (groundY g - 1))"
proof -
  define a where "a = airEmit now p g"
  define q where "q = gravityMove dt (fst a)"
  define c where "c = groundCollide now False q (snd a)"
  define r where "r = rollHead now dt (offBottom (snd c) (fst c)) (snd c)"
  have st: "particleStep now dt p g = (offSides (snd r) (fst r), snd r)"
    unfolding particleStep_air[OF assms(1,4)] Let_def a_def q_def c_def r_def ..
  have q: "D_Pos q = D_Pos (gravityMove dt p)" "D_Vel q = D_Vel (gravityMove dt p)"
      "\<not> D_OnGround q" "D_Bounces q = D_Bounces p" "D_FallsThrough q"
    unfolding q_def a_def using assms(2,3) by (simp_all add: air_facts)
  have gy: "groundY (snd a) = groundY g" unfolding a_def by (rule airEmit_geo)
  have off: "D_Pos (offSides g' (offBottom g'' x)) = D_Pos x"
       "D_Vel (offSides g' (offBottom g'' x)) = D_Vel x"
       "D_Bounces (offSides g' (offBottom g'' x)) = D_Bounces x"
       "D_OnGround (offSides g' (offBottom g'' x)) = D_OnGround x" for g' g'' x
    by (simp_all add: offSides_def offBottom_def)
  have A: "D_Bounces p = 0 \<and> Y (D_Vel (gravityMove dt p)) > 0 \<and>
      Y (D_Pos (gravityMove dt p)) \<ge> real_of_int (groundY g - 1) \<longrightarrow>
        snd (particleStep now dt p g) =
          impactEmit (gravityMove dt (fst (airEmit now p g))) (snd (airEmit now p g)) \<and>
        D_Bounces (fst (particleStep now dt p g)) = 999 \<and>
        D_Pos (fst (particleStep now dt p g)) = D_Pos (gravityMove dt p) \<and>
        D_Vel (fst (particleStep now dt p g)) = D_Vel (gravityMove dt p) \<and>
        \<not> D_OnGround (fst (particleStep now dt p g))"
  proof
    assume h: "D_Bounces p = 0 \<and> Y (D_Vel (gravityMove dt p)) > 0 \<and>
      Y (D_Pos (gravityMove dt p)) \<ge> real_of_int (groundY g - 1)"
    have c': "c = (q\<lparr>D_Bounces := 999\<rparr>, impactEmit q (snd a))"
      unfolding c_def using h q gy by (simp add: groundCollide_def Let_def)
    have "\<not> D_OnGround (offBottom (snd c) (fst c))" using q(3) by (simp add: c' offBottom_def)
    then have r': "r = (offBottom (snd c) (fst c), snd c)" unfolding r_def by (rule rollHead_air)
    show "snd (particleStep now dt p g) =
          impactEmit (gravityMove dt (fst (airEmit now p g))) (snd (airEmit now p g)) \<and>
        D_Bounces (fst (particleStep now dt p g)) = 999 \<and>
        D_Pos (fst (particleStep now dt p g)) = D_Pos (gravityMove dt p) \<and>
        D_Vel (fst (particleStep now dt p g)) = D_Vel (gravityMove dt p) \<and>
        \<not> D_OnGround (fst (particleStep now dt p g))"
      unfolding st r' using q by (simp add: off c') (simp add: q_def a_def)
  qed
  have B: "D_Bounces p = 999 \<longrightarrow>
        snd (particleStep now dt p g) = snd (airEmit now p g) \<and>
        D_Bounces (fst (particleStep now dt p g)) = 999 \<and>
        D_Pos (fst (particleStep now dt p g)) = D_Pos (gravityMove dt p) \<and>
        D_Vel (fst (particleStep now dt p g)) = D_Vel (gravityMove dt p) \<and>
        \<not> D_OnGround (fst (particleStep now dt p g))"
  proof
    assume h: "D_Bounces p = 999"
    have c': "c = (q, snd a)"
      unfolding c_def using h q by (simp add: groundCollide_def Let_def)
    have "\<not> D_OnGround (offBottom (snd c) (fst c))" using q(3) by (simp add: c' offBottom_def)
    then have r': "r = (offBottom (snd c) (fst c), snd c)" unfolding r_def by (rule rollHead_air)
    show "snd (particleStep now dt p g) = snd (airEmit now p g) \<and>
        D_Bounces (fst (particleStep now dt p g)) = 999 \<and>
        D_Pos (fst (particleStep now dt p g)) = D_Pos (gravityMove dt p) \<and>
        D_Vel (fst (particleStep now dt p g)) = D_Vel (gravityMove dt p) \<and>
        \<not> D_OnGround (fst (particleStep now dt p g))"
      unfolding st r' using q h by (simp add: off c') (simp add: a_def)
  qed
  have C: "0 < D_Bounces p \<and> D_Bounces p < 999 \<and>
      Y (D_Pos (gravityMove dt p)) \<ge> real_of_int (groundY g - 1) \<longrightarrow>
        Y (D_Pos (fst (particleStep now dt p g))) = real_of_int (groundY g - 1)"
  proof
    assume h: "0 < D_Bounces p \<and> D_Bounces p < 999 \<and>
      Y (D_Pos (gravityMove dt p)) \<ge> real_of_int (groundY g - 1)"
    have c': "c = groundNormal now (real_of_int (groundY g - 1)) q (snd a)"
      unfolding c_def using h q gy by (simp add: groundCollide_def Let_def)
    have "D_Pos (fst (particleStep now dt p g)) = D_Pos (fst c)"
      unfolding st r_def by (simp add: offSides_def offBottom_def rollHead_pos)
    then show "Y (D_Pos (fst (particleStep now dt p g))) = real_of_int (groundY g - 1)"
      unfolding c' by (simp add: groundNormal_clamps)
  qed
  show ?thesis using A B C by blast
qed

theorem falls_through_once_witness:
  "D_Active shard \<and> \<not> D_OnGround shard \<and> D_FallsThrough shard \<and>
   \<not> isOnPlatform (gravityMove (1 / 30) shard) ledge \<and>
   D_Bounces shard = 0 \<and> Y (D_Vel (gravityMove (1 / 30) shard)) > 0 \<and>
   Y (D_Pos (gravityMove (1 / 30) shard)) \<ge> real_of_int (groundY cliff - 1) \<and>
   D_Bounces (fst (particleStep 0 (1 / 30) shard cliff)) = 999 \<and>
   \<not> D_OnGround (fst (particleStep 0 (1 / 30) shard cliff)) \<and>
   D_Bounces (fst (particleStep 0 (1 / 30) (shard\<lparr>D_Bounces := 999\<rparr>) cliff)) = 999 \<and>
   Y (D_Pos (fst (particleStep 0 (1 / 30) (shard\<lparr>D_Bounces := 999\<rparr>) cliff))) > 22 \<and>
   Y (D_Pos (fst (particleStep 0 (1 / 30) (shard\<lparr>D_Bounces := 1\<rparr>) cliff))) = 22"
proof -
  have c: "platforms cliff = [ledge]" "groundY cliff = 23"
    by (simp_all add: cliff_def ruin_def arena_def)
  have m: "D_Pos (gravityMove (1 / 30) q) = \<lparr>X = 10, Y = 21.9 + 1 / 3\<rparr>"
       "D_Vel (gravityMove (1 / 30) q) = \<lparr>X = 0, Y = 10\<rparr>"
    if "q = shard\<lparr>D_Bounces := b\<rparr>" for q b
    using that by (simp_all add: gravityMove_def Let_def shard_def)
  have m0: "D_Pos (gravityMove (1 / 30) shard) = \<lparr>X = 10, Y = 21.9 + 1 / 3\<rparr>"
       "D_Vel (gravityMove (1 / 30) shard) = \<lparr>X = 0, Y = 10\<rparr>"
    by (simp_all add: gravityMove_def Let_def shard_def)
  have s: "D_Active shard" "\<not> D_OnGround shard" "D_FallsThrough shard" "D_Bounces shard = 0"
    by (simp_all add: shard_def)
  have np: "\<not> isOnPlatform (gravityMove (1 / 30) q) ledge" if "q = shard\<lparr>D_Bounces := b\<rparr>" for q b
    by (simp add: isOnPlatform_def Let_def m[OF that] ledge_def)
  have np0: "\<not> isOnPlatform (gravityMove (1 / 30) shard) ledge"
    by (simp add: isOnPlatform_def Let_def m0 ledge_def)
  have h: "Y (D_Vel (gravityMove (1 / 30) shard)) > 0"
    "Y (D_Pos (gravityMove (1 / 30) shard)) \<ge> real_of_int (groundY cliff - 1)"
    by (simp_all add: m0 c)
  have A: "D_Bounces (fst (particleStep 0 (1 / 30) shard cliff)) = 999 \<and>
           \<not> D_OnGround (fst (particleStep 0 (1 / 30) shard cliff))"
    using falls_through_once [of shard cliff "1 / 30" 0] s h np0 by (simp add: c)
  have B: "D_Bounces (fst (particleStep 0 (1 / 30) (shard\<lparr>D_Bounces := 999\<rparr>) cliff)) = 999 \<and>
           D_Pos (fst (particleStep 0 (1 / 30) (shard\<lparr>D_Bounces := 999\<rparr>) cliff)) =
             D_Pos (gravityMove (1 / 30) (shard\<lparr>D_Bounces := 999\<rparr>))"
    using falls_through_once [of "shard\<lparr>D_Bounces := 999\<rparr>" cliff "1 / 30" 0] s np[of _ 999]
    by (simp add: c)
  have C: "Y (D_Pos (fst (particleStep 0 (1 / 30) (shard\<lparr>D_Bounces := 1\<rparr>) cliff))) = 22"
    using falls_through_once [of "shard\<lparr>D_Bounces := 1\<rparr>" cliff "1 / 30" 0] s np[of _ 1]
      m(1)[of "shard\<lparr>D_Bounces := 1\<rparr>" 1]
    by (simp add: c)
  show ?thesis using s np0 h A B C m(1)[of "shard\<lparr>D_Bounces := 999\<rparr>" 999] by simp
qed

text \<open>
  C3 as stated fails on a later crossing. In \<open>ruin\<close> the piece passes the ground in the
  first tick (counter 999, at height 22.23). A resize to 25 rows moves the resting row down
  to 23, above which the piece now is; in the next tick it crosses that row again, moving
  down, and is neither clamped nor bounced nor settled.
\<close>

theorem no_collision_after_passing:
  "Y (D_Pos (hd (deathParticles (update 0 (1 / 30) ruin)))) < 23 \<and>
   D_Bounces (hd (deathParticles (update 0 (1 / 30) ruin))) = 999 \<and>
   groundY (resize 80 25 (update 0 (1 / 30) ruin)) - 1 = 23 \<and>
   Y (D_Pos (hd (deathParticles
        (frame 1 (1 / 20) (Some (ResizeEv 80 25)) (update 0 (1 / 30) ruin))))) > 23 \<and>
   Y (D_Vel (hd (deathParticles
        (frame 1 (1 / 20) (Some (ResizeEv 80 25)) (update 0 (1 / 30) ruin))))) > 0 \<and>
   \<not> D_OnGround (hd (deathParticles
        (frame 1 (1 / 20) (Some (ResizeEv 80 25)) (update 0 (1 / 30) ruin))))"
proof -
  define w1 where "w1 = update 0 (1 / 30) ruin"
  define w where "w = resize 80 25 w1"
  define sunk where "sunk = shard\<lparr>D_Pos := \<lparr>X = 10, Y = 21.9 + 1 / 3\<rparr>, D_Vel := \<lparr>X = 0, Y = 10\<rparr>,
                                 D_Bounces := 999\<rparr>"
  note u = update_gameOver_fields[OF ruin_fields(1,2), of 0 "1 / 30", folded w1_def]
  have d1: "deathParticles w1 = [sunk]" unfolding w1_def sunk_def by (rule ruin_update)
  have w: "gameOver w" "\<not> inMenu w" "corpses w = []" "platforms w = []" "groundY w = 24"
    "height w = 25" "width w = 80" "deathParticles w = [sunk]"
    unfolding w_def using u(1,2,3) u(9)[OF ruin_fields(4)] d1
    by (simp_all add: resize_def Let_def ruin_fields)
  have fr: "frame 1 (1 / 20) (Some (ResizeEv 80 25)) w1 = update 1 (1 / 20) w"
    by (simp add: frame_def applyInput_def clampDt_def w_def)
  have id: "D_EnemyID sunk = 0" by (simp add: sunk_def shard_def)
  have "fst (particleStep 1 (1 / 20) sunk
        (w\<lparr>projectiles := [],
           enemies := filter E_Active
             (map (\<lambda>e. if E_Active e
                        then enemyFall (1 / 20) (w\<lparr>projectiles := []\<rparr>) (enemyLeave (1 / 20) (w\<lparr>projectiles := []\<rparr>) e)
                        else e) (enemies w))\<rparr>)) =
     shard\<lparr>D_Pos := \<lparr>X = 10, Y = 21.9 + 1 / 3 + 5 / 4\<rparr>, D_Vel := \<lparr>X = 0, Y = 25\<rparr>, D_Bounces := 999\<rparr>"
    unfolding sunk_def by (rule sunk_step) (simp_all add: w)
  then have d2: "deathParticles (update 1 (1 / 20) w) =
      [shard\<lparr>D_Pos := \<lparr>X = 10, Y = 21.9 + 1 / 3 + 5 / 4\<rparr>, D_Vel := \<lparr>X = 0, Y = 25\<rparr>, D_Bounces := 999\<rparr>]"
    unfolding update_gameOver_single[OF w(1,2,3,8) id] by (simp add: shard_def)
  have g: "groundY w - 1 = 23" by (simp add: w)
  show ?thesis unfolding w1_def[symmetric] fr d1 d2 w_def[symmetric]
    using g by (simp add: sunk_def shard_def)
qed

section \<open>The end of a blood particle\<close>

text \<open>
  C4, as the code has it. In the step of an active blood particle, after its move:
  it stays active exactly when it touches no platform, its lifetime minus the elapsed time
  is still positive, and it is inside the viewport (not left of -10, not right of the width
  plus 10, not below the height). If it touches a platform, the first one in the list
  takes a stain for the particle's source id at the particle's column, provided the column
  is on screen. If it touches none and has reached the ground line, the ground takes the stain
  at that column, provided the column is on screen, and the contact itself does not
  deactivate the particle. When the game is over, the update first discards every blood
  particle of an opponent.
\<close>

theorem blood_particle_step:
  assumes "B_Active b"
  shows
    "(B_Active (fst (bloodStep dt b g)) \<longleftrightarrow>
        (\<forall>pl \<in> set (platforms g). \<not> bloodTouches (bloodMove dt b) pl) \<and>
        B_Lifetime b - dt > 0 \<and>
        \<not> (X (B_Pos (bloodMove dt b)) < - 10 \<or>
           X (B_Pos (bloodMove dt b)) > real_of_int (width g) + 10 \<or>
           Y (B_Pos (bloodMove dt b)) > real_of_int (height g))) \<and>
     (\<forall>i < length (platforms g).
        bloodTouches (bloodMove dt b) (platforms g ! i) \<and>
        (\<forall>j < i. \<not> bloodTouches (bloodMove dt b) (platforms g ! j)) \<and>
        0 \<le> goInt (X (B_Pos (bloodMove dt b))) \<and> goInt (X (B_Pos (bloodMove dt b))) < width g \<longrightarrow>
        redPlatformTiles (snd (bloodStep dt b g)) (int i * 10000 + goInt (X (B_Pos (bloodMove dt b)))) =
          Some (B_EnemyID b)) \<and>
     ((\<forall>pl \<in> set (platforms g). \<not> bloodTouches (bloodMove dt b) pl) \<and>
      Y (B_Pos (bloodMove dt b)) \<ge> real_of_int (groundY g) \<and>
      0 \<le> goInt (X (B_Pos (bloodMove dt b))) \<and> goInt (X (B_Pos (bloodMove dt b))) < width g \<longrightarrow>
        redGroundTiles (snd (bloodStep dt b g)) (goInt (X (B_Pos (bloodMove dt b)))) =
          Some (B_EnemyID b)) \<and>
     (gameOver g \<longrightarrow> (\<forall>c \<in> set (bloodParticles (updateBloodParticles dt g)). B_EnemyID c = 0))"
proof -
  define m where "m = bloodMove dt b"
  define h where "h = bloodHit m g"
  have st: "bloodStep dt b g = (bloodExpire dt (snd h) (fst h), snd h)"
    using assms by (simp add: bloodStep_split h_def m_def)
  have geo: "width (snd h) = width g" "height (snd h) = height g"
    unfolding h_def using clrTiles_fields(7,8)[OF bloodHit_frame] by simp_all
  have mm: "B_Active m" "B_Lifetime m = B_Lifetime b" "B_EnemyID m = B_EnemyID b"
    unfolding m_def using assms by (simp_all add: bloodMove_def Let_def)
  have none: "h = (m, (if Y (B_Pos m) \<ge> real_of_int (groundY g)
                       then (if 0 \<le> goInt (X (B_Pos m)) \<and> goInt (X (B_Pos m)) < width g
                             then markGroundRed (goInt (X (B_Pos m))) (B_EnemyID m) False g else g)
                       else g))"
    if "\<forall>pl \<in> set (platforms g). \<not> bloodTouches m pl"
    using that find_enumerate_None[of "bloodTouches m" 0 "platforms g"]
    by (simp add: h_def bloodHit_def Let_def)
  have some: "h = (m\<lparr>B_Active := False\<rparr>,
                   (if 0 \<le> goInt (X (B_Pos m)) \<and> goInt (X (B_Pos m)) < width g
                    then markPlatformRed (int i) (goInt (X (B_Pos m))) (B_EnemyID m) g else g))"
    if "i < length (platforms g)" "bloodTouches m (platforms g ! i)"
       "\<forall>j < i. \<not> bloodTouches m (platforms g ! j)" for i
    using find_enumerate_Some[of i "platforms g" "bloodTouches m" 0, OF that]
    by (simp add: h_def bloodHit_def Let_def)
  have ex: "B_Active (bloodExpire dt g' x) \<longleftrightarrow>
      B_Active x \<and> B_Lifetime x - dt > 0 \<and>
      \<not> (X (B_Pos x) < - 10 \<or> X (B_Pos x) > real_of_int (width g') + 10 \<or>
         Y (B_Pos x) > real_of_int (height g'))" for g' x
    by (auto simp: bloodExpire_def Let_def)
  have 1: "B_Active (fst (bloodStep dt b g)) \<longleftrightarrow>
        (\<forall>pl \<in> set (platforms g). \<not> bloodTouches m pl) \<and>
        B_Lifetime b - dt > 0 \<and>
        \<not> (X (B_Pos m) < - 10 \<or> X (B_Pos m) > real_of_int (width g) + 10 \<or>
           Y (B_Pos m) > real_of_int (height g))"
  proof (cases "\<forall>pl \<in> set (platforms g). \<not> bloodTouches m pl")
    case True
    have "fst h = m" using none[OF True] by simp
    then show ?thesis unfolding st using True mm by (simp add: ex geo)
  next
    case False
    then obtain pl where pl: "pl \<in> set (platforms g)" "bloodTouches m pl" by blast
    then obtain k where k: "k < length (platforms g)" "bloodTouches m (platforms g ! k)"
      by (metis in_set_conv_nth)
    define i where "i = (LEAST k. k < length (platforms g) \<and> bloodTouches m (platforms g ! k))"
    have i: "i < length (platforms g) \<and> bloodTouches m (platforms g ! i)"
      unfolding i_def using k by (rule_tac LeastI[of _ k]) simp
    have "\<forall>j < i. \<not> bloodTouches m (platforms g ! j)"
    proof (intro allI impI)
      fix j assume "j < i"
      then have "\<not> (j < length (platforms g) \<and> bloodTouches m (platforms g ! j))"
        unfolding i_def by (rule not_less_Least)
      then show "\<not> bloodTouches m (platforms g ! j)" using \<open>j < i\<close> i by simp
    qed
    then have "\<not> B_Active (fst h)" using some[of i] i by simp
    then show ?thesis unfolding st using False by (simp add: ex)
  qed
  have 2: "\<forall>i < length (platforms g).
        bloodTouches m (platforms g ! i) \<and> (\<forall>j < i. \<not> bloodTouches m (platforms g ! j)) \<and>
        0 \<le> goInt (X (B_Pos m)) \<and> goInt (X (B_Pos m)) < width g \<longrightarrow>
        redPlatformTiles (snd (bloodStep dt b g)) (int i * 10000 + goInt (X (B_Pos m))) =
          Some (B_EnemyID b)"
  proof (intro allI impI)
    fix i assume a: "i < length (platforms g)"
      and b: "bloodTouches m (platforms g ! i) \<and> (\<forall>j < i. \<not> bloodTouches m (platforms g ! j)) \<and>
        0 \<le> goInt (X (B_Pos m)) \<and> goInt (X (B_Pos m)) < width g"
    have "snd h = markPlatformRed (int i) (goInt (X (B_Pos m))) (B_EnemyID m) g"
      using some[of i] a b by simp
    then show "redPlatformTiles (snd (bloodStep dt b g)) (int i * 10000 + goInt (X (B_Pos m))) =
          Some (B_EnemyID b)"
      unfolding st by (simp add: markPlatformRed_def Let_def mm)
  qed
  have 3: "(\<forall>pl \<in> set (platforms g). \<not> bloodTouches m pl) \<and>
      Y (B_Pos m) \<ge> real_of_int (groundY g) \<and>
      0 \<le> goInt (X (B_Pos m)) \<and> goInt (X (B_Pos m)) < width g \<longrightarrow>
        redGroundTiles (snd (bloodStep dt b g)) (goInt (X (B_Pos m))) = Some (B_EnemyID b)"
  proof
    assume a: "(\<forall>pl \<in> set (platforms g). \<not> bloodTouches m pl) \<and>
      Y (B_Pos m) \<ge> real_of_int (groundY g) \<and>
      0 \<le> goInt (X (B_Pos m)) \<and> goInt (X (B_Pos m)) < width g"
    then have "snd h = markGroundRed (goInt (X (B_Pos m))) (B_EnemyID m) False g"
      using none by simp
    then show "redGroundTiles (snd (bloodStep dt b g)) (goInt (X (B_Pos m))) = Some (B_EnemyID b)"
      unfolding st using a by (simp add: markGroundRed_def mm)
  qed
  have 4: "gameOver g \<longrightarrow> (\<forall>c \<in> set (bloodParticles (updateBloodParticles dt g)). B_EnemyID c = 0)"
    using updateBloodParticles_effect[of dt g] by simp
  show ?thesis using 1 2 3 4 unfolding m_def by blast
qed

theorem blood_particle_step_witness:
  "B_Active splash \<and>
   \<not> bloodTouches (bloodMove (1 / 30) splash) ledge \<and>
   Y (B_Pos (bloodMove (1 / 30) splash)) \<ge> real_of_int (groundY cliff) \<and>
   goInt (X (B_Pos (bloodMove (1 / 30) splash))) = 5 \<and>
   redGroundTiles (snd (bloodStep (1 / 30) splash cliff)) 5 = Some 7 \<and>
   B_Active (fst (bloodStep (1 / 30) splash cliff)) \<and>
   B_Active spray \<and>
   bloodTouches (bloodMove (1 / 30) spray) ledge \<and>
   goInt (X (B_Pos (bloodMove (1 / 30) spray))) = 45 \<and>
   redPlatformTiles (snd (bloodStep (1 / 30) spray cliff)) 45 = Some 7 \<and>
   \<not> B_Active (fst (bloodStep (1 / 30) spray cliff))"
proof -
  have m1: "bloodMove (1 / 30) splash = splash\<lparr>B_Vel := \<lparr>X = 0, Y = 10\<rparr>, B_Pos := \<lparr>X = 5, Y = 22.9 + 1 / 3\<rparr>\<rparr>"
    by (simp add: bloodMove_def Let_def splash_def)
  have m2: "bloodMove (1 / 30) spray = spray\<lparr>B_Vel := \<lparr>X = 0, Y = 10\<rparr>, B_Pos := \<lparr>X = 45, Y = 14.5 + 1 / 3\<rparr>\<rparr>"
    by (simp add: bloodMove_def Let_def spray_def)
  have a: "B_Active splash" "B_Lifetime splash - 1 / 30 > 0" "B_EnemyID splash = 7"
    "B_Active spray" "B_EnemyID spray = 7"
    by (simp_all add: splash_def spray_def)
  have t1: "\<not> bloodTouches (bloodMove (1 / 30) splash) ledge"
    "Y (B_Pos (bloodMove (1 / 30) splash)) \<ge> real_of_int (groundY cliff)"
    "goInt (X (B_Pos (bloodMove (1 / 30) splash))) = 5"
    "\<not> X (B_Pos (bloodMove (1 / 30) splash)) < - 10"
    "\<not> X (B_Pos (bloodMove (1 / 30) splash)) > real_of_int (width cliff) + 10"
    "\<not> Y (B_Pos (bloodMove (1 / 30) splash)) > real_of_int (height cliff)"
    by (simp_all add: m1 bloodTouches_def ledge_def cliff_fields goInt_def)
  have t2: "bloodTouches (bloodMove (1 / 30) spray) ledge"
    "goInt (X (B_Pos (bloodMove (1 / 30) spray))) = 45"
    by (simp_all add: m2 bloodTouches_def ledge_def goInt_def)
  from blood_particle_step [OF a(1), of "1 / 30" cliff] t1 a(2,3)
  have r1: "redGroundTiles (snd (bloodStep (1 / 30) splash cliff)) 5 = Some 7"
    "B_Active (fst (bloodStep (1 / 30) splash cliff))"
    by (simp_all add: cliff_fields)
  from blood_particle_step [OF a(4), of "1 / 30" cliff] t2 a(5)
  have r2: "redPlatformTiles (snd (bloodStep (1 / 30) spray cliff)) 45 = Some 7"
    "\<not> B_Active (fst (bloodStep (1 / 30) spray cliff))"
    by (simp_all add: cliff_fields)
  show ?thesis using a(1,4) t1(1,2,3) t2 r1 r2 by simp
qed

text \<open>
  C4 as stated fails at the ground: a particle that reaches the ground line commits its
  stain and is still there, active, after the update.
\<close>

theorem ground_contact_keeps_particle:
  "Y (B_Pos (bloodMove (1 / 30) splash)) \<ge> real_of_int (groundY (arena\<lparr>bloodParticles := [splash]\<rparr>)) \<and>
   redGroundTiles (updateBloodParticles (1 / 30) (arena\<lparr>bloodParticles := [splash]\<rparr>)) 5 = Some 7 \<and>
   length (bloodParticles (updateBloodParticles (1 / 30) (arena\<lparr>bloodParticles := [splash]\<rparr>))) = 1 \<and>
   B_Active (hd (bloodParticles (updateBloodParticles (1 / 30) (arena\<lparr>bloodParticles := [splash]\<rparr>))))"
proof -
  let ?g = "arena\<lparr>bloodParticles := [splash]\<rparr>"
  have g: "bloodParticles ?g = [splash]" "\<not> gameOver ?g" "platforms ?g = []" "groundY ?g = 23"
    "width ?g = 80" "height ?g = 24" "redGroundTiles ?g = Map.empty"
    by (simp_all add: arena_def)
  have m1: "bloodMove (1 / 30) splash = splash\<lparr>B_Vel := \<lparr>X = 0, Y = 10\<rparr>, B_Pos := \<lparr>X = 5, Y = 22.9 + 1 / 3\<rparr>\<rparr>"
    by (simp add: bloodMove_def Let_def splash_def)
  have h: "bloodHit (bloodMove (1 / 30) splash) ?g =
      (bloodMove (1 / 30) splash, ?g\<lparr>redGroundTiles := [5 \<mapsto> 7]\<rparr>)"
    unfolding m1 by (simp add: bloodHit_def Let_def arena_def goInt_def markGroundRed_def splash_def)
  have s: "bloodStep (1 / 30) splash ?g =
      (splash\<lparr>B_Vel := \<lparr>X = 0, Y = 10\<rparr>, B_Pos := \<lparr>X = 5, Y = 22.9 + 1 / 3\<rparr>, B_Lifetime := 1 - 1 / 30\<rparr>,
       ?g\<lparr>redGroundTiles := [5 \<mapsto> 7]\<rparr>)"
    unfolding bloodStep_split h unfolding m1
    by (simp add: bloodExpire_def Let_def splash_def arena_def)
  show ?thesis
    unfolding updateBloodParticles_single[OF g(1,2)] s
    using m1 by (simp add: arena_def splash_def)
qed

section \<open>Decapitation\<close>

text \<open>
  C5, as the code has it. Whether a defeat decapitates is decided by one uniform draw taken
  in \<open>createDeathParticles\<close>, the burst routine of a defeated opponent: below 0.1 (one in
  ten) the routine adds exactly one rolling head fragment and one active corpse, both tagged
  with the id it reserves from \<open>nextEnemyID\<close>; otherwise it adds the normal 6 fragments and
  no corpse. The player's routine \<open>createPlayerDeathParticles\<close> has no such branch: it
  always adds 7 fragments of source 0 and never a corpse.
\<close>

theorem decapitation_branch:
  "(rnd g 0 < 0.1 \<longrightarrow>
      (\<exists>h c. deathParticles (createDeathParticles now e g) = deathParticles g @ [h] \<and>
             corpses (createDeathParticles now e g) = corpses g @ [c] \<and>
             D_IsHead h \<and> D_IsRolling h \<and> D_Active h \<and> D_EnemyID h = nextEnemyID g \<and>
             C_Active c \<and> C_EnemyID c = nextEnemyID g) \<and>
      nextEnemyID (createDeathParticles now e g) = wrap64 (nextEnemyID g + 1)) \<and>
   (\<not> rnd g 0 < 0.1 \<longrightarrow>
      corpses (createDeathParticles now e g) = corpses g \<and>
      (\<exists>fs. deathParticles (createDeathParticles now e g) = deathParticles g @ fs \<and>
            length fs = 6 \<and> (\<forall>f \<in> set fs. D_Active f \<and> D_EnemyID f = nextEnemyID g))) \<and>
   corpses (createPlayerDeathParticles now g) = corpses g \<and>
   (\<exists>fs. deathParticles (createPlayerDeathParticles now g) = deathParticles g @ fs \<and>
         length fs = 7 \<and> (\<forall>f \<in> set fs. D_Active f \<and> D_EnemyID f = 0))"
proof (intro conjI impI)
  assume a: "rnd g 0 < 0.1"
  let ?g0 = "g\<lparr>rnd := dropRnd 1 (rnd g)\<rparr>"
  obtain h c where hc: "clrBlood (createDecap now e ?g0) =
           clrBlood (?g0\<lparr>deathParticles := deathParticles ?g0 @ [h], corpses := corpses ?g0 @ [c],
                        nextEnemyID := wrap64 (nextEnemyID ?g0 + 1)\<rparr>)"
     "freshFrag (nextEnemyID ?g0) h" "D_IsHead h" "D_IsRolling h"
     "C_Active c" "C_EnemyID c = nextEnemyID ?g0"
    using createDecap_effect[of now e ?g0] by blast
  have eq: "createDeathParticles now e g = createDecap now e ?g0"
    using a by (rule createDeathParticles_decap)
  have "deathParticles (createDeathParticles now e g) = deathParticles g @ [h]"
    unfolding eq using clrBlood_fields(4)[OF hc(1)] by simp
  moreover have "corpses (createDeathParticles now e g) = corpses g @ [c]"
    unfolding eq using clrBlood_fields(5)[OF hc(1)] by simp
  ultimately show "\<exists>h c. deathParticles (createDeathParticles now e g) = deathParticles g @ [h] \<and>
             corpses (createDeathParticles now e g) = corpses g @ [c] \<and>
             D_IsHead h \<and> D_IsRolling h \<and> D_Active h \<and> D_EnemyID h = nextEnemyID g \<and>
             C_Active c \<and> C_EnemyID c = nextEnemyID g"
    using hc(2-6) by (auto simp: freshFrag_def)
  show "nextEnemyID (createDeathParticles now e g) = wrap64 (nextEnemyID g + 1)"
    unfolding eq using clrBlood_fields(17)[OF hc(1)] by simp
next
  assume a: "\<not> rnd g 0 < 0.1"
  obtain fs where fs: "clrBlood (createDeathParticles now e g) =
          clrBlood (g\<lparr>deathParticles := deathParticles g @ fs,
                      nextEnemyID := wrap64 (nextEnemyID g + 1)\<rparr>)"
        "\<forall>f \<in> set fs. freshFrag (nextEnemyID g) f"
        "map D_Pos fs = map (piecePos (E_Pos e)) (enemyPieces (E_Facing e))"
    using createDeathParticles_burst[OF a] by blast
  show "corpses (createDeathParticles now e g) = corpses g"
    using clrBlood_fields(5)[OF fs(1)] by simp
  have "length fs = 6" using arg_cong[OF fs(3), of length] by (simp add: length_enemyPieces)
  moreover have "deathParticles (createDeathParticles now e g) = deathParticles g @ fs"
    using clrBlood_fields(4)[OF fs(1)] by simp
  ultimately show "\<exists>fs. deathParticles (createDeathParticles now e g) = deathParticles g @ fs \<and>
            length fs = 6 \<and> (\<forall>f \<in> set fs. D_Active f \<and> D_EnemyID f = nextEnemyID g)"
    using fs(2) by (auto simp: freshFrag_def)
next
  obtain fs where fs: "clrBlood (createPlayerDeathParticles now g) =
          clrBlood (g\<lparr>deathParticles := deathParticles g @ fs\<rparr>)"
        "\<forall>f \<in> set fs. freshFrag 0 f"
        "map D_Pos fs = map (piecePos (P_Pos (player g))) (playerPieces (P_Facing (player g)))"
    using createPlayerDeathParticles_effect by blast
  show "corpses (createPlayerDeathParticles now g) = corpses g"
    using clrBlood_fields(5)[OF fs(1)] by simp
  have "length fs = 7" using arg_cong[OF fs(3), of length] by (simp add: length_playerPieces)
  moreover have "deathParticles (createPlayerDeathParticles now g) = deathParticles g @ fs"
    using clrBlood_fields(4)[OF fs(1)] by simp
  ultimately show "\<exists>fs. deathParticles (createPlayerDeathParticles now g) = deathParticles g @ fs \<and>
         length fs = 7 \<and> (\<forall>f \<in> set fs. D_Active f \<and> D_EnemyID f = 0)"
    using fs(2) by (auto simp: freshFrag_def)
qed

theorem decapitation_branch_witness:
  "rnd arena 0 < 0.1 \<and>
   map D_EnemyID (deathParticles (createDeathParticles 0 foe arena)) = [1] \<and>
   map C_EnemyID (corpses (createDeathParticles 0 foe arena)) = [1] \<and>
   \<not> rnd calm 0 < 0.1 \<and>
   corpses (createDeathParticles 0 foe calm) = [] \<and>
   map D_EnemyID (deathParticles (createDeathParticles 0 foe calm)) = [1, 1, 1, 1, 1, 1]"
proof -
  have a: "rnd arena 0 < 0.1" by (simp add: arena_fields)
  have b: "\<not> rnd calm 0 < 0.1" by (simp add: calm_fields)
  from decapitation_branch [of arena 0 foe] a obtain h c where
    hc: "deathParticles (createDeathParticles 0 foe arena) = deathParticles arena @ [h]"
        "corpses (createDeathParticles 0 foe arena) = corpses arena @ [c]"
        "D_EnemyID h = nextEnemyID arena" "C_EnemyID c = nextEnemyID arena"
    by blast
  from decapitation_branch [of calm 0 foe] b obtain fs where
    fs: "corpses (createDeathParticles 0 foe calm) = corpses calm"
        "deathParticles (createDeathParticles 0 foe calm) = deathParticles calm @ fs"
        "length fs = 6" "\<forall>f \<in> set fs. D_Active f \<and> D_EnemyID f = nextEnemyID calm"
    by blast
  have "map D_EnemyID fs = replicate (length fs) 1"
    using fs(4) by (simp add: calm_fields map_replicate_const[symmetric] cong: map_cong)
  then have "map D_EnemyID fs = [1, 1, 1, 1, 1, 1]"
    by (simp add: fs(3) numeral_eq_Suc)
  then show ?thesis using a b hc fs(1,2) by (simp add: arena_fields calm_fields)
qed

text \<open>
  C5 as stated fails for the player: with the very draw that decapitates an opponent
  (0 is below 0.1), the player's defeat leaves 7 fragments and no corpse.
\<close>

theorem player_defeat_never_decapitates:
  "rnd arena 0 < 0.1 \<and>
   corpses (createPlayerDeathParticles 0 arena) = [] \<and>
   length (deathParticles (createPlayerDeathParticles 0 arena)) = 7 \<and>
   length (corpses (createDeathParticles 0 foe arena)) = 1"
proof -
  have a: "rnd arena 0 < 0.1" by (simp add: arena_fields)
  obtain fs where fs: "clrBlood (createPlayerDeathParticles 0 arena) =
          clrBlood (arena\<lparr>deathParticles := deathParticles arena @ fs\<rparr>)"
        "map D_Pos fs = map (piecePos (P_Pos (player arena))) (playerPieces (P_Facing (player arena)))"
    using createPlayerDeathParticles_effect by blast
  have l: "length fs = 7" using arg_cong[OF fs(2), of length] by (simp add: length_playerPieces)
  have c: "corpses (createPlayerDeathParticles 0 arena) = []"
    using clrBlood_fields(5)[OF fs(1)] by (simp add: arena_fields)
  have d: "length (deathParticles (createPlayerDeathParticles 0 arena)) = 7"
    using clrBlood_fields(4)[OF fs(1)] l by (simp add: arena_fields)
  let ?g0 = "arena\<lparr>rnd := dropRnd 1 (rnd arena)\<rparr>"
  obtain h k where hc: "clrBlood (createDecap 0 foe ?g0) =
           clrBlood (?g0\<lparr>deathParticles := deathParticles ?g0 @ [h], corpses := corpses ?g0 @ [k],
                        nextEnemyID := wrap64 (nextEnemyID ?g0 + 1)\<rparr>)"
    using createDecap_effect[of 0 foe ?g0] by blast
  have "corpses (createDeathParticles 0 foe arena) = [k]"
    unfolding createDeathParticles_decap[OF a] using clrBlood_fields(5)[OF hc] by (simp add: arena_fields)
  then show ?thesis using a c d by simp
qed


subsection \<open>C6: a fast player projectile does not tunnel through an opponent\<close>

text \<open>
  Claim C6. The main loop caps the elapsed time at 0.1 s, so a player projectile (200 px/s)
  moves at most 20 px per step and the four sample points between its previous and its
  current position are at most 4 px apart, less than the 5 px in which a 1 px projectile
  overlaps an opponent of width \<^term>\<open>EnemyWidth\<close>. So when the two positions lie on opposite sides
  of an active opponent (\<^term>\<open>straddles\<close>), neither end overlaps the opponent but the swept test
  \<^term>\<open>sweptHit\<close> reports a hit. In a pass of \<^term>\<open>checkCollisions\<close> in which the player is not
  defeated, the projectile and the opponent are then never both still active afterwards; and
  when the projectile's test hits no active opponent earlier in the list, and no earlier
  player projectile's test hits this opponent, the projectile is consumed and this opponent
  is killed. The elapsed time is not negative, and \<open>float64\<close> is read as \<open>real\<close>.
\<close>

theorem swept_hit_registers:
  assumes "0 \<le> raw"
    and "i < length (projectiles g)"
    and "projectiles g ! i = projectileStep (clampDt raw) g0 pr0"
    and "Pr_Active (projectiles g ! i)" and "\<not> Pr_IsEnemy pr0"
    and "Pr_Dir pr0 = 1 \<or> Pr_Dir pr0 = - 1"
    and "j < length (enemies g)" and "E_Active (enemies g ! j)"
    and "EnemyWidth \<le> E_Width (enemies g ! j)"
    and "straddles (projectiles g ! i) (enemies g ! j)"
    and "\<not> playerDefeated g"
  shows "\<not> overlapsEnemy (X (Pr_PrevPos (projectiles g ! i))) (Y (Pr_PrevPos (projectiles g ! i)))
             (enemies g ! j) \<and>
         \<not> overlapsEnemy (X (Pr_Pos (projectiles g ! i))) (Y (Pr_Pos (projectiles g ! i)))
             (enemies g ! j) \<and>
         sweptHit (projectiles g ! i) (enemies g ! j) \<and>
         (\<not> Pr_Active (projectiles (checkCollisions now g) ! i) \<or>
          \<not> E_Active (enemies (checkCollisions now g) ! j)) \<and>
         ((\<forall>j' < j. \<not> (E_Active (enemies g ! j') \<and> sweptHit (projectiles g ! i) (enemies g ! j'))) \<and>
          (\<forall>i' < i. \<not> (Pr_Active (projectiles g ! i') \<and> \<not> Pr_IsEnemy (projectiles g ! i') \<and>
                          sweptHit (projectiles g ! i') (enemies g ! j))) \<longrightarrow>
          \<not> Pr_Active (projectiles (checkCollisions now g) ! i) \<and>
          \<not> E_Active (enemies (checkCollisions now g) ! j))"
proof -
  define pr where "pr = projectiles g ! i"
  define e where "e = enemies g ! j"
  define l where "l = forEach (projectileKill now) (projectiles g) g"
  have w: "0 \<le> E_Width e" using assms(9) by (simp add: e_def EnemyWidth_def)
  have act0: "Pr_Active pr0"
  proof (rule ccontr)
    assume n: "\<not> Pr_Active pr0"
    then have "projectileStep (clampDt raw) g0 pr0 = pr0" by (rule projectileStep_inactive)
    then show False using assms(3,4) n by simp
  qed
  have own: "\<not> Pr_IsEnemy pr"
    unfolding pr_def assms(3) using act0 assms(5) by (simp add: projectileStep_moves)
  have act: "Pr_Active pr" using assms(4) by (simp add: pr_def)
  have m: "\<not> overlapsEnemy (X (Pr_PrevPos pr)) (Y (Pr_PrevPos pr)) e"
          "\<not> overlapsEnemy (X (Pr_Pos pr)) (Y (Pr_Pos pr)) e"
    using straddles_misses[of pr e] assms(10) w by (simp_all add: pr_def e_def)
  have h: "sweptHit pr e"
    unfolding pr_def e_def assms(3)
    by (rule swept_core[OF assms(1) assms(4)[unfolded assms(3)] assms(5) assms(6) assms(9)
          assms(10)[unfolded assms(3)]])
  have c: "projectiles (checkCollisions now g) = fst l" "enemies (checkCollisions now g) = enemies (snd l)"
    unfolding l_def using assms(11) by (rule checkCollisions_loop)+
  have a: "\<not> Pr_Active (fst l ! i) \<or> \<not> E_Active (enemies (snd l) ! j)"
    unfolding l_def
    by (rule killLoop_hits[OF assms(2) act[unfolded pr_def] own[unfolded pr_def] assms(7)
          h[unfolded pr_def e_def]])
  have b: "(\<forall>j' < j. \<not> (E_Active (enemies g ! j') \<and> sweptHit pr (enemies g ! j'))) \<and>
          (\<forall>i' < i. \<not> (Pr_Active (projectiles g ! i') \<and> \<not> Pr_IsEnemy (projectiles g ! i') \<and>
                          sweptHit (projectiles g ! i') e)) \<longrightarrow>
          \<not> Pr_Active (fst l ! i) \<and> \<not> E_Active (enemies (snd l) ! j)"
  proof
    assume q: "(\<forall>j' < j. \<not> (E_Active (enemies g ! j') \<and> sweptHit pr (enemies g ! j'))) \<and>
          (\<forall>i' < i. \<not> (Pr_Active (projectiles g ! i') \<and> \<not> Pr_IsEnemy (projectiles g ! i') \<and>
                          sweptHit (projectiles g ! i') e))"
    show "\<not> Pr_Active (fst l ! i) \<and> \<not> E_Active (enemies (snd l) ! j)"
      unfolding l_def
      by (rule killLoop_kills[OF assms(2) act[unfolded pr_def] own[unfolded pr_def] assms(7)
            assms(8) h[unfolded pr_def e_def] conjunct1[OF q, unfolded pr_def]
            conjunct2[OF q, unfolded e_def]])
  qed
  show ?thesis
    unfolding c pr_def[symmetric] e_def[symmetric] using m h a b by blast
qed

theorem swept_hit_registers_witness:
  "projectiles duel ! 1 = projectileStep (clampDt (1 / 2)) arena shot \<and>
   Pr_Active (projectiles duel ! 1) \<and> E_Active (enemies duel ! 1) \<and>
   straddles (projectiles duel ! 1) (enemies duel ! 1) \<and>
   sweptHit (projectiles duel ! 1) (enemies duel ! 1) \<and>
   \<not> Pr_Active (projectiles (checkCollisions 0 duel) ! 1) \<and>
   \<not> E_Active (enemies (checkCollisions 0 duel) ! 1)"
proof -
  have h1: "(0 :: real) \<le> 1 / 2" by simp
  have h2: "1 < length (projectiles duel)" by (simp add: duel_def)
  have h3: "projectiles duel ! 1 = projectileStep (clampDt (1 / 2)) arena shot"
    by (simp add: duel_def)
  have h4: "Pr_Active (projectiles duel ! 1)" by (simp add: duel_fields)
  have h5: "\<not> Pr_IsEnemy shot" by (simp add: shot_def)
  have h6: "Pr_Dir shot = 1 \<or> Pr_Dir shot = - 1" by (simp add: shot_def)
  have h7: "1 < length (enemies duel)" by (simp add: duel_def)
  have h8: "E_Active (enemies duel ! 1)" by (simp add: duel_fields foe_def)
  have h9: "EnemyWidth \<le> E_Width (enemies duel ! 1)"
    by (simp add: duel_fields foe_def EnemyWidth_def)
  have h10: "straddles (projectiles duel ! 1) (enemies duel ! 1)"
    by (simp add: duel_fields foe_def straddles_def)
  have h11: "\<not> playerDefeated duel"
    by (simp add: playerDefeated_def playerTouchesEnemy_def projectileTouchesPlayer_def
          duel_fields arena_def foe_def stray_def)
  have q1: "\<forall>j' < 1. \<not> (E_Active (enemies duel ! j') \<and>
                          sweptHit (projectiles duel ! 1) (enemies duel ! j'))"
    by (simp add: duel_fields foe_def sweptHit_points overlapsEnemy_def)
  have q2: "\<forall>i' < 1. \<not> (Pr_Active (projectiles duel ! i') \<and> \<not> Pr_IsEnemy (projectiles duel ! i') \<and>
                          sweptHit (projectiles duel ! i') (enemies duel ! 1))"
    by (simp add: duel_fields stray_def foe_def sweptHit_points overlapsEnemy_def)
  from swept_hit_registers [OF h1 h2 h3 h4 h5 h6 h7 h8 h9 h10 h11, of 0] q1 q2 h3 h4 h8 h10
  show ?thesis by blast
qed

theorem first_in_list_takes_the_hit:
  "projectiles queue ! 0 = projectileStep (clampDt (1 / 2)) arena shot \<and>
   Pr_Active (projectiles queue ! 0) \<and> \<not> Pr_IsEnemy (projectiles queue ! 0) \<and>
   E_Active (enemies queue ! 1) \<and> E_Width (enemies queue ! 1) = EnemyWidth \<and>
   straddles (projectiles queue ! 0) (enemies queue ! 1) \<and>
   sweptHit (projectiles queue ! 0) (enemies queue ! 1) \<and>
   \<not> playerDefeated queue \<and>
   map E_Active (enemies (checkCollisions 0 queue)) = [False, True] \<and>
   map Pr_Active (projectiles (checkCollisions 0 queue)) = [False]"
proof -
  define rear where "rear = foe\<lparr>E_Pos := \<lparr>X = 58, Y = 20\<rparr>\<rparr>"
  define pr where "pr = \<lparr>Pr_Pos = \<lparr>X = 64, Y = 21\<rparr>, Pr_PrevPos = \<lparr>X = 44, Y = 21\<rparr>, Pr_Dir = 1,
      Pr_Active = True, Pr_Frame = 1, Pr_IsEnemy = False\<rparr>"
  have q: "projectiles queue = [pr]" "enemies queue = [rear, foe]"
    by (simp_all add: queue_fields pr_def rear_def)
  have s: "projectiles queue ! 0 = projectileStep (clampDt (1 / 2)) arena shot"
    by (simp add: queue_def)
  have p: "Pr_Active pr" "\<not> Pr_IsEnemy pr" by (simp_all add: pr_def)
  have r: "E_Active rear" "sweptHit pr rear"
    by (simp_all add: rear_def foe_def pr_def sweptHit_points overlapsEnemy_def)
  have f: "E_Active foe" "E_Width foe = EnemyWidth" "straddles pr foe" "sweptHit pr foe"
    by (simp_all add: foe_def pr_def EnemyWidth_def straddles_def sweptHit_points overlapsEnemy_def)
  have d: "\<not> playerDefeated queue"
    by (simp add: playerDefeated_def playerTouchesEnemy_def projectileTouchesPlayer_def
          queue_fields arena_def foe_def)
  have k: "projectileKill 0 pr queue =
      (pr\<lparr>Pr_Active := False\<rparr>,
       (createDeathParticles 0 rear queue)
          \<lparr>enemies := [rear\<lparr>E_Active := False\<rparr>, foe],
           score := wrap64 (score queue + 10),
           enemiesDefeated := wrap64 (enemiesDefeated queue + 1)\<rparr>)"
    using r p by (simp add: projectileKill_def q)
  have c: "checkCollisions 0 queue =
      (createDeathParticles 0 rear queue)
          \<lparr>enemies := [rear\<lparr>E_Active := False\<rparr>, foe],
           score := wrap64 (score queue + 10),
           enemiesDefeated := wrap64 (enemiesDefeated queue + 1),
           projectiles := [pr\<lparr>Pr_Active := False\<rparr>]\<rparr>"
    using d by (simp add: checkCollisions_def q(1) k)
  have e: "map E_Active (enemies (checkCollisions 0 queue)) = [False, True]"
          "map Pr_Active (projectiles (checkCollisions 0 queue)) = [False]"
    unfolding c using f(1) by simp_all
  have "projectiles queue ! 0 = pr" "enemies queue ! 1 = foe" by (simp_all add: q)
  then show ?thesis using s p f d e by simp
qed
section \<open>The stain registry after the sweep\<close>

text \<open>
  C7. After \<open>checkAndClearRedTiles\<close>, every remaining ground-tile stain and every remaining
  platform-tile stain names a source id that has an active fragment or an active blood
  particle; so no stain of a source without any active particle remains.
\<close>

theorem stain_sweep:
  "(\<forall>x e. redGroundTiles (checkAndClearRedTiles g) x = Some e \<longrightarrow>
      (\<exists>p \<in> set (deathParticles (checkAndClearRedTiles g)). D_Active p \<and> D_EnemyID p = e) \<or>
      (\<exists>b \<in> set (bloodParticles (checkAndClearRedTiles g)). B_Active b \<and> B_EnemyID b = e)) \<and>
   (\<forall>k e. redPlatformTiles (checkAndClearRedTiles g) k = Some e \<longrightarrow>
      (\<exists>p \<in> set (deathParticles (checkAndClearRedTiles g)). D_Active p \<and> D_EnemyID p = e) \<or>
      (\<exists>b \<in> set (bloodParticles (checkAndClearRedTiles g)). B_Active b \<and> B_EnemyID b = e))"
  by (auto simp: checkAndClearRedTiles_def Let_def clearTiles_def activeEnemyIDs_def
           split: option.splits if_splits)

theorem stain_sweep_witness:
  "redGroundTiles (checkAndClearRedTiles stained) 3 = Some 7 \<and>
   redPlatformTiles (checkAndClearRedTiles stained) 10002 = Some 7 \<and>
   redGroundTiles (checkAndClearRedTiles stained) 4 = None \<and>
   ((\<exists>p \<in> set (deathParticles (checkAndClearRedTiles stained)). D_Active p \<and> D_EnemyID p = 7) \<or>
    (\<exists>b \<in> set (bloodParticles (checkAndClearRedTiles stained)). B_Active b \<and> B_EnemyID b = 7))"
proof -
  have h1: "redGroundTiles (checkAndClearRedTiles stained) 3 = Some 7"
    and h2: "redPlatformTiles (checkAndClearRedTiles stained) 10002 = Some 7"
    and h3: "redGroundTiles (checkAndClearRedTiles stained) 4 = None"
    by (simp_all add: checkAndClearRedTiles_def Let_def clearTiles_def activeEnemyIDs_def
          arena_def drop_def stained_def)
  from stain_sweep [of stained] h1 h2 h3 show ?thesis by blast
qed

section \<open>A corpse breaks apart once\<close>

text \<open>
  C8. In the step of \<open>updateCorpses\<close>, an active corpse past its end time is deactivated
  and adds exactly 6 fragments: active, tagged with the corpse's own source id, placed at
  the sprite offsets from the position the corpse has in that tick. An inactive corpse is
  skipped: the step changes neither the corpse nor the world. Over the whole loop ids never
  change, an inactive corpse stays as it is, and a corpse is active afterwards only if it was
  active and not past its end time. In \<open>updateDeathParticles\<close>, the only caller, the
  fragments added are 6 per corpse that was active and past its end time, in order, and none
  for any other corpse; while the round is not over they go through the fragment step of
  the same tick with all other fragments, and once the round is over they are discarded with
  all fragments of a source other than 0 before the step. The same holds of a whole
  \<open>update\<close>, in the menu and in play, with the corpses \<open>cs\<close> and fragments \<open>ds\<close> that the
  collision phase of that tick may have added. Over any run of the main loop a corpse that
  is inactive stays exactly as it is, so a corpse that has burst never bursts again.
\<close>

theorem corpse_expiry:
  "(C_Active c \<and> now > C_EndTime c \<longrightarrow>
      \<not> C_Active (fst (corpseStep now dt c g)) \<and>
      (\<exists>fs. deathParticles (snd (corpseStep now dt c g)) = deathParticles g @ fs \<and>
            length fs = 6 \<and>
            (\<forall>f \<in> set fs. D_Active f \<and> D_EnemyID f = C_EnemyID c) \<and>
            map D_Pos fs = map (piecePos (C_Pos (fst (corpseStep now dt c g))))
                               (enemyPieces (C_Facing c)))) \<and>
   (\<not> C_Active c \<longrightarrow> corpseStep now dt c g = (c, g)) \<and>
   list_all2 (\<lambda>c c'. C_EnemyID c' = C_EnemyID c \<and> (\<not> C_Active c \<longrightarrow> c' = c) \<and>
                      C_Active c' = (C_Active c \<and> \<not> now > C_EndTime c))
             (corpses g) (corpses (updateCorpses now dt g)) \<and>
   (\<exists>fs. deathParticles (updateCorpses now dt g) = deathParticles g @ fs \<and>
         map D_EnemyID fs =
           concat (map (\<lambda>c. replicate 6 (C_EnemyID c)) (filter (expired now) (corpses g))) \<and>
         (\<forall>f \<in> set fs. D_Active f) \<and>
         deathParticles (updateDeathParticles now dt g) =
           filter D_Active
             (map (\<lambda>p. fst (particleStep now dt p g))
                  (if gameOver g then filter (\<lambda>p. D_EnemyID p = 0) (deathParticles g @ fs)
                   else deathParticles g @ fs))) \<and>
   (\<exists>cs ds fs.
         list_all2 (\<lambda>c c'. C_EnemyID c' = C_EnemyID c \<and> (\<not> C_Active c \<longrightarrow> c' = c) \<and>
                      C_Active c' = (C_Active c \<and> \<not> now > C_EndTime c))
             (corpses g @ cs) (corpses (update now dt g)) \<and>
         map D_EnemyID fs =
           concat (map (\<lambda>c. replicate 6 (C_EnemyID c)) (filter (expired now) (corpses g @ cs))) \<and>
         (\<forall>f \<in> set fs. D_Active f) \<and>
         deathParticles (update now dt g) =
           filter D_Active
             (map (\<lambda>p. fst (particleStep now dt p g))
                  (if gameOver g \<or> \<not> inMenu g \<and> playerDefeated (updatePlayer now dt g)
                   then filter (\<lambda>p. D_EnemyID p = 0) (deathParticles g @ ds @ fs)
                   else deathParticles g @ ds @ fs))) \<and>
   (\<forall>i frames. i < length (corpses g) \<and> \<not> C_Active (corpses g ! i) \<longrightarrow>
         i < length (corpses (runFrames frames g)) \<and>
         corpses (runFrames frames g) ! i = corpses g ! i)"
proof (intro conjI impI allI)
  assume a: "C_Active c \<and> now > C_EndTime c"
  then show "\<not> C_Active (fst (corpseStep now dt c g))" by (simp add: corpseStep_keeps)
  obtain fs where fs: "clrBlood (snd (corpseStep now dt c g)) = clrBlood (g\<lparr>deathParticles := deathParticles g @ fs\<rparr>)"
      "\<forall>f \<in> set fs. freshFrag (C_EnemyID c) f"
      "map D_Pos fs = (if expired now c
                        then map (piecePos (C_Pos (fst (corpseStep now dt c g)))) (enemyPieces (C_Facing c))
                        else [])"
    using corpseStep_effect by blast
  have p: "map D_Pos fs = map (piecePos (C_Pos (fst (corpseStep now dt c g)))) (enemyPieces (C_Facing c))"
    using fs(3) a by (simp add: expired_def)
  have "length fs = 6" using arg_cong[OF p, of length] by (simp add: length_enemyPieces)
  moreover have "deathParticles (snd (corpseStep now dt c g)) = deathParticles g @ fs"
    using clrBlood_fields(4)[OF fs(1)] by simp
  ultimately show "\<exists>fs. deathParticles (snd (corpseStep now dt c g)) = deathParticles g @ fs \<and>
            length fs = 6 \<and>
            (\<forall>f \<in> set fs. D_Active f \<and> D_EnemyID f = C_EnemyID c) \<and>
            map D_Pos fs = map (piecePos (C_Pos (fst (corpseStep now dt c g))))
                               (enemyPieces (C_Facing c))"
    using fs(2) p by (auto simp: freshFrag_def)
next
  assume "\<not> C_Active c"
  then show "corpseStep now dt c g = (c, g)" by (rule corpseStep_inactive)
next
  show "list_all2 (\<lambda>c c'. C_EnemyID c' = C_EnemyID c \<and> (\<not> C_Active c \<longrightarrow> c' = c) \<and>
                      C_Active c' = (C_Active c \<and> \<not> now > C_EndTime c))
             (corpses g) (corpses (updateCorpses now dt g))"
    by (rule updateCorpses_corpses)
next
  show "\<exists>fs. deathParticles (updateCorpses now dt g) = deathParticles g @ fs \<and>
         map D_EnemyID fs =
           concat (map (\<lambda>c. replicate 6 (C_EnemyID c)) (filter (expired now) (corpses g))) \<and>
         (\<forall>f \<in> set fs. D_Active f) \<and>
         deathParticles (updateDeathParticles now dt g) =
           filter D_Active
             (map (\<lambda>p. fst (particleStep now dt p g))
                  (if gameOver g then filter (\<lambda>p. D_EnemyID p = 0) (deathParticles g @ fs)
                   else deathParticles g @ fs))"
    using updateDeathParticles_exact[OF sameStage_refl, where now = now and dt = dt and g = g] by blast
next
  obtain e where e: "update now dt g =
       checkAndClearRedTiles (updateBloodParticles dt (updateDeathParticles now dt e))"
    "grown g e" "sameStage e g"
    "gameOver e = (gameOver g \<or> \<not> inMenu g \<and> playerDefeated (updatePlayer now dt g))"
    by (rule tick_entry)
  obtain cs ds where cd: "corpses e = corpses g @ cs" "deathParticles e = deathParticles g @ ds"
    using e(2) unfolding grown_iff by blast
  have c: "corpses (update now dt g) = corpses (updateCorpses now dt e)"
    unfolding e(1) by (simp add: debris_corpses updateDeathParticles_corpses)
  have d: "deathParticles (update now dt g) = deathParticles (updateDeathParticles now dt e)"
    unfolding e(1) by (rule debris_frags)
  from updateDeathParticles_exact[OF e(3), where now = now and dt = dt] obtain fs where
    fs: "map D_EnemyID fs =
           concat (map (\<lambda>c. replicate 6 (C_EnemyID c)) (filter (expired now) (corpses e)))"
        "\<forall>f \<in> set fs. D_Active f \<and> D_Bounces f = 0 \<and> \<not> D_OnGround f"
        "deathParticles (updateDeathParticles now dt e) =
           filter D_Active
             (map (\<lambda>p. fst (particleStep now dt p g))
                  (if gameOver e then filter (\<lambda>p. D_EnemyID p = 0) (deathParticles e @ fs)
                   else deathParticles e @ fs))" by blast
  have 1: "list_all2 (\<lambda>c c'. C_EnemyID c' = C_EnemyID c \<and> (\<not> C_Active c \<longrightarrow> c' = c) \<and>
                      C_Active c' = (C_Active c \<and> \<not> now > C_EndTime c))
             (corpses g @ cs) (corpses (update now dt g))"
    unfolding c cd(1)[symmetric] by (rule updateCorpses_corpses)
  have 2: "deathParticles (update now dt g) =
           filter D_Active
             (map (\<lambda>p. fst (particleStep now dt p g))
                  (if gameOver g \<or> \<not> inMenu g \<and> playerDefeated (updatePlayer now dt g)
                   then filter (\<lambda>p. D_EnemyID p = 0) (deathParticles g @ ds @ fs)
                   else deathParticles g @ ds @ fs))"
    unfolding d fs(3) e(4) cd(2) by simp
  show "\<exists>cs ds fs.
         list_all2 (\<lambda>c c'. C_EnemyID c' = C_EnemyID c \<and> (\<not> C_Active c \<longrightarrow> c' = c) \<and>
                      C_Active c' = (C_Active c \<and> \<not> now > C_EndTime c))
             (corpses g @ cs) (corpses (update now dt g)) \<and>
         map D_EnemyID fs =
           concat (map (\<lambda>c. replicate 6 (C_EnemyID c)) (filter (expired now) (corpses g @ cs))) \<and>
         (\<forall>f \<in> set fs. D_Active f) \<and>
         deathParticles (update now dt g) =
           filter D_Active
             (map (\<lambda>p. fst (particleStep now dt p g))
                  (if gameOver g \<or> \<not> inMenu g \<and> playerDefeated (updatePlayer now dt g)
                   then filter (\<lambda>p. D_EnemyID p = 0) (deathParticles g @ ds @ fs)
                   else deathParticles g @ ds @ fs))"
    using 1 2 fs(1,2) unfolding cd(1) by blast
next
  fix i frames
  assume "i < length (corpses g) \<and> \<not> C_Active (corpses g ! i)"
  then show "i < length (corpses (runFrames frames g))"
    and "corpses (runFrames frames g) ! i = corpses g ! i"
    using runFrames_inactive[of i g frames] by simp_all
qed

theorem corpse_expiry_witness:
  "C_Active headless \<and> 5 > C_EndTime headless \<and>
   \<not> C_Active (fst (corpseStep 5 (1 / 30) headless haunt)) \<and>
   map D_EnemyID (deathParticles (snd (corpseStep 5 (1 / 30) headless haunt))) = [4, 4, 4, 4, 4, 4] \<and>
   corpseStep 9 (1 / 30) (headless\<lparr>C_Active := False\<rparr>) haunt = (headless\<lparr>C_Active := False\<rparr>, haunt) \<and>
   \<not> gameOver haunt \<and>
   map D_EnemyID (deathParticles (updateCorpses 5 (1 / 30) haunt)) = [4, 4, 4, 4, 4, 4] \<and>
   deathParticles (updateDeathParticles 5 (1 / 30) haunt) =
     filter D_Active (map (\<lambda>p. fst (particleStep 5 (1 / 30) p haunt))
                          (deathParticles (updateCorpses 5 (1 / 30) haunt))) \<and>
   0 < length (corpses (update 5 (1 / 30) haunt)) \<and>
   \<not> C_Active (corpses (update 5 (1 / 30) haunt) ! 0) \<and>
   corpses (runFrames [(33 * Millisecond, 1 / 30, None)] (update 5 (1 / 30) haunt)) ! 0 =
     corpses (update 5 (1 / 30) haunt) ! 0 \<and>
   gameOver wreck \<and> deathParticles (updateDeathParticles 5 (1 / 30) wreck) = []"
proof -
  have a: "C_Active headless \<and> 5 > C_EndTime headless" by (simp add: headless_def)
  have b: "\<not> C_Active (headless\<lparr>C_Active := False\<rparr>)" by simp
  have h: "corpses haunt = [headless]" "deathParticles haunt = []" "\<not> gameOver haunt"
    by (simp_all add: haunt_def arena_def)
  have x: "expired 5 headless" using a by (simp add: expired_def)
  note t = corpse_expiry [of headless 5 "1 / 30" haunt]
  from t a obtain fs where
    fs: "\<not> C_Active (fst (corpseStep 5 (1 / 30) headless haunt))"
        "deathParticles (snd (corpseStep 5 (1 / 30) headless haunt)) = deathParticles haunt @ fs"
        "length fs = 6" "\<forall>f \<in> set fs. D_Active f \<and> D_EnemyID f = C_EnemyID headless"
    by blast
  have "map D_EnemyID fs = replicate (length fs) 4"
    using fs(4) by (simp add: headless_def map_replicate_const[symmetric] cong: map_cong)
  then have ids: "map D_EnemyID (deathParticles (snd (corpseStep 5 (1 / 30) headless haunt))) =
                  [4, 4, 4, 4, 4, 4]"
    by (simp add: fs(2,3) h numeral_eq_Suc)
  from corpse_expiry [of "headless\<lparr>C_Active := False\<rparr>" 9 "1 / 30" haunt] b
  have c: "corpseStep 9 (1 / 30) (headless\<lparr>C_Active := False\<rparr>) haunt =
           (headless\<lparr>C_Active := False\<rparr>, haunt)"
    by blast
  from t obtain bs where
    bs: "deathParticles (updateCorpses 5 (1 / 30) haunt) = deathParticles haunt @ bs"
        "map D_EnemyID bs =
           concat (map (\<lambda>c. replicate 6 (C_EnemyID c)) (filter (expired 5) (corpses haunt)))"
        "deathParticles (updateDeathParticles 5 (1 / 30) haunt) =
           filter D_Active
             (map (\<lambda>p. fst (particleStep 5 (1 / 30) p haunt))
                  (if gameOver haunt then filter (\<lambda>p. D_EnemyID p = 0) (deathParticles haunt @ bs)
                   else deathParticles haunt @ bs))"
    by blast
  have u1: "map D_EnemyID (deathParticles (updateCorpses 5 (1 / 30) haunt)) = [4, 4, 4, 4, 4, 4]"
    using bs(2) x by (simp add: bs(1) h headless_def numeral_eq_Suc)
  have u2: "deathParticles (updateDeathParticles 5 (1 / 30) haunt) =
     filter D_Active (map (\<lambda>p. fst (particleStep 5 (1 / 30) p haunt))
                          (deathParticles (updateCorpses 5 (1 / 30) haunt)))"
    using bs(3) by (simp add: bs(1) h)
  from t obtain cs where
    cs: "list_all2 (\<lambda>c c'. C_EnemyID c' = C_EnemyID c \<and> (\<not> C_Active c \<longrightarrow> c' = c) \<and>
                      C_Active c' = (C_Active c \<and> \<not> 5 > C_EndTime c))
             (corpses haunt @ cs) (corpses (update 5 (1 / 30) haunt))"
    by blast
  have l: "0 < length (corpses (update 5 (1 / 30) haunt))"
    using list_all2_lengthD[OF cs] by (auto simp: h)
  have "C_Active (corpses (update 5 (1 / 30) haunt) ! 0) =
        (C_Active ((corpses haunt @ cs) ! 0) \<and> \<not> 5 > C_EndTime ((corpses haunt @ cs) ! 0))"
    using list_all2_nthD[OF cs, of 0] by (simp add: h)
  then have i: "\<not> C_Active (corpses (update 5 (1 / 30) haunt) ! 0)"
    using a by (simp add: h)
  from corpse_expiry [of _ _ _ "update 5 (1 / 30) haunt"] l i
  have r: "corpses (runFrames [(33 * Millisecond, 1 / 30, None)] (update 5 (1 / 30) haunt)) ! 0 =
           corpses (update 5 (1 / 30) haunt) ! 0"
    by blast
  have w: "gameOver wreck" "corpses wreck = [headless]" "deathParticles wreck = []"
    by (simp_all add: wreck_def arena_def)
  from corpse_expiry [of headless 5 "1 / 30" wreck] obtain ws where
    ws: "map D_EnemyID ws =
           concat (map (\<lambda>c. replicate 6 (C_EnemyID c)) (filter (expired 5) (corpses wreck)))"
        "deathParticles (updateDeathParticles 5 (1 / 30) wreck) =
           filter D_Active
             (map (\<lambda>p. fst (particleStep 5 (1 / 30) p wreck))
                  (if gameOver wreck then filter (\<lambda>p. D_EnemyID p = 0) (deathParticles wreck @ ws)
                   else deathParticles wreck @ ws))"
    by blast
  have "filter (\<lambda>p. D_EnemyID p = 0) ws = []"
    by (rule ids_nonzero[OF ws(1)]) (simp add: w headless_def)
  then have g: "deathParticles (updateDeathParticles 5 (1 / 30) wreck) = []"
    unfolding ws(2) by (simp add: w)
  show ?thesis using a fs(1) ids c h(3) u1 u2 l i r w(1) g by simp
qed

text \<open>
  C8 as stated fails once the round is over. In \<open>wreck\<close> the corpse is active and past its
  end time: the tick deactivates it, and no fragment is left when the tick ends.
\<close>

theorem burst_discarded_when_round_over:
  "gameOver wreck \<and> \<not> inMenu wreck \<and> corpses wreck = [headless] \<and>
   deathParticles wreck = [] \<and>
   C_Active headless \<and> 5 > C_EndTime headless \<and>
   deathParticles (update 5 (1 / 30) wreck) = [] \<and>
   map C_Active (corpses (update 5 (1 / 30) wreck)) = [False]"
proof -
  have w: "gameOver wreck" "\<not> inMenu wreck" "corpses wreck = [headless]" "deathParticles wreck = []"
    by (simp_all add: wreck_def arena_def)
  have a: "C_Active headless" "5 > C_EndTime headless" "C_EnemyID headless \<noteq> 0"
    by (simp_all add: headless_def)
  have o: "gameOver wreck \<or> playerDefeated (updatePlayer 5 (1 / 30) wreck)" using w(1) by simp
  from roundOver_entry[OF w(2) o] obtain e new where
    e: "update 5 (1 / 30) wreck =
          checkAndClearRedTiles (updateBloodParticles (1 / 30) (updateDeathParticles 5 (1 / 30) e))"
      "gameOver e" "sameStage e wreck" "corpses e = corpses wreck"
      "deathParticles e = deathParticles wreck @ new" "gameOver wreck \<Longrightarrow> new = []"
    by blast
  have n: "deathParticles e = []" using e(5) e(6)[OF w(1)] w(4) by simp
  from debris_roundOver(4)[OF e(2,3), where dt = "1 / 30" and now = 5, folded e(1)] obtain fs where
    fs: "map D_EnemyID fs =
            concat (map (\<lambda>c. replicate 6 (C_EnemyID c)) (filter (expired 5) (corpses e)))"
        "deathParticles (update 5 (1 / 30) wreck) =
            filter D_Active
              (map (\<lambda>p. fst (particleStep 5 (1 / 30) p wreck))
                   (filter (\<lambda>p. D_EnemyID p = 0) (deathParticles e @ fs)))"
    by blast
  have "filter (\<lambda>p. D_EnemyID p = 0) fs = []"
    by (rule ids_nonzero[OF fs(1)]) (use a(3) in \<open>simp add: e(4) w(3)\<close>)
  then have d: "deathParticles (update 5 (1 / 30) wreck) = []" unfolding fs(2) n by simp
  have c: "corpses (update 5 (1 / 30) wreck) = corpses (updateCorpses 5 (1 / 30) e)"
    unfolding e(1) by (simp add: debris_corpses updateDeathParticles_corpses)
  have "list_all2 (\<lambda>c c'. C_EnemyID c' = C_EnemyID c \<and> (\<not> C_Active c \<longrightarrow> c' = c) \<and>
                      C_Active c' = (C_Active c \<and> \<not> 5 > C_EndTime c))
             [headless] (corpses (update 5 (1 / 30) wreck))"
    unfolding c using updateCorpses_corpses[of 5 e "1 / 30"] by (simp add: e(4) w(3))
  then have m: "map C_Active (corpses (update 5 (1 / 30) wreck)) = [False]"
    using a(1,2) by (auto simp: list_all2_Cons1)
  show ?thesis using w a(1,2) d m by simp
qed
section \<open>Start and restart\<close>

text \<open>
  C9. Starting from the menu and restarting at game over empty the projectiles, opponents,
  fragments and blood particles, clear both stain maps and zero the score and the defeat
  counter (lemma \<open>reset_clears_all_but_corpses\<close>), but neither touches the corpses: an
  active corpse of the menu demo, or of the round that just ended, is still there and
  active after the reset.
\<close>

theorem reset_keeps_corpses:
  "inMenu lobby \<and>
   corpses (handleInput 7 (KeyRune (CHR '' '')) lobby) = [headless] \<and>
   \<not> inMenu wreck \<and> gameOver wreck \<and>
   corpses (handleInput 7 KeyEnter wreck) = [headless] \<and>
   C_Active headless"
  by (simp add: handleInput_def startGame_fields restartGame_fields lobby_def wreck_def arena_def
        headless_def)


subsection \<open>C10: opponents alternate between the non-shooting and the shooting kind\<close>

text \<open>
  Claim C10. Opponents are created alternately as the non-shooting and the shooting kind,
  starting with a non-shooting one. In the source the kind is the parity of
  \<^verbatim>\<open>enemySpawnCounter\<close> at the moment of the spawn, and the counter is incremented right after.
  \<^term>\<open>spawnLog\<close> runs rounds of the main loop from a world in play until the next return to the
  menu and lists the kind of every opponent spawned on the way. The \<open>k\<close>-th entry of the
  list is the parity of the counter at the start plus \<open>k\<close>: the kinds alternate, and from a
  counter of zero the first opponent does not shoot. The counter is a 64-bit integer, so the
  statement is for runs in which it does not wrap.
\<close>

theorem spawn_alternates:
  assumes "\<not> inMenu g" "0 \<le> enemySpawnCounter g"
    and "enemySpawnCounter g + int (length fs) < 2 ^ 63"
    and "k < length (spawnLog fs g)"
  shows "spawnLog fs g ! k = odd (enemySpawnCounter g + int k)"
  using assms
proof (induction fs arbitrary: g k)
  case Nil
  then show ?case by simp
next
  case (Cons a fs)
  obtain now dt ev where a: "a = (now, dt, ev)" by (cases a)
  define g1 where "g1 = applyInput now ev g"
  define g' where "g' = update now (clampDt dt) g1"
  define c where "c = enemySpawnCounter g"
  have m: "\<not> inMenu g1"
  proof
    assume "inMenu g1"
    then have "spawnLog (a # fs) g = []" by (simp add: a g1_def)
    then show False using Cons.prems(4) by simp
  qed
  have c1: "enemySpawnCounter g1 = c"
    unfolding g1_def c_def using Cons.prems(1) m[unfolded g1_def] by (rule applyInput_ingame)
  have log: "spawnLog (a # fs) g =
      (if enemySpawnCounter g' \<noteq> c then [E_CanShoot (last (enemies g'))] else []) @ spawnLog fs g'"
    using m c1 by (simp add: a g1_def[symmetric] g'_def[symmetric] Let_def)
  have u: "\<not> inMenu g'"
      "enemySpawnCounter g' = c \<or>
       enemySpawnCounter g' = wrap64 (c + 1) \<and> E_CanShoot (last (enemies g')) = (goRem c 2 = 1)"
    unfolding g'_def using update_ingame_spawn[OF m, of now "clampDt dt"] c1 by simp_all
  have c0: "0 \<le> c" "c + 1 + int (length fs) < 2 ^ 63"
    using Cons.prems(2,3) by (simp_all add: c_def)
  then have w: "wrap64 (c + 1) = c + 1" by (intro wrap64_small) simp_all
  show ?case
  proof (cases "enemySpawnCounter g' = c")
    case True
    have l: "spawnLog (a # fs) g = spawnLog fs g'" using True log by simp
    have "spawnLog fs g' ! k = odd (enemySpawnCounter g' + int k)"
      using Cons.prems(4) c0 True u(1) by (intro Cons.IH) (simp_all add: l)
    then show ?thesis using True l by (simp add: c_def)
  next
    case False
    then have s: "enemySpawnCounter g' = c + 1" "E_CanShoot (last (enemies g')) = odd c"
      using u(2) w goRem_odd[OF c0(1)] by simp_all
    have l: "spawnLog (a # fs) g = E_CanShoot (last (enemies g')) # spawnLog fs g'"
      using False log by simp
    show ?thesis
    proof (cases k)
      case 0
      then show ?thesis using l s by (simp add: c_def)
    next
      case (Suc j)
      have "spawnLog fs g' ! j = odd (enemySpawnCounter g' + int j)"
        using Cons.prems(4) c0 s u(1) Suc by (intro Cons.IH) (simp_all add: l)
      then show ?thesis using l s Suc by (simp add: c_def)
    qed
  qed
qed


theorem spawn_alternates_witness:
  "\<not> inMenu arena \<and> 0 \<le> enemySpawnCounter arena \<and>
   enemySpawnCounter arena + int (length [(0 :: int, 1 / 30 :: real, None :: Input option)]) < 2 ^ 63 \<and>
   0 < length (spawnLog [(0, 1 / 30, None)] arena) \<and>
   spawnLog [(0, 1 / 30, None)] arena ! 0 = False \<and>
   \<not> inMenu (arena\<lparr>enemySpawnCounter := 1\<rparr>) \<and>
   0 < length (spawnLog [(0, 1 / 30, None)] (arena\<lparr>enemySpawnCounter := 1\<rparr>)) \<and>
   spawnLog [(0, 1 / 30, None)] (arena\<lparr>enemySpawnCounter := 1\<rparr>) ! 0 = True"
proof -
  have z: "arena\<lparr>enemySpawnCounter := 0\<rparr> = arena" by (simp add: arena_def)
  have t0: "enemySpawnCounter (update 0 (1 / 30) arena) = 1"
    using arena_first_tick[of 0] by (simp add: z wrap64_def)
  have t1: "enemySpawnCounter (update 0 (1 / 30) (arena\<lparr>enemySpawnCounter := 1\<rparr>)) = 2"
    using arena_first_tick[of 1] by (simp add: wrap64_def)
  have a: "\<not> inMenu arena" "0 \<le> enemySpawnCounter arena" "enemySpawnCounter arena = 0"
    by (simp_all add: arena_def)
  have b: "\<not> inMenu (arena\<lparr>enemySpawnCounter := 1\<rparr>)" by (simp add: arena_def)
  have l0: "length (spawnLog [(0, 1 / 30, None)] arena) = 1"
    using t0 a by (simp add: applyInput_def clampDt_def Let_def)
  have l1: "length (spawnLog [(0, 1 / 30, None)] (arena\<lparr>enemySpawnCounter := 1\<rparr>)) = 1"
    using t1 b by (simp add: applyInput_def clampDt_def Let_def)
  have k0: "0 < length (spawnLog [(0, 1 / 30, None)] arena)" by (simp only: l0)
  have n0: "enemySpawnCounter arena + int (length [(0 :: int, 1 / 30 :: real, None :: Input option)]) < 2 ^ 63"
    by (simp add: a)
  have "spawnLog [(0, 1 / 30, None)] arena ! 0 = odd (enemySpawnCounter arena + int 0)"
    by (rule spawn_alternates [OF a(1) a(2) n0 k0])
  then have r0: "spawnLog [(0, 1 / 30, None)] arena ! 0 = False" by (simp add: a)
  have k1: "0 < length (spawnLog [(0, 1 / 30, None)] (arena\<lparr>enemySpawnCounter := 1\<rparr>))"
    by (simp only: l1)
  have c1: "0 \<le> enemySpawnCounter (arena\<lparr>enemySpawnCounter := 1\<rparr>)" by simp
  have n1: "enemySpawnCounter (arena\<lparr>enemySpawnCounter := 1\<rparr>) +
            int (length [(0 :: int, 1 / 30 :: real, None :: Input option)]) < 2 ^ 63" by simp
  have "spawnLog [(0, 1 / 30, None)] (arena\<lparr>enemySpawnCounter := 1\<rparr>) ! 0 =
        odd (enemySpawnCounter (arena\<lparr>enemySpawnCounter := 1\<rparr>) + int 0)"
    by (rule spawn_alternates [OF b c1 n1 k1])
  then have r1: "spawnLog [(0, 1 / 30, None)] (arena\<lparr>enemySpawnCounter := 1\<rparr>) ! 0 = True" by simp
  show ?thesis using a(1) a(2) n0 k0 r0 b k1 r1 by blast
qed

end
